(* ===== verification/Prelude.thy ===== *)
theory Prelude
  imports Main "HOL-Library.AList"
begin

text \<open>
  Shared vocabulary of the development: Go error values and \<^verbatim>\<open>errors.Is\<close> /
  \<^verbatim>\<open>errors.Join\<close>, Go maps as association lists with distinct keys, and the generic
  lemmas about them that the component theories use.

  Conventions. A Go \<^verbatim>\<open>error\<close> result is a \<open>go_error option\<close> (\<open>None\<close> is
  \<^verbatim>\<open>nil\<close>); a pair \<^verbatim>\<open>(T, error)\<close> is a sum \<open>go_error + 'a\<close>
  (\<open>Inl\<close> the error). A stateful operation returns its result paired with the new
  state. A Go map is an association list whose order stands for one iteration order of the
  map; looking up is \<open>map_of\<close>, assignment is \<open>AList.update\<close>, \<^verbatim>\<open>delete\<close> is
  \<open>AList.delete\<close>. \<^verbatim>\<open>time.Now()\<close> is an argument of type \<open>int\<close> (nanoseconds).
\<close>

named_theorems go_errors \<open>how error constructors answer errors.Is\<close>
named_theorems amap \<open>lookups after updates and deletes of association lists\<close>

subsection \<open>Error values\<close>

text \<open>
  The sentinel errors of \<^verbatim>\<open>store/group_store.go\<close> and of the agent's state machine, and
  the standard library's context and stream sentinels.
\<close>

datatype sentinel =
    ErrNotFound
  | ErrAlreadyLocked
  | ErrNotLockHolder
  | ErrAlreadyExists
  | ErrNoLiveProcesses
  | CtxCanceled
  | CtxDeadlineExceeded
  | IoEOF
  | ErrServerStopped

text \<open>The gRPC status codes the two servers return.\<close>

datatype code =
    Code_Aborted
  | Code_FailedPrecondition
  | Code_Internal
  | Code_InvalidArgument
  | Code_NotFound
  | Code_PermissionDenied
  | Code_Unavailable
  | Code_Unimplemented
  | Code_Canceled
  | Code_DeadlineExceeded

text \<open>
  An error is a sentinel, a plain text (\<^verbatim>\<open>errors.New\<close>, \<^verbatim>\<open>fmt.Errorf\<close>), a
  text wrapping another error with \<^verbatim>\<open>%w\<close>, a join, a gRPC status, or a Kubernetes API
  error by its reason.
\<close>

datatype api_reason = ReasonNotFound | ReasonConflict | ReasonAlreadyExists | ReasonOther

datatype go_error =
    Sentinel sentinel
  | Text string
  | Wrap string go_error
  | Join "go_error list"
  | Status code string
  | ApiError api_reason

fun errors_is :: "go_error \<Rightarrow> sentinel \<Rightarrow> bool" where
  "errors_is (Sentinel s) t = (s = t)"
| "errors_is (Text _) t = False"
| "errors_is (Wrap _ e) t = errors_is e t"
| "errors_is (Join es) t = list_ex (\<lambda>e. errors_is e t) es"
| "errors_is (Status _ _) t = False"
| "errors_is (ApiError _) t = False"

declare errors_is.simps [go_errors]

text \<open>The text of an error message, put together from its parts as \<^verbatim>\<open>fmt.Errorf\<close> does.\<close>

definition errorf :: "string list \<Rightarrow> string" where
  "errorf parts = concat parts"

text \<open>\<^verbatim>\<open>errors.Join\<close> drops nil entries and is nil when nothing is left.\<close>

definition errors_join :: "go_error option list \<Rightarrow> go_error option" where
  "errors_join es =
     (case List.map_filter id es of [] \<Rightarrow> None | xs \<Rightarrow> Some (Join xs))"

lemma errors_join_None_iff: "errors_join es = None \<longleftrightarrow> set es \<subseteq> {None}"
  by (cases "List.map_filter id es")
    (auto simp: errors_join_def map_filter_simps List.map_filter_def filter_eq_Cons_iff filter_empty_conv)

lemma errors_join_Nil [simp]: "errors_join [] = None"
  by (simp add: errors_join_None_iff)

subsection \<open>Go maps\<close>

text \<open>\<^verbatim>\<open>m[k]\<close> of a map with values in strings: the zero value when the key is absent.\<close>

definition get_str :: "(string \<times> string) list \<Rightarrow> string \<Rightarrow> string" where
  "get_str m k = (case map_of m k of None \<Rightarrow> [] | Some v \<Rightarrow> v)"

lemma map_of_update [amap, simp]:
  "map_of (AList.update k v m) i = (if i = k then Some v else map_of m i)"
  by (simp add: update_conv')

lemma map_of_delete [amap, simp]:
  "map_of (AList.delete k m) i = (if i = k then None else map_of m i)"
  by (simp add: delete_conv')

lemma get_str_update [amap, simp]:
  "get_str (AList.update k v m) i = (if i = k then v else get_str m i)"
  by (simp add: get_str_def)

lemma get_str_delete [amap, simp]:
  "get_str (AList.delete k m) i = (if i = k then [] else get_str m i)"
  by (simp add: get_str_def)

lemma get_str_Nil [amap, simp]: "get_str [] k = []"
  by (simp add: get_str_def)

text \<open>Every map the program builds has distinct keys.\<close>

abbreviation amap_ok :: "('k \<times> 'v) list \<Rightarrow> bool" where
  "amap_ok m \<equiv> distinct (map fst m)"

text \<open>Lookups are kept as \<open>map_of\<close> equations, never turned into list membership.\<close>

declare map_of_eq_Some_iff [simp del] Some_eq_map_of_iff [simp del]

lemma amap_ok_update [simp, intro]: "amap_ok m \<Longrightarrow> amap_ok (AList.update k v m)"
  by (rule distinct_update)

lemma amap_ok_delete [simp, intro]: "amap_ok m \<Longrightarrow> amap_ok (AList.delete k m)"
  by (rule distinct_delete)

lemma amap_mem_iff: "amap_ok m \<Longrightarrow> (k, v) \<in> set m \<longleftrightarrow> map_of m k = Some v"
  by (auto intro: map_of_is_SomeI dest: map_of_SomeD)

text \<open>
  Go starts every iteration over a map at an arbitrary place; a fact that only depends on
  the map is one that two enumerations of the same map agree on.
\<close>

definition same_map :: "('k \<times> 'v) list \<Rightarrow> ('k \<times> 'v) list \<Rightarrow> bool" where
  "same_map m n \<longleftrightarrow> amap_ok m \<and> amap_ok n \<and> set m = set n"

lemma same_map_lookup: "same_map m n \<Longrightarrow> map_of m = map_of n"
  using map_of_inject_set[of m n] unfolding same_map_def by blast

end
