(* ===== verification/Waiting_Job_Queue.thy ===== *)
theory Waiting_Job_Queue
  imports Prelude
begin

text \<open>
  The FIFO queue of jobs waiting for a group lock
  (\<^verbatim>\<open>pkg/timeslice-orchestrator/store/waiting_job_queue.go\<close>): a doubly linked list of
  entries and the index \<^verbatim>\<open>exist\<close> from job to list element that prevents duplicates.
  The interface \<open>waiting_queue\<close> says what the group relies on; it is interpreted on the
  linked-list-plus-index implementation.
\<close>

record waiting_job =
  JobID :: string
  QueuedSince :: int

text \<open>
  A list element is identified with the value stored in it: the queue invariant makes job
  identifiers, hence elements, pairwise different.
\<close>

record waiting_job_queue =
  wq_jobs :: "waiting_job list"
  wq_exist :: "(string \<times> waiting_job) list"

definition NewWaitingJobQueue :: waiting_job_queue where
  "NewWaitingJobQueue = \<lparr>wq_jobs = [], wq_exist = []\<rparr>"

definition Enqueue :: "int \<Rightarrow> string \<Rightarrow> waiting_job_queue \<Rightarrow> bool \<times> waiting_job_queue" where
  "Enqueue now jobID q =
     (case map_of (wq_exist q) jobID of
        Some _ \<Rightarrow> (False, q)
      | None \<Rightarrow>
          let elem = \<lparr>JobID = jobID, QueuedSince = now\<rparr>
          in (True, q\<lparr>wq_jobs := wq_jobs q @ [elem],
                      wq_exist := AList.update jobID elem (wq_exist q)\<rparr>))"

text \<open>
  \<^verbatim>\<open>Dequeue\<close> and \<^verbatim>\<open>Peek\<close> return the job and true, or the empty string and false.
\<close>

definition Dequeue :: "waiting_job_queue \<Rightarrow> (string \<times> bool) \<times> waiting_job_queue" where
  "Dequeue q =
     (case wq_jobs q of
        [] \<Rightarrow> (([], False), q)
      | front # rest \<Rightarrow>
          ((JobID front, True),
           q\<lparr>wq_jobs := rest, wq_exist := AList.delete (JobID front) (wq_exist q)\<rparr>))"

definition Peek :: "waiting_job_queue \<Rightarrow> string \<times> bool" where
  "Peek q = (case wq_jobs q of [] \<Rightarrow> ([], False) | front # _ \<Rightarrow> (JobID front, True))"

definition Len :: "waiting_job_queue \<Rightarrow> nat" where
  "Len q = length (wq_jobs q)"

definition Exists :: "string \<Rightarrow> waiting_job_queue \<Rightarrow> bool" where
  "Exists jobID q = (case map_of (wq_exist q) jobID of None \<Rightarrow> False | Some _ \<Rightarrow> True)"

definition WaitingJobs :: "waiting_job_queue \<Rightarrow> waiting_job list" where
  "WaitingJobs q = wq_jobs q"

subsection \<open>Invariant and abstraction\<close>

text \<open>The index has exactly one entry for each list element, under its job.\<close>

definition by_job :: "waiting_job list \<Rightarrow> (string \<times> waiting_job) list" where
  "by_job ws = map (\<lambda>w. (JobID w, w)) ws"

definition queue_inv :: "waiting_job_queue \<Rightarrow> bool" where
  "queue_inv q \<longleftrightarrow>
     distinct (map JobID (wq_jobs q)) \<and> amap_ok (wq_exist q) \<and>
     map_of (wq_exist q) = map_of (by_job (wq_jobs q))"

definition waiting :: "waiting_job_queue \<Rightarrow> string list" where
  "waiting q = map JobID (wq_jobs q)"

lemma by_job_None_iff: "map_of (by_job ws) j = None \<longleftrightarrow> j \<notin> JobID ` set ws"
  by (auto simp: by_job_def map_of_eq_None_iff image_image)

lemma by_job_snoc:
  "JobID w \<notin> JobID ` set ws \<Longrightarrow> map_of (by_job (ws @ [w])) = (map_of (by_job ws))(JobID w \<mapsto> w)"
  using by_job_None_iff[of ws "JobID w"]
  by (auto simp: by_job_def map_add_def fun_eq_iff split: option.splits)

lemma by_job_tl:
  "JobID w \<notin> JobID ` set ws \<Longrightarrow> (map_of (by_job (w # ws)))(JobID w := None) = map_of (by_job ws)"
  using by_job_None_iff[of ws "JobID w"] by (auto simp: by_job_def)

lemma index_iff_waiting: "queue_inv q \<Longrightarrow> map_of (wq_exist q) j = None \<longleftrightarrow> j \<notin> set (waiting q)"
  by (simp add: queue_inv_def waiting_def by_job_None_iff)

subsection \<open>The interface the group uses\<close>

locale waiting_queue =
  fixes empty :: 'q
    and enqueue :: "int \<Rightarrow> string \<Rightarrow> 'q \<Rightarrow> bool \<times> 'q"
    and dequeue :: "'q \<Rightarrow> (string \<times> bool) \<times> 'q"
    and peek :: "'q \<Rightarrow> string \<times> bool"
    and len :: "'q \<Rightarrow> nat"
    and has_job :: "string \<Rightarrow> 'q \<Rightarrow> bool"
    and inv :: "'q \<Rightarrow> bool"
    and abs :: "'q \<Rightarrow> string list"
  assumes inv_empty: "inv empty"
    and abs_empty: "abs empty = []"
    and inv_distinct: "inv q \<Longrightarrow> distinct (abs q)"
    and inv_enqueue: "inv q \<Longrightarrow> inv (snd (enqueue t j q))"
    and inv_dequeue: "inv q \<Longrightarrow> inv (snd (dequeue q))"
    and abs_enqueue:
      "inv q \<Longrightarrow> abs (snd (enqueue t j q)) = (if j \<in> set (abs q) then abs q else abs q @ [j])"
    and added_enqueue: "inv q \<Longrightarrow> fst (enqueue t j q) \<longleftrightarrow> j \<notin> set (abs q)"
    and abs_dequeue: "inv q \<Longrightarrow> abs (snd (dequeue q)) = tl (abs q)"
    and res_dequeue: "inv q \<Longrightarrow> fst (dequeue q) = peek q"
    and res_peek: "inv q \<Longrightarrow> peek q = (case abs q of [] \<Rightarrow> ([], False) | j # _ \<Rightarrow> (j, True))"
    and res_len: "inv q \<Longrightarrow> len q = length (abs q)"
    and res_exists: "inv q \<Longrightarrow> has_job j q \<longleftrightarrow> j \<in> set (abs q)"
begin

text \<open>Enqueueing a list of jobs one after the other, each at its own time.\<close>

primrec enqueue_all :: "(int \<times> string) list \<Rightarrow> 'q \<Rightarrow> 'q" where
  "enqueue_all [] q = q"
| "enqueue_all (x # xs) q = enqueue_all xs (snd (enqueue (fst x) (snd x) q))"

text \<open>Draining: dequeue until the queue says it is empty, at most \<open>n\<close> times.\<close>

primrec drain :: "nat \<Rightarrow> 'q \<Rightarrow> string list" where
  "drain 0 q = []"
| "drain (Suc n) q =
     (case dequeue q of ((j, ok), q') \<Rightarrow> if ok then j # drain n q' else [])"

lemma enqueue_all_inv: "inv q \<Longrightarrow> inv (enqueue_all xs q)"
  by (induction xs arbitrary: q) (auto simp: inv_enqueue)

lemma abs_enqueue_all:
  assumes "inv q" and "distinct (map snd xs)" and "set (map snd xs) \<inter> set (abs q) = {}"
  shows "abs (enqueue_all xs q) = abs q @ map snd xs"
  using assms
proof (induction xs arbitrary: q)
  case (Cons x xs)
  then show ?case by (auto simp: inv_enqueue abs_enqueue)
qed simp

lemma drain_abs: "inv q \<Longrightarrow> length (abs q) \<le> n \<Longrightarrow> drain n q = abs q"
proof (induction n arbitrary: q)
  case (Suc n)
  obtain j ok q' where d: "dequeue q = ((j, ok), q')" by (metis prod.exhaust)
  have q': "inv q'" "abs q' = tl (abs q)" and r: "(j, ok) = peek q"
    using Suc.prems(1) d inv_dequeue[of q] abs_dequeue[of q] res_dequeue[of q] by auto
  show ?case
    using Suc d q' r res_peek[of q] by (cases "abs q") auto
qed simp

theorem fifo_order:
  assumes "distinct (map snd xs)"
  shows "drain (length xs) (enqueue_all xs empty) = map snd xs"
proof -
  have "abs (enqueue_all xs empty) = map snd xs"
    using abs_enqueue_all[OF inv_empty, of xs] assms by (simp add: abs_empty)
  then show ?thesis
    using drain_abs[OF enqueue_all_inv[OF inv_empty], of xs "length xs"] by simp
qed

lemma enqueue_idempotent:
  assumes "inv q"
  shows "abs (snd (enqueue t' j (snd (enqueue t j q)))) = abs (snd (enqueue t j q))"
  using assms by (simp add: abs_enqueue inv_enqueue)

lemma dequeue_removes: "inv q \<Longrightarrow> peek q = (j, True) \<Longrightarrow> j \<notin> set (abs (snd (dequeue q)))"
  using inv_distinct[of q] res_peek[of q] abs_dequeue[of q]
  by (auto split: list.splits)

end

lemma queue_inv_Enqueue:
  assumes "queue_inv q"
  shows "queue_inv (snd (Enqueue t j q))"
proof (cases "map_of (wq_exist q) j")
  case None
  then have "j \<notin> JobID ` set (wq_jobs q)"
    using index_iff_waiting[OF assms, of j] by (simp add: waiting_def)
  with None assms by_job_snoc[of "\<lparr>JobID = j, QueuedSince = t\<rparr>" "wq_jobs q"] show ?thesis
    by (simp add: Enqueue_def queue_inv_def Let_def update_conv')
qed (use assms in \<open>simp add: Enqueue_def\<close>)

lemma queue_inv_Dequeue:
  assumes "queue_inv q"
  shows "queue_inv (snd (Dequeue q))"
proof (cases "wq_jobs q")
  case (Cons w ws)
  with assms by_job_tl[of w ws] show ?thesis
    by (simp add: Dequeue_def queue_inv_def delete_conv')
qed (use assms in \<open>simp add: Dequeue_def\<close>)

lemma waiting_Enqueue:
  "queue_inv q \<Longrightarrow>
     waiting (snd (Enqueue t j q)) = (if j \<in> set (waiting q) then waiting q else waiting q @ [j])"
  using index_iff_waiting[of q j]
  by (auto simp: Enqueue_def Let_def waiting_def split: option.splits)

lemma added_Enqueue: "queue_inv q \<Longrightarrow> fst (Enqueue t j q) \<longleftrightarrow> j \<notin> set (waiting q)"
  using index_iff_waiting[of q j] by (auto simp: Enqueue_def Let_def split: option.splits)

lemma Peek_waiting: "Peek q = (case waiting q of [] \<Rightarrow> ([], False) | j # _ \<Rightarrow> (j, True))"
  by (simp add: Peek_def waiting_def split: list.splits)

lemma waiting_Dequeue: "waiting (snd (Dequeue q)) = tl (waiting q)"
  by (simp add: waiting_def Dequeue_def split: list.splits)

lemma Dequeue_result: "fst (Dequeue q) = Peek q"
  by (simp add: Dequeue_def Peek_def split: list.splits)

lemma Exists_waiting: "queue_inv q \<Longrightarrow> Exists j q \<longleftrightarrow> j \<in> set (waiting q)"
  using index_iff_waiting[of q j] by (auto simp: Exists_def split: option.splits)

interpretation wjq: waiting_queue NewWaitingJobQueue Enqueue Dequeue Peek Len Exists queue_inv waiting
proof unfold_locales
  show "queue_inv NewWaitingJobQueue" "waiting NewWaitingJobQueue = []"
    by (simp_all add: NewWaitingJobQueue_def queue_inv_def waiting_def by_job_def)
  fix q assume "queue_inv q"
  then show "distinct (waiting q)" "Len q = length (waiting q)"
    by (simp_all add: queue_inv_def waiting_def Len_def)
qed (simp_all add: queue_inv_Enqueue queue_inv_Dequeue waiting_Enqueue added_Enqueue
      waiting_Dequeue Dequeue_result Peek_waiting Exists_waiting)

text \<open>
  jobs that ask for the lock are handed out in the order in which they asked: enqueueing
  distinct jobs into a new queue and then dequeueing as often returns exactly those jobs, in
  that order.\<close>

theorem waiting_jobs_are_served_fifo:
  assumes "distinct (map snd xs)"
  shows "wjq.drain (length xs) (wjq.enqueue_all xs NewWaitingJobQueue) = map snd xs"
  using assms by (rule wjq.fifo_order)

theorem waiting_jobs_are_served_fifo_witness:
  "wjq.drain (length [(7, ''b''), (9, ''a'')])
     (wjq.enqueue_all [(7, ''b''), (9, ''a'')] NewWaitingJobQueue) = [''b'', ''a'']"
  using waiting_jobs_are_served_fifo[of "[(7, ''b''), (9, ''a'')]"] by simp

end
