(* ===== verification/Lock_Store.thy ===== *)
theory Lock_Store
  imports Prelude
begin

text \<open>
  Persistent lock state. The interface \<open>lock_store\<close> is the contract of
  \<^verbatim>\<open>store.LockStore\<close> (\<^verbatim>\<open>group_store.go\<close>) that the group relies on;
  \<^verbatim>\<open>MemLockStore\<close> (\<^verbatim>\<open>lock_memstore.go\<close>) and
  \<^verbatim>\<open>ConfigMapLockStore\<close> (\<^verbatim>\<open>configmap_lockstore.go\<close>) implement it. The
  Kubernetes API server and client-go's retry loops are not part of the repository: they are
  the fields of \<open>cm_env\<close>, and \<open>cm_env_ok\<close> states what the ConfigMap store relies on.
\<close>

record 's lock_ops =
  ls_GetLock :: "string \<Rightarrow> 's \<Rightarrow> (go_error + string) \<times> 's"
  ls_Lock :: "string \<Rightarrow> string \<Rightarrow> 's \<Rightarrow> go_error option \<times> 's"
  ls_Unlock :: "string \<Rightarrow> string \<Rightarrow> 's \<Rightarrow> go_error option \<times> 's"

subsection \<open>The contract\<close>

text \<open>
  \<open>holder s g\<close> is the job recorded for group \<open>g\<close>, the empty string when there is none.
  A failing call may or may not have taken effect (a write whose answer was lost), but it
  never takes a lock from, or for, anybody else.
\<close>

locale lock_store =
  fixes ops :: "'s lock_ops"
    and holder :: "'s \<Rightarrow> string \<Rightarrow> string"
  assumes get_ok: "ls_GetLock ops g s = (Inr j, s') \<Longrightarrow> j = holder s g \<and> holder s' = holder s"
    and get_err: "ls_GetLock ops g s = (Inl e, s') \<Longrightarrow> holder s' = holder s"
    and lock_ok:
      "ls_Lock ops g j s = (None, s') \<Longrightarrow>
         holder s g \<in> {[], j} \<and> holder s' = (holder s)(g := j)"
    and lock_err:
      "ls_Lock ops g j s = (Some e, s') \<Longrightarrow>
         holder s' = holder s \<or> holder s g \<in> {[], j} \<and> holder s' = (holder s)(g := j)"
    and unlock_ok:
      "ls_Unlock ops g j s = (None, s') \<Longrightarrow>
         holder s g \<in> {[], j} \<and> holder s' = (holder s)(g := [])"
    and unlock_err:
      "ls_Unlock ops g j s = (Some e, s') \<Longrightarrow>
         holder s' = holder s \<or> holder s g = j \<and> holder s' = (holder s)(g := [])"
begin

lemma lock_other: "ls_Lock ops g j s = (r, s') \<Longrightarrow> h \<noteq> g \<Longrightarrow> holder s' h = holder s h"
  using lock_ok[of g j s s'] lock_err[of g j s _ s'] by (cases r) auto

lemma unlock_other: "ls_Unlock ops g j s = (r, s') \<Longrightarrow> h \<noteq> g \<Longrightarrow> holder s' h = holder s h"
  using unlock_ok[of g j s s'] unlock_err[of g j s _ s'] by (cases r) auto

lemma get_holder: "ls_GetLock ops g s = (r, s') \<Longrightarrow> holder s' = holder s"
  using get_ok[of g s _ s'] get_err[of g s _ s'] by (cases r) auto

text \<open>A lock held by one job is neither granted to nor released by another.\<close>

lemma lock_refused:
  assumes "holder s g = k" and "k \<noteq> []" and "k \<noteq> j" and "ls_Lock ops g j s = (r, s')"
  shows "r \<noteq> None \<and> holder s' = holder s"
  using assms lock_ok[of g j s s'] lock_err[of g j s _ s'] by (cases r) auto

lemma unlock_refused:
  assumes "holder s g = k" and "k \<noteq> []" and "k \<noteq> j" and "ls_Unlock ops g j s = (r, s')"
  shows "r \<noteq> None \<and> holder s' = holder s"
  using assms unlock_ok[of g j s s'] unlock_err[of g j s _ s'] by (cases r) auto

end

subsection \<open>MemLockStore\<close>

type_synonym mem_lock_store = "(string \<times> string) list"

definition NewMemLockStore :: mem_lock_store where
  "NewMemLockStore = []"

definition mem_GetLock :: "string \<Rightarrow> mem_lock_store \<Rightarrow> (go_error + string) \<times> mem_lock_store" where
  "mem_GetLock groupID s = (Inr (get_str s groupID), s)"

definition mem_Lock :: "string \<Rightarrow> string \<Rightarrow> mem_lock_store \<Rightarrow> go_error option \<times> mem_lock_store" where
  "mem_Lock groupID jobID s =
     (let current = get_str s groupID
      in if current \<noteq> [] \<and> current \<noteq> jobID then (Some (Sentinel ErrAlreadyLocked), s)
         else (None, AList.update groupID jobID s))"

definition mem_Unlock :: "string \<Rightarrow> string \<Rightarrow> mem_lock_store \<Rightarrow> go_error option \<times> mem_lock_store" where
  "mem_Unlock groupID jobID s =
     (let current = get_str s groupID
      in if current = [] then (None, s)
         else if current \<noteq> jobID then (Some (Sentinel ErrNotLockHolder), s)
         else (None, AList.delete groupID s))"

definition MemLockStore :: "mem_lock_store lock_ops" where
  "MemLockStore = \<lparr>ls_GetLock = mem_GetLock, ls_Lock = mem_Lock, ls_Unlock = mem_Unlock\<rparr>"

lemmas mem_lock_defs = MemLockStore_def mem_GetLock_def mem_Lock_def mem_Unlock_def Let_def

interpretation mem: lock_store MemLockStore get_str
  by unfold_locales (auto simp: mem_lock_defs fun_eq_iff split: if_splits)

subsection \<open>ConfigMapLockStore\<close>

text \<open>
  The ConfigMap as the client sees it: \<^verbatim>\<open>Data\<close> may be nil; the resource version
  travels with the object and lets the server detect a stale update.
\<close>

record configmap =
  cm_data :: "(string \<times> string) list option"
  cm_version :: nat

definition cm_locks :: "configmap \<Rightarrow> (string \<times> string) list" where
  "cm_locks cm = (case cm_data cm of None \<Rightarrow> [] | Some d \<Rightarrow> d)"

text \<open>
  \<open>retry_conflict\<close> is \<^verbatim>\<open>retry.RetryOnConflict(retry.DefaultBackoff, _)\<close> and
  \<open>retry_exists\<close> is \<^verbatim>\<open>retry.OnError(retry.DefaultRetry, apierrors.IsAlreadyExists, _)\<close>,
  whose closure assigns the captured variable \<open>cm\<close> (the second component of its state).
\<close>

record 'w cm_env =
  api_get :: "'w \<Rightarrow> (go_error + configmap) \<times> 'w"
  api_create :: "configmap \<Rightarrow> 'w \<Rightarrow> (go_error + configmap) \<times> 'w"
  api_update :: "configmap \<Rightarrow> 'w \<Rightarrow> (go_error + configmap) \<times> 'w"
  retry_conflict :: "('w \<Rightarrow> go_error option \<times> 'w) \<Rightarrow> 'w \<Rightarrow> go_error option \<times> 'w"
  retry_exists ::
    "('w \<times> configmap option \<Rightarrow> go_error option \<times> ('w \<times> configmap option)) \<Rightarrow>
     'w \<times> configmap option \<Rightarrow> go_error option \<times> ('w \<times> configmap option)"

definition getOrCreate_attempt ::
  "'w cm_env \<Rightarrow> 'w \<times> configmap option \<Rightarrow> go_error option \<times> ('w \<times> configmap option)" where
  "getOrCreate_attempt env st =
     (case api_get env (fst st) of
        (Inr cm, w) \<Rightarrow> (None, (w, Some cm))
      | (Inl getErr, w) \<Rightarrow>
          if getErr \<noteq> ApiError ReasonNotFound then (Some getErr, (w, None))
          else
            (case api_create env \<lparr>cm_data = Some [], cm_version = 0\<rparr> w of
               (Inr cm, w') \<Rightarrow> (None, (w', Some cm))
             | (Inl createErr, w') \<Rightarrow> (Some createErr, (w', None))))"

definition getOrCreateConfigMap :: "'w cm_env \<Rightarrow> 'w \<Rightarrow> (go_error + configmap) \<times> 'w" where
  "getOrCreateConfigMap env w =
     (case retry_exists env (getOrCreate_attempt env) (w, None) of
        (Some err, (w', _)) \<Rightarrow> (Inl (Wrap ''failed to get or create configmap'' err), w')
      | (None, (w', Some cm)) \<Rightarrow> (Inr cm, w')
      | (None, (w', None)) \<Rightarrow> (Inl (Text ''nil configmap''), w'))"

definition cm_GetLock :: "'w cm_env \<Rightarrow> string \<Rightarrow> 'w \<Rightarrow> (go_error + string) \<times> 'w" where
  "cm_GetLock env groupID w =
     (case api_get env w of
        (Inl err, w') \<Rightarrow>
          if err = ApiError ReasonNotFound then (Inr [], w')
          else (Inl (Wrap ''failed to get configmap'' err), w')
      | (Inr cm, w') \<Rightarrow>
          (case cm_data cm of
             None \<Rightarrow> (Inr [], w')
           | Some d \<Rightarrow> (Inr (get_str d groupID), w')))"

definition cm_Lock_attempt :: "'w cm_env \<Rightarrow> string \<Rightarrow> string \<Rightarrow> 'w \<Rightarrow> go_error option \<times> 'w" where
  "cm_Lock_attempt env groupID jobID w =
     (case getOrCreateConfigMap env w of
        (Inl err, w') \<Rightarrow> (Some err, w')
      | (Inr cm, w') \<Rightarrow>
          let data = (case cm_data cm of None \<Rightarrow> [] | Some d \<Rightarrow> d);
              current = get_str data groupID
          in if current \<noteq> [] \<and> current \<noteq> jobID then (Some (Sentinel ErrAlreadyLocked), w')
             else
               (case api_update env (cm\<lparr>cm_data := Some (AList.update groupID jobID data)\<rparr>) w' of
                  (Inl err, w'') \<Rightarrow> (Some err, w'')
                | (Inr _, w'') \<Rightarrow> (None, w'')))"

definition cm_Lock :: "'w cm_env \<Rightarrow> string \<Rightarrow> string \<Rightarrow> 'w \<Rightarrow> go_error option \<times> 'w" where
  "cm_Lock env groupID jobID w = retry_conflict env (cm_Lock_attempt env groupID jobID) w"

definition cm_Unlock_attempt :: "'w cm_env \<Rightarrow> string \<Rightarrow> string \<Rightarrow> 'w \<Rightarrow> go_error option \<times> 'w" where
  "cm_Unlock_attempt env groupID jobID w =
     (case api_get env w of
        (Inl err, w') \<Rightarrow>
          if err = ApiError ReasonNotFound then (None, w')
          else (Some (Wrap ''failed to get configmap'' err), w')
      | (Inr cm, w') \<Rightarrow>
          (case cm_data cm of
             None \<Rightarrow> (None, w')
           | Some data \<Rightarrow>
               let current = get_str data groupID
               in if current = [] then (None, w')
                  else if current \<noteq> jobID then (Some (Sentinel ErrNotLockHolder), w')
                  else
                    (case api_update env (cm\<lparr>cm_data := Some (AList.delete groupID data)\<rparr>) w' of
                       (Inl err, w'') \<Rightarrow> (Some err, w'')
                     | (Inr _, w'') \<Rightarrow> (None, w''))))"

definition cm_Unlock :: "'w cm_env \<Rightarrow> string \<Rightarrow> string \<Rightarrow> 'w \<Rightarrow> go_error option \<times> 'w" where
  "cm_Unlock env groupID jobID w = retry_conflict env (cm_Unlock_attempt env groupID jobID) w"

definition ConfigMapLockStore :: "'w cm_env \<Rightarrow> 'w lock_ops" where
  "ConfigMapLockStore env =
     \<lparr>ls_GetLock = cm_GetLock env, ls_Lock = cm_Lock env, ls_Unlock = cm_Unlock env\<rparr>"

subsection \<open>What the ConfigMap store relies on\<close>

text \<open>
  client-go retries a closure while it fails with a retriable error, a bounded number of
  times, and returns the last answer; an update is refused with a conflict, without effect,
  when the object changed since it was read. Other clients may touch the object (so
  conflicts do happen) but not its lock entries.
\<close>

fun is_conflict :: "go_error \<Rightarrow> bool" where
  "is_conflict (ApiError r) = (r = ReasonConflict)"
| "is_conflict (Wrap _ e) = is_conflict e"
| "is_conflict _ = False"

fun is_already_exists :: "go_error \<Rightarrow> bool" where
  "is_already_exists (ApiError r) = (r = ReasonAlreadyExists)"
| "is_already_exists (Wrap _ e) = is_already_exists e"
| "is_already_exists _ = False"

fun retry_upto ::
  "nat \<Rightarrow> (go_error \<Rightarrow> bool) \<Rightarrow> ('w \<Rightarrow> go_error option \<times> 'w) \<Rightarrow> 'w \<Rightarrow> go_error option \<times> 'w" where
  "retry_upto 0 p f w = f w"
| "retry_upto (Suc n) p f w =
     (case f w of
        (Some e, w') \<Rightarrow> if p e then retry_upto n p f w' else (Some e, w')
      | (None, w') \<Rightarrow> (None, w'))"

definition retry_ok :: "(go_error \<Rightarrow> bool) \<Rightarrow>
    (('w \<Rightarrow> go_error option \<times> 'w) \<Rightarrow> 'w \<Rightarrow> go_error option \<times> 'w) \<Rightarrow> bool" where
  "retry_ok p retry \<longleftrightarrow> (\<exists>n. retry = retry_upto n p)"

definition cm_get_ok :: "'w cm_env \<Rightarrow> ('w \<Rightarrow> string \<Rightarrow> string) \<Rightarrow> bool" where
  "cm_get_ok env holder \<longleftrightarrow>
     (\<forall>w. case api_get env w of
            (Inr cm, w') \<Rightarrow> get_str (cm_locks cm) = holder w \<and> holder w' = holder w
          | (Inl e, w') \<Rightarrow> holder w' = holder w \<and> (e = ApiError ReasonNotFound \<longrightarrow> holder w = (\<lambda>_. [])))"

definition cm_create_ok :: "'w cm_env \<Rightarrow> ('w \<Rightarrow> string \<Rightarrow> string) \<Rightarrow> bool" where
  "cm_create_ok env holder \<longleftrightarrow>
     (\<forall>cm w. cm_locks cm = [] \<longrightarrow>
        (case api_create env cm w of
           (Inr c, w') \<Rightarrow> get_str (cm_locks c) = holder w \<and> holder w' = holder w
         | (Inl e, w') \<Rightarrow> holder w' = holder w))"

definition cm_update_ok :: "'w cm_env \<Rightarrow> ('w \<Rightarrow> string \<Rightarrow> string) \<Rightarrow> bool" where
  "cm_update_ok env holder \<longleftrightarrow>
     (\<forall>cm w. case api_update env cm w of
               (Inr c, w') \<Rightarrow> holder w' = get_str (cm_locks cm)
             | (Inl e, w') \<Rightarrow> holder w' = holder w \<or>
                   \<not> is_conflict e \<and> holder w' = get_str (cm_locks cm))"

definition cm_env_ok :: "'w cm_env \<Rightarrow> ('w \<Rightarrow> string \<Rightarrow> string) \<Rightarrow> bool" where
  "cm_env_ok env holder \<longleftrightarrow>
     retry_ok is_conflict (retry_conflict env) \<and> retry_ok is_already_exists (retry_exists env) \<and>
     cm_get_ok env holder \<and> cm_create_ok env holder \<and> cm_update_ok env holder"

text \<open>
  A retried operation keeps a two-part postcondition that its attempts have: what a success
  does, and what a failure does when retriable failures have no effect.
\<close>

lemma retry_upto_post:
  assumes ok: "\<And>w w'. I w \<Longrightarrow> f w = (None, w') \<Longrightarrow> Q w'"
    and err: "\<And>w e w'. I w \<Longrightarrow> f w = (Some e, w') \<Longrightarrow> \<not> p e \<Longrightarrow> R w'"
    and again: "\<And>w e w'. I w \<Longrightarrow> f w = (Some e, w') \<Longrightarrow> p e \<Longrightarrow> I w'"
    and I_R: "\<And>w. I w \<Longrightarrow> R w"
    and start: "I w"
  shows "case retry_upto n p f w of (None, w') \<Rightarrow> Q w' | (Some e, w') \<Rightarrow> R w'"
  using start
proof (induction n arbitrary: w)
  case 0
  obtain r w' where r: "f w = (r, w')" by fastforce
  show ?case
  proof (cases r)
    case (Some e)
    then show ?thesis
      using r 0 err[of w e w'] again[of w e w'] I_R[of w'] by (cases "p e") auto
  qed (use r 0 ok in auto)
next
  case (Suc n)
  obtain r w' where r: "f w = (r, w')" by fastforce
  show ?case
  proof (cases r)
    case (Some e)
    then show ?thesis
      using r Suc.prems Suc.IH[of w'] err[of w e w'] again[of w e w'] by (cases "p e") auto
  qed (use r Suc.prems ok in auto)
qed

lemma cm_get_facts:
  assumes "cm_env_ok env holder"
  shows "api_get env w = (Inr cm, w') \<Longrightarrow> get_str (cm_locks cm) = holder w \<and> holder w' = holder w"
    and "api_get env w = (Inl e, w') \<Longrightarrow> holder w' = holder w"
    and "api_get env w = (Inl (ApiError ReasonNotFound), w') \<Longrightarrow> holder w = (\<lambda>_. [])"
  using assms by (auto simp: cm_env_ok_def cm_get_ok_def dest!: spec[of _ w])

lemma cm_create_facts:
  assumes "cm_env_ok env holder" and "cm_locks cm = []"
  shows "api_create env cm w = (Inr c, w') \<Longrightarrow> get_str (cm_locks c) = holder w \<and> holder w' = holder w"
    and "api_create env cm w = (Inl e, w') \<Longrightarrow> holder w' = holder w"
  using assms by (auto simp: cm_env_ok_def cm_create_ok_def dest!: spec[of _ cm] spec[of _ w])

lemma cm_update_facts:
  assumes "cm_env_ok env holder"
  shows "api_update env cm w = (Inr c, w') \<Longrightarrow> holder w' = get_str (cm_locks cm)"
    and "api_update env cm w = (Inl e, w') \<Longrightarrow>
       holder w' = holder w \<or> \<not> is_conflict e \<and> holder w' = get_str (cm_locks cm)"
  using assms by (auto simp: cm_env_ok_def cm_update_ok_def dest!: spec[of _ cm] spec[of _ w])

lemma getOrCreate_attempt_holder:
  assumes ok: "cm_env_ok env holder" and a: "getOrCreate_attempt env st = (r, st')"
  shows "holder (fst st') = holder (fst st) \<and>
    (r = None \<longrightarrow> (\<exists>cm. snd st' = Some cm \<and> get_str (cm_locks cm) = holder (fst st)))"
proof -
  obtain c w1 where c: "api_get env (fst st) = (c, w1)" by fastforce
  let ?new = "\<lparr>cm_data = Some [], cm_version = 0\<rparr>"
  obtain d w2 where d: "api_create env ?new w1 = (d, w2)" by fastforce
  have new: "cm_locks ?new = []" by (simp add: cm_locks_def)
  show ?thesis
  proof (cases c)
    case (Inl e)
    with c have w1: "holder w1 = holder (fst st)" by (simp add: cm_get_facts(2)[OF ok])
    show ?thesis
      using a c d Inl w1 cm_create_facts[OF ok new, of w1 _ w2]
      by (cases d) (auto simp: getOrCreate_attempt_def split: if_splits)
  next
    case (Inr cm)
    with a c cm_get_facts(1)[OF ok, of "fst st" cm w1] show ?thesis
      by (auto simp: getOrCreate_attempt_def)
  qed
qed

lemma getOrCreateConfigMap_holder:
  assumes ok: "cm_env_ok env holder" and g: "getOrCreateConfigMap env w = (r, w')"
  shows "holder w' = holder w" and "r = Inr cm \<Longrightarrow> get_str (cm_locks cm) = holder w"
proof -
  obtain n where n: "retry_exists env = retry_upto n is_already_exists"
    using ok by (auto simp: cm_env_ok_def retry_ok_def)
  have "case retry_upto n is_already_exists (getOrCreate_attempt env) (w, None) of
      (None, st) \<Rightarrow> holder (fst st) = holder w \<and>
          (\<exists>cm. snd st = Some cm \<and> get_str (cm_locks cm) = holder w)
    | (Some e, st) \<Rightarrow> holder (fst st) = holder w"
    by (rule retry_upto_post[where I = "\<lambda>st. holder (fst st) = holder w"])
      (use getOrCreate_attempt_holder[OF ok] in \<open>fastforce+\<close>)
  with g show "holder w' = holder w" and "r = Inr cm \<Longrightarrow> get_str (cm_locks cm) = holder w"
    by (auto simp: getOrCreateConfigMap_def n split: prod.splits option.splits)
qed

lemma cm_locks_upd [simp]: "cm_locks (cm\<lparr>cm_data := Some d\<rparr>) = d"
  by (simp add: cm_locks_def)

lemma cm_Lock_attempt_holder:
  assumes ok: "cm_env_ok env holder" and a: "cm_Lock_attempt env g j w = (r, w')"
  shows "r = None \<Longrightarrow> holder w g \<in> {[], j} \<and> holder w' = (holder w)(g := j)"
    and "r = Some e \<Longrightarrow> holder w' = holder w \<or>
       \<not> is_conflict e \<and> holder w g \<in> {[], j} \<and> holder w' = (holder w)(g := j)"
proof -
  obtain c w1 where c: "getOrCreateConfigMap env w = (c, w1)" by fastforce
  note h = getOrCreateConfigMap_holder[OF ok c]
  have upd: "get_str (AList.update g j (cm_locks cm)) = (holder w)(g := j)" if "c = Inr cm" for cm
    using h(2)[OF that] by (auto simp: fun_eq_iff)
  show "r = None \<Longrightarrow> holder w g \<in> {[], j} \<and> holder w' = (holder w)(g := j)"
    using a c h upd cm_update_facts(1)[OF ok, of _ w1]
    by (auto simp: cm_Lock_attempt_def Let_def cm_locks_def[symmetric] split: sum.splits prod.splits if_splits)
  show "r = Some e \<Longrightarrow> holder w' = holder w \<or>
       \<not> is_conflict e \<and> holder w g \<in> {[], j} \<and> holder w' = (holder w)(g := j)"
    using a c h upd cm_update_facts(2)[OF ok, of _ w1]
    by (fastforce simp: cm_Lock_attempt_def Let_def cm_locks_def[symmetric] split: sum.splits prod.splits if_splits)
qed

lemma cm_Unlock_attempt_holder:
  assumes ok: "cm_env_ok env holder" and a: "cm_Unlock_attempt env g j w = (r, w')"
  shows "case r of
      None \<Rightarrow> holder w g \<in> {[], j} \<and> holder w' = (holder w)(g := [])
    | Some e \<Rightarrow> holder w' = holder w \<or>
        \<not> is_conflict e \<and> holder w g = j \<and> holder w' = (holder w)(g := [])"
proof -
  obtain c w1 where c: "api_get env w = (c, w1)" by fastforce
  show ?thesis
  proof (cases c)
    case (Inl e)
    with c a cm_get_facts(2,3)[OF ok, of w] show ?thesis
      by (auto simp: cm_Unlock_attempt_def fun_eq_iff split: if_splits)
  next
    case (Inr cm)
    with c cm_get_facts(1)[OF ok, of w cm w1]
    have h: "holder w = get_str (cm_locks cm)" "holder w1 = holder w" by auto
    show ?thesis
    proof (cases "cm_data cm")
      case None
      with Inr c a h show ?thesis by (auto simp: cm_Unlock_attempt_def cm_locks_def fun_eq_iff)
    next
      case (Some d)
      let ?cm = "cm\<lparr>cm_data := Some (AList.delete g d)\<rparr>"
      obtain u w2 where u: "api_update env ?cm w1 = (u, w2)" by fastforce
      have del: "get_str (AList.delete g d) = (holder w)(g := [])"
        using h Some by (auto simp: cm_locks_def fun_eq_iff)
      have cur: "get_str d g = holder w g" using h Some by (simp add: cm_locks_def)
      have same: "holder w g = [] \<Longrightarrow> holder w = (holder w)(g := [])" by (simp add: fun_eq_iff)
      show ?thesis
        using Some Inr c a u h del cur same cm_update_facts[OF ok, of ?cm w1 _ w2]
        by (auto simp: cm_Unlock_attempt_def Let_def split: if_splits sum.splits)
    qed
  qed
qed

lemma cm_GetLock_holder:
  assumes ok: "cm_env_ok env holder" and a: "cm_GetLock env g w = (r, w')"
  shows "holder w' = holder w \<and> (\<forall>j. r = Inr j \<longrightarrow> j = holder w g)"
proof -
  obtain c w1 where c: "api_get env w = (c, w1)" by fastforce
  show ?thesis
  proof (cases c)
    case (Inl e)
    with c have "holder w1 = holder w" by (simp add: cm_get_facts(2)[OF ok])
    with Inl c a cm_get_facts(3)[OF ok, of w w1] show ?thesis
      by (auto simp: cm_GetLock_def split: if_splits)
  next
    case (Inr cm)
    with c a cm_get_facts(1)[OF ok, of w cm w1] show ?thesis
      by (auto simp: cm_GetLock_def cm_locks_def fun_eq_iff split: option.splits)
  qed
qed

lemma ConfigMap_lock_store:
  assumes ok: "cm_env_ok env holder"
  shows "lock_store (ConfigMapLockStore env) holder"
proof -
  obtain n where n: "retry_conflict env = retry_upto n is_conflict"
    using ok by (auto simp: cm_env_ok_def retry_ok_def)
  have lock: "case cm_Lock env g j w of
      (None, w') \<Rightarrow> holder w g \<in> {[], j} \<and> holder w' = (holder w)(g := j)
    | (Some e, w') \<Rightarrow> holder w' = holder w \<or>
        holder w g \<in> {[], j} \<and> holder w' = (holder w)(g := j)" for g j w
    unfolding cm_Lock_def n
    by (rule retry_upto_post[where I = "\<lambda>v. holder v = holder w"])
      (use cm_Lock_attempt_holder[OF ok] in fastforce)+
  have unlock: "case cm_Unlock env g j w of
      (None, w') \<Rightarrow> holder w g \<in> {[], j} \<and> holder w' = (holder w)(g := [])
    | (Some e, w') \<Rightarrow> holder w' = holder w \<or>
        holder w g = j \<and> holder w' = (holder w)(g := [])" for g j w
    unfolding cm_Unlock_def n
    by (rule retry_upto_post[where I = "\<lambda>v. holder v = holder w"])
      (use cm_Unlock_attempt_holder[OF ok] in fastforce)+
  show ?thesis
  proof unfold_locales
    fix g s j s' assume "ls_GetLock (ConfigMapLockStore env) g s = (Inr j, s')"
    then show "j = holder s g \<and> holder s' = holder s"
      by (auto simp: ConfigMapLockStore_def dest!: cm_GetLock_holder[OF ok])
  next
    fix g s e s' assume "ls_GetLock (ConfigMapLockStore env) g s = (Inl e, s')"
    then show "holder s' = holder s"
      by (auto simp: ConfigMapLockStore_def dest!: cm_GetLock_holder[OF ok])
  next
    fix g j s s' assume "ls_Lock (ConfigMapLockStore env) g j s = (None, s')"
    with lock[where g = g and j = j and w = s] show "holder s g \<in> {[], j} \<and> holder s' = (holder s)(g := j)"
      by (simp add: ConfigMapLockStore_def)
  next
    fix g j s e s' assume "ls_Lock (ConfigMapLockStore env) g j s = (Some e, s')"
    with lock[where g = g and j = j and w = s]
    show "holder s' = holder s \<or> holder s g \<in> {[], j} \<and> holder s' = (holder s)(g := j)"
      by (simp add: ConfigMapLockStore_def)
  next
    fix g j s s' assume "ls_Unlock (ConfigMapLockStore env) g j s = (None, s')"
    with unlock[where g = g and j = j and w = s] show "holder s g \<in> {[], j} \<and> holder s' = (holder s)(g := [])"
      by (simp add: ConfigMapLockStore_def)
  next
    fix g j s e s' assume "ls_Unlock (ConfigMapLockStore env) g j s = (Some e, s')"
    with unlock[where g = g and j = j and w = s]
    show "holder s' = holder s \<or> holder s g = j \<and> holder s' = (holder s)(g := [])"
      by (simp add: ConfigMapLockStore_def)
  qed
qed

text \<open>
  An API server that satisfies the assumptions: it stores one object, counts versions, and
  the number \<open>n\<close> of times another client touches the object before an update arrives.
\<close>

type_synonym srv = "configmap option \<times> nat"

definition srv_holder :: "srv \<Rightarrow> string \<Rightarrow> string" where
  "srv_holder w = (case fst w of None \<Rightarrow> (\<lambda>_. []) | Some cm \<Rightarrow> get_str (cm_locks cm))"

definition srv_env :: "srv cm_env" where
  "srv_env = \<lparr>
     api_get = (\<lambda>w. case fst w of None \<Rightarrow> (Inl (ApiError ReasonNotFound), w) | Some cm \<Rightarrow> (Inr cm, w)),
     api_create = (\<lambda>cm w. case fst w of
         None \<Rightarrow> (Inr (cm\<lparr>cm_version := 1\<rparr>), (Some (cm\<lparr>cm_version := 1\<rparr>), snd w))
       | Some _ \<Rightarrow> (Inl (ApiError ReasonAlreadyExists), w)),
     api_update = (\<lambda>cm w. case fst w of
         None \<Rightarrow> (Inl (ApiError ReasonNotFound), w)
       | Some c \<Rightarrow>
           if snd w > 0 \<or> cm_version c \<noteq> cm_version cm
           then (Inl (ApiError ReasonConflict), (Some (c\<lparr>cm_version := Suc (cm_version c)\<rparr>), snd w - 1))
           else (Inr cm, (Some (cm\<lparr>cm_version := Suc (cm_version cm)\<rparr>), 0))),
     retry_conflict = retry_upto 3 is_conflict,
     retry_exists = retry_upto 4 is_already_exists\<rparr>"

lemma cm_locks_version [simp]: "cm_locks (cm\<lparr>cm_version := v\<rparr>) = cm_locks cm"
  by (simp add: cm_locks_def)

lemma srv_env_ok: "cm_env_ok srv_env srv_holder"
  by (auto simp: cm_env_ok_def retry_ok_def cm_get_ok_def cm_create_ok_def cm_update_ok_def
        srv_env_def srv_holder_def fun_eq_iff split: option.splits)



text \<open>
  a job that does not hold the in-memory lock can neither take it from its holder nor
  release it: both calls fail, with the sentinel errors the server tests for, and leave the
  store unchanged.\<close>

theorem mem_lock_store_protects_holder:
  assumes "get_str s g = k" and "k \<noteq> []" and "k \<noteq> j"
  shows "mem_Lock g j s = (Some (Sentinel ErrAlreadyLocked), s) \<and>
         mem_Unlock g j s = (Some (Sentinel ErrNotLockHolder), s)"
  using assms by (simp add: mem_lock_defs)

theorem mem_lock_store_protects_holder_witness:
  "mem_Lock ''g'' ''b'' [(''g'', ''a'')] = (Some (Sentinel ErrAlreadyLocked), [(''g'', ''a'')]) \<and>
   mem_Unlock ''g'' ''b'' [(''g'', ''a'')] = (Some (Sentinel ErrNotLockHolder), [(''g'', ''a'')])"
  by (rule mem_lock_store_protects_holder[where k = "''a''"]) (simp_all add: get_str_def)

end
