(* ===== verification/Api.thy ===== *)
theory Api
  imports Prelude
begin

text \<open>
  The message types of the two gRPC APIs that carry program logic
  (\<^verbatim>\<open>pkg/snapshot-agent/api/v1alpha1\<close>, \<^verbatim>\<open>pkg/timeslice-orchestrator/api/v1alpha1\<close>),
  as the generated Go code exposes them. Protobuf enums are open: where the code has a
  \<^verbatim>\<open>default\<close> branch for unknown numbers, the datatype has a constructor for them; the
  enums that are converted or validated by number (\<^verbatim>\<open>App\<close>, \<^verbatim>\<open>SuspendMode\<close>)
  are kept as numbers with their table of known names. A message pointer that may be nil is
  an option.
\<close>

subsection \<open>States\<close>

text \<open>State of a job's context as the agent reports it.\<close>

datatype JobState =
    JOB_STATE_UNSPECIFIED
  | JOB_STATE_IDLE
  | JOB_STATE_RUNNING
  | JOB_STATE_TRANSITIONING
  | JOB_STATE_SAVED
  | JOB_STATE_FAULTED
  | JOB_STATE_UNKNOWN int

datatype OperationStatus =
    OPERATION_STATUS_UNSPECIFIED
  | OPERATION_STATUS_PENDING
  | OPERATION_STATUS_COMPLETE
  | OPERATION_STATUS_FAILED
  | OPERATION_STATUS_UNKNOWN int

text \<open>The orchestrator's own copy of that state.\<close>

datatype ContextState =
    STATE_UNSPECIFIED
  | STATE_IDLE
  | STATE_RUNNING
  | STATE_TRANSITIONING
  | STATE_SAVED
  | STATE_FAULTED

datatype GroupState =
    GROUP_STATE_UNSPECIFIED
  | GROUP_STATE_UNKNOWN
  | GROUP_STATE_IDLE
  | GROUP_STATE_IDLE_YIELDED
  | GROUP_STATE_LOCKED
  | GROUP_STATE_SWITCHING

text \<open>
  \<^verbatim>\<open>ContextState()[node]\<close>: a missing map entry reads as the zero value,
  \<^verbatim>\<open>STATE_UNSPECIFIED\<close>.
\<close>

definition ctx_at :: "(string \<times> ContextState) list \<Rightarrow> string \<Rightarrow> ContextState" where
  "ctx_at cs node = (case map_of cs node of None \<Rightarrow> STATE_UNSPECIFIED | Some st \<Rightarrow> st)"

lemma ctx_at_update [amap, simp]:
  "ctx_at (AList.update n st cs) m = (if m = n then st else ctx_at cs m)"
  by (simp add: ctx_at_def)

lemma ctx_at_Nil [amap, simp]: "ctx_at [] n = STATE_UNSPECIFIED"
  by (simp add: ctx_at_def)

subsection \<open>Enums by number\<close>

definition APP_UNSPECIFIED :: int where "APP_UNSPECIFIED = 0"
definition APP_VLLM :: int where "APP_VLLM = 1"
definition APP_SGLANG :: int where "APP_SGLANG = 2"

definition App_name :: "int \<Rightarrow> string option" where
  "App_name = map_of [(0, ''APP_UNSPECIFIED''), (1, ''APP_VLLM''), (2, ''APP_SGLANG'')]"

definition SUSPEND_MODE_UNSPECIFIED :: int where "SUSPEND_MODE_UNSPECIFIED = 0"
definition SUSPEND_MODE_OFFLOAD :: int where "SUSPEND_MODE_OFFLOAD = 1"
definition SUSPEND_MODE_DISCARD :: int where "SUSPEND_MODE_DISCARD = 2"

definition SuspendMode_name :: "int \<Rightarrow> string option" where
  "SuspendMode_name =
     map_of [(0, ''SUSPEND_MODE_UNSPECIFIED''), (1, ''SUSPEND_MODE_OFFLOAD''),
             (2, ''SUSPEND_MODE_DISCARD'')]"

lemmas enum_defs =
  APP_UNSPECIFIED_def APP_VLLM_def APP_SGLANG_def App_name_def
  SUSPEND_MODE_UNSPECIFIED_def SUSPEND_MODE_OFFLOAD_def SUSPEND_MODE_DISCARD_def
  SuspendMode_name_def

subsection \<open>Backend configurations of the snapshot agent\<close>

text \<open>
  \<^verbatim>\<open>ProcessTarget\<close> is a list of 32-bit process numbers; \<^verbatim>\<open>explicit_target\<close> may
  be absent.
\<close>

type_synonym process_target = "int list"

record AppEndpointConfig =
  ae_app :: int
  ae_endpoints :: "string list"
  ae_mode :: int
  ae_tags :: "string list"

record AppChannelConfig =
  ac_mode :: int
  ac_tags :: "string list"

record MemoryRegion =
  mr_pid :: int
  mr_address :: nat
  mr_size_bytes :: nat

record MemoryRegionsBackendConfig =
  mr_regions :: "MemoryRegion list"
  mr_snapshot_name :: string

text \<open>The oneof of \<^verbatim>\<open>BackendConfig\<close>; \<open>NoBackend\<close> when none is set.\<close>

datatype BackendConfig =
    NoBackend
  | Cuda "process_target option"
  | AppEndpoint AppEndpointConfig
  | AppChannel AppChannelConfig
  | DirectMemory "process_target option"
  | MemoryRegions MemoryRegionsBackendConfig
  | Tpu "process_target option"

subsection \<open>Backend configurations a client may send to the orchestrator\<close>

record AppEndpointBackend =
  jae_app :: int
  jae_endpoints :: "string list"
  jae_mode :: int
  jae_tags :: "string list"

record AppChannelBackend =
  jac_mode :: int
  jac_tags :: "string list"

datatype JobBackendConfig =
    JobNoBackend
  | JobCuda
  | JobTpu
  | JobAppEndpoint AppEndpointBackend
  | JobAppChannel AppChannelBackend

subsection \<open>Messages\<close>

record JobStatus =
  js_job_id :: string
  js_state :: JobState

record GetOperationResponse =
  gor_status :: OperationStatus
  gor_storage_bytes :: "int option"
  gor_snapshot_device_bytes :: "int option"
  gor_elapsed_ms :: int
  gor_error :: "string option"

end
