(* ===== verification/Group.thy ===== *)
theory Group
  imports Waiting_Job_Queue Lock_Store Api
begin

text \<open>
  A time-slice group (\<^verbatim>\<open>pkg/timeslice-orchestrator/store/group.go\<close>): the desired state
  (\<^verbatim>\<open>GroupSpec\<close>: who should hold the lock, whose context should be loaded, who waits)
  and the observed state (\<^verbatim>\<open>GroupStatus\<close>). Every exported method runs under the
  mutex of the half it touches, so it is one atomic step here. The lock store is a parameter
  \<open>ls\<close>, \<open>None\<close> when the group was built without one; its state is threaded
  through the operations that call it.
\<close>

record group_spec =
  lockingJob :: string
  queue :: waiting_job_queue
  activeJob :: string

record group_status =
  nodes :: "string list"
  gstate :: GroupState
  stateTimestamp :: int
  loadedJob :: string

record group =
  gid :: string
  spec :: group_spec
  status :: group_status

subsection \<open>GroupStatus\<close>

definition SetNodes :: "string list \<Rightarrow> group_status \<Rightarrow> group_status" where
  "SetNodes ns st = st\<lparr>nodes := ns\<rparr>"

definition SetState :: "int \<Rightarrow> GroupState \<Rightarrow> group_status \<Rightarrow> group_status" where
  "SetState now s st = (if gstate st = s then st else st\<lparr>gstate := s, stateTimestamp := now\<rparr>)"

definition SetLoadedJob :: "string \<Rightarrow> group_status \<Rightarrow> group_status" where
  "SetLoadedJob jobID st = st\<lparr>loadedJob := jobID\<rparr>"

subsection \<open>Creation\<close>

definition NewGroup ::
  "'s lock_ops option \<Rightarrow> int \<Rightarrow> string \<Rightarrow> 's \<Rightarrow> (go_error + group) \<times> 's" where
  "NewGroup ls now groupID s =
     (let g = \<lparr>gid = groupID,
               spec = \<lparr>lockingJob = [], queue = NewWaitingJobQueue, activeJob = []\<rparr>,
               status = \<lparr>nodes = [], gstate = GROUP_STATE_UNSPECIFIED, stateTimestamp = now,
                         loadedJob = []\<rparr>\<rparr>
      in case ls of
           None \<Rightarrow> (Inr g, s)
         | Some ops \<Rightarrow>
             (case ls_GetLock ops groupID s of
                (Inl err, s') \<Rightarrow> (Inl (Wrap (errorf [''failed to get lock status for group '', groupID]) err), s')
              | (Inr holder, s') \<Rightarrow>
                  (Inr (g\<lparr>spec := (spec g)\<lparr>lockingJob := holder, activeJob := holder\<rparr>\<rparr>), s')))"

subsection \<open>GroupSpec\<close>

definition spec_lock ::
  "'s lock_ops option \<Rightarrow> string \<Rightarrow> string \<Rightarrow> group_spec \<Rightarrow> 's \<Rightarrow> go_error option \<times> group_spec \<times> 's" where
  "spec_lock ls groupID jobID sp s =
     (case ls of
        None \<Rightarrow> (None, sp\<lparr>lockingJob := jobID, activeJob := jobID\<rparr>, s)
      | Some ops \<Rightarrow>
          (case ls_Lock ops groupID jobID s of
             (Some err, s') \<Rightarrow> (Some err, sp, s')
           | (None, s') \<Rightarrow> (None, sp\<lparr>lockingJob := jobID, activeJob := jobID\<rparr>, s')))"

text \<open>
  \<open>unlock\<close> leaves the active job in place: the context stays on the machines until
  another job wants the group.
\<close>

definition spec_unlock ::
  "'s lock_ops option \<Rightarrow> string \<Rightarrow> string \<Rightarrow> group_spec \<Rightarrow> 's \<Rightarrow> go_error option \<times> group_spec \<times> 's" where
  "spec_unlock ls groupID jobID sp s =
     (case ls of
        None \<Rightarrow> (None, sp\<lparr>lockingJob := []\<rparr>, s)
      | Some ops \<Rightarrow>
          (case ls_Unlock ops groupID jobID s of
             (Some err, s') \<Rightarrow> (Some err, sp, s')
           | (None, s') \<Rightarrow> (None, sp\<lparr>lockingJob := []\<rparr>, s')))"

definition spec_Delete ::
  "'s lock_ops option \<Rightarrow> string \<Rightarrow> group_spec \<Rightarrow> 's \<Rightarrow> go_error option \<times> group_spec \<times> 's" where
  "spec_Delete ls groupID sp s =
     (if lockingJob sp = [] then (None, sp, s) else spec_unlock ls groupID (lockingJob sp) sp s)"

definition TryPromote ::
  "'s lock_ops option \<Rightarrow> string \<Rightarrow> group_spec \<Rightarrow> 's \<Rightarrow> (go_error + bool) \<times> group_spec \<times> 's" where
  "TryPromote ls groupID sp s =
     (if lockingJob sp \<noteq> [] then (Inr False, sp, s)
      else
        (case Peek (queue sp) of
           (nextJobID, ok) \<Rightarrow>
             if \<not> ok then (Inr False, sp, s)
             else
               (case spec_lock ls groupID nextJobID sp s of
                  (Some err, sp', s') \<Rightarrow>
                    (Inl (Wrap (errorf [''failed to lock promoted job '', nextJobID]) err), sp', s')
                | (None, sp', s') \<Rightarrow>
                    (Inr True, sp'\<lparr>queue := snd (Dequeue (queue sp'))\<rparr>, s'))))"

definition spec_Yield ::
  "'s lock_ops option \<Rightarrow> string \<Rightarrow> string \<Rightarrow> group_spec \<Rightarrow> 's \<Rightarrow> go_error option \<times> group_spec \<times> 's" where
  "spec_Yield ls groupID jobID sp s = spec_unlock ls groupID jobID sp s"

definition RequestLock :: "int \<Rightarrow> string \<Rightarrow> group_spec \<Rightarrow> group_spec" where
  "RequestLock now jobID sp =
     (if lockingJob sp = jobID then sp
      else sp\<lparr>queue := snd (Enqueue now jobID (queue sp))\<rparr>)"

definition SetActiveJob :: "string \<Rightarrow> group_spec \<Rightarrow> group_spec" where
  "SetActiveJob jobID sp = sp\<lparr>activeJob := jobID\<rparr>"

subsection \<open>Snapshot\<close>

record group_snapshot =
  snap_ID :: string
  snap_Nodes :: "string list"
  snap_State :: GroupState
  snap_StateTimestamp :: int
  snap_LockingJob :: string
  snap_ActiveJob :: string
  snap_WaiterQueueDepth :: nat
  snap_LoadedJob :: string

definition Snapshot :: "group \<Rightarrow> group_snapshot" where
  "Snapshot g =
     \<lparr>snap_ID = gid g, snap_Nodes = nodes (status g), snap_State = gstate (status g),
      snap_StateTimestamp = stateTimestamp (status g), snap_LockingJob = lockingJob (spec g),
      snap_ActiveJob = activeJob (spec g), snap_WaiterQueueDepth = Len (queue (spec g)),
      snap_LoadedJob = loadedJob (status g)\<rparr>"

definition group_Delete ::
  "'s lock_ops option \<Rightarrow> group \<Rightarrow> 's \<Rightarrow> go_error option \<times> group \<times> 's" where
  "group_Delete ls g s =
     (case spec_Delete ls (gid g) (spec g) s of (r, sp, s') \<Rightarrow> (r, g\<lparr>spec := sp\<rparr>, s'))"

lemmas spec_defs = spec_lock_def spec_unlock_def spec_Delete_def TryPromote_def spec_Yield_def
  RequestLock_def SetActiveJob_def

subsection \<open>Invariant of the spec\<close>

text \<open>
  The queue is well formed, the lock holder is not also waiting, and a locked group's
  active job is its lock holder.
\<close>

definition spec_inv :: "group_spec \<Rightarrow> bool" where
  "spec_inv sp \<longleftrightarrow>
     queue_inv (queue sp) \<and>
     (lockingJob sp \<noteq> [] \<longrightarrow> lockingJob sp \<notin> set (waiting (queue sp)) \<and> activeJob sp = lockingJob sp)"

lemma spec_lock_cases:
  assumes "spec_lock ls groupID j sp s = (r, sp', s')"
  obtains "r = None" "sp' = sp\<lparr>lockingJob := j, activeJob := j\<rparr>"
    | e where "r = Some e" "sp' = sp"
  using assms by (auto simp: spec_lock_def split: option.splits prod.splits)

lemma spec_unlock_cases:
  assumes "spec_unlock ls groupID j sp s = (r, sp', s')"
  obtains "r = None" "sp' = sp\<lparr>lockingJob := []\<rparr>"
    | e where "r = Some e" "sp' = sp"
  using assms by (auto simp: spec_unlock_def split: option.splits prod.splits)

lemma spec_unlock_inv: "spec_inv sp \<Longrightarrow> spec_unlock ls groupID j sp s = (r, sp', s') \<Longrightarrow> spec_inv sp'"
  by (erule spec_unlock_cases) (simp_all add: spec_inv_def)

lemma TryPromote_cases:
  assumes "TryPromote ls groupID sp s = (r, sp', s')"
  obtains "r = Inr False" "sp' = sp" "s' = s" "lockingJob sp \<noteq> [] \<or> waiting (queue sp) = []"
    | e where "r = Inl e" "sp' = sp" "lockingJob sp = []"
    | j js where "r = Inr True" "lockingJob sp = []" "waiting (queue sp) = j # js"
        "spec_lock ls groupID j sp s = (None, sp\<lparr>lockingJob := j, activeJob := j\<rparr>, s')"
        "sp' = sp\<lparr>lockingJob := j, activeJob := j, queue := snd (Dequeue (queue sp))\<rparr>"
proof (cases "lockingJob sp = [] \<and> waiting (queue sp) \<noteq> []")
  case False
  with assms that(1) show ?thesis
    by (auto simp: TryPromote_def Peek_waiting split: if_splits)
next
  case True
  then obtain j js where w: "waiting (queue sp) = j # js" by (auto simp: neq_Nil_conv)
  obtain r1 sp1 s1 where l: "spec_lock ls groupID j sp s = (r1, sp1, s1)" by (metis prod.exhaust)
  from l show ?thesis
  proof (cases rule: spec_lock_cases)
    case 1
    with assms True w l that(3) show ?thesis by (auto simp: TryPromote_def Peek_waiting)
  next
    case (2 e)
    with assms True w l that(2) show ?thesis by (auto simp: TryPromote_def Peek_waiting)
  qed
qed

lemma TryPromote_inv:
  assumes inv: "spec_inv sp" and p: "TryPromote ls groupID sp s = (r, sp', s')"
  shows "spec_inv sp'"
  using p
proof (cases rule: TryPromote_cases)
  case (3 j js)
  have q: "queue_inv (queue sp)" using inv by (simp add: spec_inv_def)
  have "j \<notin> set (waiting (snd (Dequeue (queue sp))))"
    using wjq.dequeue_removes[OF q] 3(3) by (simp add: Peek_waiting)
  with 3 wjq.inv_dequeue[OF q] show ?thesis by (simp add: spec_inv_def)
qed (use inv in simp_all)

lemma RequestLock_inv: "spec_inv sp \<Longrightarrow> spec_inv (RequestLock now j sp)"
  by (auto simp: spec_inv_def RequestLock_def queue_inv_Enqueue waiting_Enqueue)

lemma spec_Delete_inv: "spec_inv sp \<Longrightarrow> spec_Delete ls groupID sp s = (r, sp', s') \<Longrightarrow> spec_inv sp'"
  by (auto simp: spec_Delete_def split: if_splits dest: spec_unlock_inv)

lemma SetActiveJob_inv: "spec_inv sp \<Longrightarrow> lockingJob sp = [] \<Longrightarrow> spec_inv (SetActiveJob j sp)"
  by (simp add: spec_inv_def SetActiveJob_def)

lemma NewGroup_inv: "NewGroup ls now groupID s = (Inr g, s') \<Longrightarrow> spec_inv (spec g) \<and> gid g = groupID"
  by (auto simp: NewGroup_def Let_def spec_inv_def wjq.inv_empty wjq.abs_empty
        split: option.splits sum.splits prod.splits)

subsection \<open>The group against a lock store\<close>

context lock_store
begin

lemma spec_lock_holder:
  assumes "spec_lock (Some ops) g j sp s = (r, sp', s')"
  shows "case r of None \<Rightarrow> holder s g \<in> {[], j} \<and> holder s' = (holder s)(g := j)
    | Some e \<Rightarrow> holder s' = holder s \<or> holder s g \<in> {[], j} \<and> holder s' = (holder s)(g := j)"
  using assms lock_ok[of g j s s'] lock_err[of g j s _ s']
  by (auto simp: spec_lock_def split: option.splits prod.splits)

lemma spec_unlock_holder:
  assumes "spec_unlock (Some ops) g j sp s = (r, sp', s')"
  shows "case r of None \<Rightarrow> holder s g \<in> {[], j} \<and> holder s' = (holder s)(g := [])
    | Some e \<Rightarrow> holder s' = holder s \<or> holder s g = j \<and> holder s' = (holder s)(g := [])"
  using assms unlock_ok[of g j s s'] unlock_err[of g j s _ s']
  by (auto simp: spec_unlock_def split: option.splits prod.splits)

text \<open>
  A job whose lock is recorded both in memory and in the store keeps it through every call
  that another job, or the promotion, makes on the group.
\<close>

definition holds :: "string \<Rightarrow> string \<Rightarrow> group_spec \<Rightarrow> 's \<Rightarrow> bool" where
  "holds g j sp s \<longleftrightarrow> j \<noteq> [] \<and> lockingJob sp = j \<and> holder s g = j"

lemma holds_Yield_other:
  assumes "holds g j sp s" and "k \<noteq> j" and "spec_Yield (Some ops) g k sp s = (r, sp', s')"
  shows "holds g j sp' s'" and "r \<noteq> None"
proof -
  have u: "spec_unlock (Some ops) g k sp s = (r, sp', s')"
    using assms(3) by (simp add: spec_Yield_def)
  have "r \<noteq> None \<and> holder s' = holder s"
    using assms(1,2) spec_unlock_holder[OF u] by (cases r) (auto simp: holds_def)
  with u assms(1) show "holds g j sp' s'" and "r \<noteq> None"
    by (auto simp: holds_def elim: spec_unlock_cases)
qed

lemma holds_TryPromote:
  assumes "holds g j sp s" and "TryPromote (Some ops) g sp s = (r, sp', s')"
  shows "holds g j sp' s'" and "r = Inr False"
  using assms by (auto simp: TryPromote_def holds_def)

lemma holds_RequestLock: "holds g j sp s \<Longrightarrow> holds g j (RequestLock now k sp) s"
  by (simp add: holds_def RequestLock_def)

lemma TryPromote_grants:
  assumes "TryPromote (Some ops) g sp s = (Inr True, sp', s')" and "waiting (queue sp) \<noteq> []"
    and "hd (waiting (queue sp)) \<noteq> []"
  shows "holds g (hd (waiting (queue sp))) sp' s'"
  using assms(1)
proof (cases rule: TryPromote_cases)
  case (3 j js)
  with spec_lock_holder[of g j sp s] assms show ?thesis by (fastforce simp: holds_def)
qed simp_all

end

text \<open>
  The group under the operations its clients call: the server's \<^verbatim>\<open>RequestLock\<close> and
  \<^verbatim>\<open>Yield\<close>, the controller's \<^verbatim>\<open>TryPromote\<close>, and \<^verbatim>\<open>SetActiveJob\<close>,
  which the controller calls only on a group without lock and active job.
\<close>

inductive spec_step :: "'s lock_ops option \<Rightarrow> string \<Rightarrow> group_spec \<times> 's \<Rightarrow> group_spec \<times> 's \<Rightarrow> bool"
  for ls groupID where
  request: "spec_step ls groupID (sp, s) (RequestLock now j sp, s)"
| yield: "spec_Yield ls groupID j sp s = (r, sp', s') \<Longrightarrow> spec_step ls groupID (sp, s) (sp', s')"
| promote: "TryPromote ls groupID sp s = (r, sp', s') \<Longrightarrow> spec_step ls groupID (sp, s) (sp', s')"
| deduce: "lockingJob sp = [] \<Longrightarrow> activeJob sp = [] \<Longrightarrow>
     spec_step ls groupID (sp, s) (SetActiveJob j sp, s)"
| delete: "spec_Delete ls groupID sp s = (r, sp', s') \<Longrightarrow> spec_step ls groupID (sp, s) (sp', s')"

inductive_cases spec_stepE: "spec_step ls groupID (sp, s) (sp', s')"

inductive spec_reach :: "'s lock_ops option \<Rightarrow> string \<Rightarrow> group_spec \<times> 's \<Rightarrow> bool"
  for ls groupID where
  created: "NewGroup ls now groupID s = (Inr g, s') \<Longrightarrow> spec_reach ls groupID (spec g, s')"
| step: "spec_reach ls groupID x \<Longrightarrow> spec_step ls groupID x y \<Longrightarrow> spec_reach ls groupID y"

lemma spec_step_inv: "spec_step ls groupID x y \<Longrightarrow> spec_inv (fst x) \<Longrightarrow> spec_inv (fst y)"
  by (induction rule: spec_step.induct)
    (auto simp: RequestLock_inv SetActiveJob_inv spec_Yield_def
      dest: TryPromote_inv spec_unlock_inv spec_Delete_inv)

text \<open>
  Whatever sequence of lock requests, yields, promotions, deductions and deletions a group
  goes through after its creation, with whatever lock store, its waiting queue has no
  duplicates, the lock holder is never also waiting, and a locked group's active job is the
  lock holder.\<close>

theorem group_spec_invariant:
  assumes "spec_reach ls groupID (sp, s)"
  shows "distinct (waiting (queue sp)) \<and>
    (lockingJob sp \<noteq> [] \<longrightarrow> lockingJob sp \<notin> set (waiting (queue sp)) \<and> activeJob sp = lockingJob sp)"
proof -
  have "spec_inv (fst x)" if "spec_reach ls groupID x" for x
    using that by (induction rule: spec_reach.induct) (auto simp: NewGroup_inv intro: spec_step_inv)
  from this[OF assms] show ?thesis
    by (auto simp: spec_inv_def dest: wjq.inv_distinct)
qed

theorem group_spec_invariant_witness:
  "\<exists>sp s. spec_reach (Some MemLockStore) ''g'' (sp, s) \<and> lockingJob sp = ''a'' \<and>
     waiting (queue sp) = [''b''] \<and> activeJob sp = lockingJob sp"
proof -
  let ?ls = "Some MemLockStore"
  define g where "g = \<lparr>gid = ''g'', spec = \<lparr>lockingJob = [], queue = NewWaitingJobQueue, activeJob = []\<rparr>,
    status = \<lparr>nodes = [], gstate = GROUP_STATE_UNSPECIFIED, stateTimestamp = 0, loadedJob = []\<rparr>\<rparr>"
  define q where "q = RequestLock 2 ''b'' (RequestLock 1 ''a'' (spec g))"
  define sp where "sp = fst (snd (TryPromote ?ls ''g'' q []))"
  have "NewGroup ?ls 0 ''g'' [] = (Inr g, [])" unfolding g_def by code_simp
  then have "spec_reach ?ls ''g'' (spec g, [])" by (rule spec_reach.created)
  then have "spec_reach ?ls ''g'' (q, [])"
    unfolding q_def by (blast intro: spec_reach.step spec_step.request)
  moreover have "TryPromote ?ls ''g'' q [] = (Inr True, sp, [(''g'', ''a'')])"
    unfolding sp_def q_def g_def by code_simp
  ultimately have r: "spec_reach ?ls ''g'' (sp, [(''g'', ''a'')])"
    by (blast intro: spec_reach.step spec_step.promote)
  have l: "lockingJob sp = ''a''" "waiting (queue sp) = [''b'']"
    unfolding sp_def q_def g_def by code_simp+
  then have "activeJob sp = lockingJob sp"
    using group_spec_invariant[OF r] by simp
  with r l show ?thesis by blast
qed

subsection \<open>Every waiting job gets its turn\<close>

text \<open>One turn: the lock holder yields, then the controller promotes the next waiter.\<close>

definition turn :: "'s lock_ops option \<Rightarrow> string \<Rightarrow> group_spec \<times> 's \<Rightarrow> group_spec \<times> 's" where
  "turn ls groupID x =
     (case x of (sp, s) \<Rightarrow>
        (case spec_Yield ls groupID (lockingJob sp) sp s of (_, sp', s') \<Rightarrow>
           snd (TryPromote ls groupID sp' s')))"

definition in_step :: "string \<Rightarrow> group_spec \<times> mem_lock_store \<Rightarrow> bool" where
  "in_step groupID x \<longleftrightarrow>
     spec_inv (fst x) \<and> [] \<notin> set (waiting (queue (fst x))) \<and>
     get_str (snd x) groupID = lockingJob (fst x)"

lemma turn_promotes_head:
  assumes "in_step groupID x" and "waiting (queue (fst x)) = j # js"
  shows "in_step groupID (turn (Some MemLockStore) groupID x)"
    and "lockingJob (fst (turn (Some MemLockStore) groupID x)) = j"
    and "waiting (queue (fst (turn (Some MemLockStore) groupID x))) = js"
proof -
  obtain sp s where x: "x = (sp, s)" by (cases x)
  define sp' where "sp' = sp\<lparr>lockingJob := j, activeJob := j, queue := snd (Dequeue (queue sp))\<rparr>"
  have "fst (turn (Some MemLockStore) groupID x) = sp' \<and> get_str (snd (turn (Some MemLockStore) groupID x)) groupID = j"
    using assms by (auto simp: x sp'_def turn_def in_step_def TryPromote_def spec_Yield_def spec_lock_def
        spec_unlock_def Peek_waiting mem_lock_defs)
  moreover have "waiting (queue sp') = js" and "j \<notin> set js" and "queue_inv (queue sp')"
    using assms wjq.inv_distinct[of "queue sp"]
    by (auto simp: x sp'_def in_step_def spec_inv_def waiting_Dequeue queue_inv_Dequeue)
  ultimately show "in_step groupID (turn (Some MemLockStore) groupID x)"
    and "lockingJob (fst (turn (Some MemLockStore) groupID x)) = j"
    and "waiting (queue (fst (turn (Some MemLockStore) groupID x))) = js"
    using assms by (auto simp: x in_step_def spec_inv_def sp'_def)
qed

text \<open>C6: no waiting job starves: in a consistent group on the in-memory lock store, the job at
  position \<open>n\<close> of the waiting queue holds the lock after exactly \<open>n + 1\<close> turns, a turn being
  a yield of the lock holder followed by a promotion.\<close>

theorem waiting_job_gets_its_turn:
  assumes "in_step groupID x" and "n < length (waiting (queue (fst x)))"
  shows "lockingJob (fst ((turn (Some MemLockStore) groupID ^^ Suc n) x)) = waiting (queue (fst x)) ! n"
  using assms
proof (induction n arbitrary: x)
  case 0
  then show ?case
    using turn_promotes_head(2)[of groupID x] by (cases "waiting (queue (fst x))") auto
next
  case (Suc n)
  then obtain j js where w: "waiting (queue (fst x)) = j # js"
    by (cases "waiting (queue (fst x))") auto
  note t = turn_promotes_head[OF Suc.prems(1) w]
  show ?case
    using Suc.IH[OF t(1)] t(3) Suc.prems(2) w by (simp add: funpow_swap1)
qed

theorem waiting_job_gets_its_turn_witness:
  "let q = snd (Enqueue 2 ''c'' (snd (Enqueue 1 ''b'' NewWaitingJobQueue)));
       x = (\<lparr>lockingJob = ''a'', queue = q, activeJob = ''a''\<rparr>, [(''g'', ''a'')])
   in in_step ''g'' x \<and> lockingJob (fst ((turn (Some MemLockStore) ''g'' ^^ Suc 1) x)) = ''c''"
proof -
  let ?q = "snd (Enqueue 2 ''c'' (snd (Enqueue 1 ''b'' NewWaitingJobQueue)))"
  let ?x = "(\<lparr>lockingJob = ''a'', queue = ?q, activeJob = ''a''\<rparr>, [(''g'', ''a'')])"
  have w: "waiting ?q = [''b'', ''c'']" by code_simp
  have "in_step ''g'' ?x"
    using w by (simp add: in_step_def spec_inv_def get_str_def queue_inv_Enqueue wjq.inv_empty)
  then show ?thesis
    using waiting_job_gets_its_turn[of "''g''" ?x 1] w by simp
qed

text \<open>
  a failed promotion can be retried: if the lock store refuses or fails, the group keeps its
  queue, its (empty) lock and its active job, so the same job is promoted by the next attempt;
  and a promotion that succeeds hands the lock to the head of the queue and to nobody else.\<close>

theorem try_promote_outcome:
  assumes "TryPromote ls groupID sp s = (r, sp', s')"
  shows "case r of
      Inl e \<Rightarrow> sp' = sp \<and> lockingJob sp = [] \<and> waiting (queue sp) \<noteq> []
    | Inr False \<Rightarrow> sp' = sp \<and> s' = s \<and> (lockingJob sp \<noteq> [] \<or> waiting (queue sp) = [])
    | Inr True \<Rightarrow> lockingJob sp = [] \<and> waiting (queue sp) = lockingJob sp' # waiting (queue sp') \<and>
        activeJob sp' = lockingJob sp'"
  using assms
  by (cases rule: TryPromote_cases)
    (use assms in \<open>auto simp: waiting_Dequeue TryPromote_def Peek_waiting split: if_splits list.splits\<close>)

theorem try_promote_outcome_witness:
  "let q = snd (Enqueue 1 ''b'' NewWaitingJobQueue);
       sp = \<lparr>lockingJob = [], queue = q, activeJob = ''a''\<rparr>
   in TryPromote (Some MemLockStore) ''g'' sp [(''g'', ''z'')] =
        (Inl (Wrap ''failed to lock promoted job b'' (Sentinel ErrAlreadyLocked)), sp, [(''g'', ''z'')]) \<and>
      lockingJob sp = [] \<and> waiting (queue sp) \<noteq> []"
proof -
  let ?q = "snd (Enqueue 1 ''b'' NewWaitingJobQueue)"
  let ?sp = "\<lparr>lockingJob = [], queue = ?q, activeJob = ''a''\<rparr>"
  have "TryPromote (Some MemLockStore) ''g'' ?sp [(''g'', ''z'')] =
      (Inl (Wrap ''failed to lock promoted job b'' (Sentinel ErrAlreadyLocked)), ?sp, [(''g'', ''z'')])"
    by code_simp
  with try_promote_outcome[OF this] show ?thesis by simp
qed

end
