(* ===== verification/Group_Store.thy ===== *)
theory Group_Store
  imports Group
begin

text \<open>
  The store of groups (\<^verbatim>\<open>store/group_store.go\<close>) and the orchestrator's Prometheus series
  that the program logic writes (\<^verbatim>\<open>metrics/metrics.go\<close>). The store maps a group
  identifier to the group; a group that is looked up is reached and updated through its
  identifier. \<^verbatim>\<open>groupLockStoreWrapper\<close> fixes the group identifier of a lock store: here
  the identifier is passed to the lock store's operations, as the wrapper does.
\<close>

subsection \<open>Metrics\<close>

record metrics =
  QueueDepth :: "(string \<times> nat) list"
  DeferredSnapshotsTotal :: "(string \<times> nat) list"
  AcquireWaitDuration :: "(string \<times> int) list"
  AgentOperationDuration :: "((string \<times> string \<times> string \<times> string) \<times> int) list"

definition CleanupGroup :: "string \<Rightarrow> metrics \<Rightarrow> metrics" where
  "CleanupGroup groupID m = m\<lparr>QueueDepth := AList.delete groupID (QueueDepth m)\<rparr>"

definition counter_inc :: "string \<Rightarrow> (string \<times> nat) list \<Rightarrow> (string \<times> nat) list" where
  "counter_inc k m = (case map_of m k of None \<Rightarrow> AList.update k 1 m | Some n \<Rightarrow> AList.update k (n + 1) m)"

subsection \<open>The store\<close>

type_synonym group_store = "(string \<times> group) list"

definition gs_Get :: "string \<Rightarrow> group_store \<Rightarrow> go_error + group" where
  "gs_Get groupID gs =
     (case map_of gs groupID of None \<Rightarrow> Inl (Sentinel ErrNotFound) | Some g \<Rightarrow> Inr g)"

definition GetOrCreate ::
  "'s lock_ops option \<Rightarrow> int \<Rightarrow> string \<Rightarrow> group_store \<Rightarrow> 's \<Rightarrow>
     (go_error + group \<times> bool) \<times> group_store \<times> 's" where
  "GetOrCreate ls now groupID gs s =
     (case map_of gs groupID of
        Some g \<Rightarrow> (Inr (g, False), gs, s)
      | None \<Rightarrow>
          (case NewGroup ls now groupID s of
             (Inl err, s') \<Rightarrow> (Inl err, gs, s')
           | (Inr g, s') \<Rightarrow> (Inr (g, True), AList.update groupID g gs, s')))"

definition gs_List :: "group_store \<Rightarrow> group list" where
  "gs_List gs = map snd gs"

text \<open>A group whose lock cannot be released stays in the store, with its metrics.\<close>

definition gs_Delete ::
  "'s lock_ops option \<Rightarrow> string \<Rightarrow> group_store \<Rightarrow> metrics \<Rightarrow> 's \<Rightarrow>
     go_error option \<times> group_store \<times> metrics \<times> 's" where
  "gs_Delete ls groupID gs m s =
     (case map_of gs groupID of
        None \<Rightarrow> (None, gs, m, s)
      | Some g \<Rightarrow>
          (case group_Delete ls g s of
             (Some err, g', s') \<Rightarrow> (Some err, AList.update groupID g' gs, m, s')
           | (None, g', s') \<Rightarrow> (None, AList.delete groupID gs, CleanupGroup groupID m, s')))"

text \<open>Updating a group in place.\<close>

definition gs_modify :: "string \<Rightarrow> (group \<Rightarrow> group) \<Rightarrow> group_store \<Rightarrow> group_store" where
  "gs_modify groupID f gs =
     (case map_of gs groupID of None \<Rightarrow> gs | Some g \<Rightarrow> AList.update groupID (f g) gs)"

lemma map_of_gs_modify [simp]:
  "map_of (gs_modify i f gs) k = (if k = i then map_option f (map_of gs i) else map_of gs k)"
  by (simp add: gs_modify_def split: option.splits)

lemma gs_Get_Inr_iff: "gs_Get i gs = Inr g \<longleftrightarrow> map_of gs i = Some g"
  by (simp add: gs_Get_def split: option.splits)

lemma gs_Get_Inl_iff: "gs_Get i gs = Inl e \<longleftrightarrow> map_of gs i = None \<and> e = Sentinel ErrNotFound"
  by (auto simp: gs_Get_def split: option.splits)

subsection \<open>Invariant\<close>

definition gs_inv :: "group_store \<Rightarrow> bool" where
  "gs_inv gs \<longleftrightarrow> amap_ok gs \<and> (\<forall>k g. map_of gs k = Some g \<longrightarrow> gid g = k \<and> spec_inv (spec g))"

lemma gs_invI:
  "amap_ok gs \<Longrightarrow> (\<And>k g. map_of gs k = Some g \<Longrightarrow> gid g = k \<and> spec_inv (spec g)) \<Longrightarrow> gs_inv gs"
  unfolding gs_inv_def by blast

lemma gs_inv_amap_ok: "gs_inv gs \<Longrightarrow> amap_ok gs"
  unfolding gs_inv_def by blast

lemma gs_inv_group: "gs_inv gs \<Longrightarrow> map_of gs k = Some g \<Longrightarrow> gid g = k \<and> spec_inv (spec g)"
  unfolding gs_inv_def by blast

lemma gs_inv_Nil: "gs_inv []"
  by (rule gs_invI) simp_all

lemma gs_inv_update: "gs_inv gs \<Longrightarrow> gid g = k \<Longrightarrow> spec_inv (spec g) \<Longrightarrow> gs_inv (AList.update k g gs)"
  by (rule gs_invI) (auto simp: gs_inv_amap_ok split: if_splits dest: gs_inv_group)

lemma gs_inv_delete: "gs_inv gs \<Longrightarrow> gs_inv (AList.delete k gs)"
  by (rule gs_invI) (auto simp: gs_inv_amap_ok split: if_splits dest: gs_inv_group)

lemma gs_inv_modify:
  assumes "gs_inv gs" and "\<And>g. map_of gs i = Some g \<Longrightarrow> gid (f g) = gid g \<and> spec_inv (spec (f g))"
  shows "gs_inv (gs_modify i f gs)"
proof (cases "map_of gs i")
  case (Some g)
  with assms gs_inv_group[OF assms(1) Some] show ?thesis
    by (simp add: gs_modify_def gs_inv_update)
qed (simp add: gs_modify_def assms(1))

lemma GetOrCreate_inv:
  assumes "gs_inv gs" and "GetOrCreate ls now i gs s = (r, gs', s')"
  shows "gs_inv gs'"
  using assms by (auto simp: GetOrCreate_def gs_inv_update NewGroup_inv split: option.splits sum.splits prod.splits)

lemma group_Delete_inv:
  "spec_inv (spec g) \<Longrightarrow> group_Delete ls g s = (r, g', s') \<Longrightarrow> gid g' = gid g \<and> spec_inv (spec g')"
  by (auto simp: group_Delete_def split: prod.splits dest: spec_Delete_inv)

lemma gs_Delete_inv:
  assumes "gs_inv gs" and "gs_Delete ls i gs m s = (r, gs', m', s')"
  shows "gs_inv gs'"
proof (cases "map_of gs i")
  case (Some g)
  obtain r1 g1 s1 where d: "group_Delete ls g s = (r1, g1, s1)" by (metis prod.exhaust)
  from gs_inv_group[OF assms(1) Some] group_Delete_inv[OF _ d]
  have "gid g1 = i" "spec_inv (spec g1)" by auto
  with assms Some d show ?thesis
    by (auto simp: gs_Delete_def gs_inv_update gs_inv_delete split: option.splits)
qed (use assms in \<open>simp add: gs_Delete_def\<close>)

lemma gs_Delete_found:
  assumes "gs_Delete ls i gs m s = (None, gs', m', s')"
  shows "map_of gs' k = (if k = i then None else map_of gs k)"
  using assms by (auto simp: gs_Delete_def split: option.splits prod.splits)

text \<open>The interface of the group store its clients use, on any group type.\<close>

locale keyed_store =
  fixes get :: "'k \<Rightarrow> 'st \<Rightarrow> 'v option"
    and modify :: "'k \<Rightarrow> ('v \<Rightarrow> 'v) \<Rightarrow> 'st \<Rightarrow> 'st"
  assumes get_modify: "get k (modify i f st) = (if k = i then map_option f (get i st) else get k st)"
begin

lemma modify_keeps_presence: "get k (modify i f st) = None \<longleftrightarrow> get k st = None"
  by (simp add: get_modify)

lemma modify_modify: "get k (modify i f (modify i g st)) = get k (modify i (f \<circ> g) st)"
  by (simp add: get_modify option.map_comp)

lemma modify_other: "k \<noteq> i \<Longrightarrow> get k (modify i f st) = get k st"
  by (simp add: get_modify)

end

interpretation groups_by_id: keyed_store "\<lambda>k gs. map_of gs k" gs_modify
  by unfold_locales simp

text \<open>
  Crash recovery: a group the store does not know is created with the lock holder that the
  lock store recorded for it, as lock holder and as active job, with an empty waiting queue; if
  the lock store cannot be read, no group is created.\<close>

theorem group_recovers_recorded_lock:
  assumes "lock_store ops holder" and "map_of gs i = None"
    and "GetOrCreate (Some ops) now i gs s = (r, gs', s')"
  shows "holder s' = holder s \<and>
    (case r of
       Inl e \<Rightarrow> gs' = gs
     | Inr (g, created) \<Rightarrow> created \<and> gs_Get i gs' = Inr g \<and> lockingJob (spec g) = holder s i \<and>
         activeJob (spec g) = holder s i \<and> waiting (queue (spec g)) = [])"
proof -
  obtain h s1 where get: "ls_GetLock ops i s = (h, s1)" by fastforce
  show ?thesis
  proof (cases h)
    case (Inl e)
    with get assms(2,3) lock_store.get_err[OF assms(1), of i s e s1] show ?thesis
      by (auto simp: GetOrCreate_def NewGroup_def Let_def)
  next
    case (Inr j)
    with get assms(2,3) lock_store.get_ok[OF assms(1), of i s j s1] show ?thesis
      by (auto simp: GetOrCreate_def NewGroup_def Let_def gs_Get_def wjq.abs_empty)
  qed
qed

theorem group_recovers_recorded_lock_witness:
  "case GetOrCreate (Some MemLockStore) 5 ''g'' [] [(''g'', ''a'')] of (r, gs', s') \<Rightarrow>
     get_str s' = get_str [(''g'', ''a'')] \<and> (\<exists>g. r = Inr (g, True) \<and> lockingJob (spec g) = ''a'')"
proof -
  let ?x = "GetOrCreate (Some MemLockStore) 5 ''g'' [] [(''g'', ''a'')]"
  obtain r gs' s' where x: "?x = (r, gs', s')" by (metis prod.exhaust)
  have "\<not> isl (fst ?x)" by code_simp
  with x obtain g c where r: "r = Inr (g, c)" by (cases r) auto
  from group_recovers_recorded_lock[OF mem.lock_store_axioms _ x] x r show ?thesis
    by (auto simp: get_str_def)
qed

end
