(* ===== verification/Job_Store.thy ===== *)
theory Job_Store
  imports Api
begin

text \<open>
  Jobs and their in-memory store (\<^verbatim>\<open>store/job.go\<close>, \<^verbatim>\<open>store/job_store.go\<close>). The
  store is a map keyed by \<^verbatim>\<open>groupID + ":" + jobID\<close>; the program shares jobs by pointer
  and only ever reaches a job through its key, so updating a job through its pointer is
  updating the entry under its key.
\<close>

record job =
  j_jobID :: string
  j_groupID :: string
  pods :: "string list"
  contextState :: "(string \<times> ContextState) list"
  backendConfig :: "BackendConfig option"

definition NewJob :: "string \<Rightarrow> string \<Rightarrow> job" where
  "NewJob groupID jobID =
     \<lparr>j_jobID = jobID, j_groupID = groupID, pods = [], contextState = [], backendConfig = None\<rparr>"

definition SetPods :: "string list \<Rightarrow> job \<Rightarrow> job" where
  "SetPods ps j = j\<lparr>pods := ps\<rparr>"

definition SetContextState :: "(string \<times> ContextState) list \<Rightarrow> job \<Rightarrow> job" where
  "SetContextState cs j = (if length cs = 0 then j\<lparr>contextState := []\<rparr> else j\<lparr>contextState := cs\<rparr>)"

definition UpdateContextState :: "string \<Rightarrow> ContextState \<Rightarrow> job \<Rightarrow> job" where
  "UpdateContextState nodeName st j = j\<lparr>contextState := AList.update nodeName st (contextState j)\<rparr>"

definition SetBackendConfig :: "BackendConfig option \<Rightarrow> job \<Rightarrow> job" where
  "SetBackendConfig cfg j = j\<lparr>backendConfig := cfg\<rparr>"

lemmas job_upd_defs = SetPods_def SetContextState_def UpdateContextState_def SetBackendConfig_def

lemma job_ids_kept [simp]:
  "j_jobID (SetPods ps j) = j_jobID j" "j_groupID (SetPods ps j) = j_groupID j"
  "j_jobID (UpdateContextState n st j) = j_jobID j" "j_groupID (UpdateContextState n st j) = j_groupID j"
  "j_jobID (SetBackendConfig c j) = j_jobID j" "j_groupID (SetBackendConfig c j) = j_groupID j"
  "j_jobID (NewJob gr jb) = jb" "j_groupID (NewJob gr jb) = gr"
  by (simp_all add: job_upd_defs NewJob_def)

subsection \<open>The store\<close>

type_synonym job_store = "(string \<times> job) list"

definition makeJobKey :: "string \<Rightarrow> string \<Rightarrow> string" where
  "makeJobKey groupID jobID = groupID @ '':'' @ jobID"

definition js_Get :: "string \<Rightarrow> string \<Rightarrow> job_store \<Rightarrow> go_error + job" where
  "js_Get groupID jobID st =
     (case map_of st (makeJobKey groupID jobID) of
        None \<Rightarrow> Inl (Sentinel ErrNotFound)
      | Some j \<Rightarrow> Inr j)"

definition ListByGroup :: "string \<Rightarrow> job_store \<Rightarrow> job list" where
  "ListByGroup groupID st = filter (\<lambda>j. j_groupID j = groupID) (map snd st)"

definition js_Put :: "job \<Rightarrow> job_store \<Rightarrow> job_store" where
  "js_Put j st = AList.update (makeJobKey (j_groupID j) (j_jobID j)) j st"

definition js_Delete :: "string \<Rightarrow> string \<Rightarrow> job_store \<Rightarrow> job_store" where
  "js_Delete groupID jobID st = AList.delete (makeJobKey groupID jobID) st"

definition js_UpdateContextState ::
  "string \<Rightarrow> string \<Rightarrow> string \<Rightarrow> ContextState \<Rightarrow> job_store \<Rightarrow> go_error option \<times> job_store" where
  "js_UpdateContextState groupID jobID nodeName state st =
     (case map_of st (makeJobKey groupID jobID) of
        None \<Rightarrow> (Some (Sentinel ErrNotFound), st)
      | Some j \<Rightarrow>
          (None, AList.update (makeJobKey groupID jobID) (UpdateContextState nodeName state j) st))"

text \<open>
  Writing through a job pointer obtained from the store, as \<^verbatim>\<open>SetBackendConfig\<close> and
  \<^verbatim>\<open>SetPods\<close> do.
\<close>

definition js_modify :: "string \<Rightarrow> string \<Rightarrow> (job \<Rightarrow> job) \<Rightarrow> job_store \<Rightarrow> job_store" where
  "js_modify groupID jobID f st =
     (case map_of st (makeJobKey groupID jobID) of
        None \<Rightarrow> st
      | Some j \<Rightarrow> AList.update (makeJobKey groupID jobID) (f j) st)"

lemmas js_defs = js_Get_def js_Put_def js_Delete_def js_UpdateContextState_def js_modify_def

subsection \<open>Invariant\<close>

definition colon_free :: "string \<Rightarrow> bool" where
  "colon_free s \<longleftrightarrow> CHR '':'' \<notin> set s"

text \<open>Every entry sits under the key of its own group and job, and no group has a colon.\<close>

definition js_inv :: "job_store \<Rightarrow> bool" where
  "js_inv st \<longleftrightarrow>
     amap_ok st \<and>
     (\<forall>k j. map_of st k = Some j \<longrightarrow> k = makeJobKey (j_groupID j) (j_jobID j) \<and> colon_free (j_groupID j))"

lemma js_inv_amap_ok: "js_inv st \<Longrightarrow> amap_ok st"
  unfolding js_inv_def by blast

lemma js_inv_key:
  "js_inv st \<Longrightarrow> map_of st k = Some j \<Longrightarrow>
     makeJobKey (j_groupID j) (j_jobID j) = k \<and> colon_free (j_groupID j)"
  unfolding js_inv_def by blast

lemma js_invI:
  assumes "amap_ok st"
    and "\<And>k j. map_of st k = Some j \<Longrightarrow> makeJobKey (j_groupID j) (j_jobID j) = k \<and> colon_free (j_groupID j)"
  shows "js_inv st"
  using assms unfolding js_inv_def by blast

lemma makeJobKey_inject:
  assumes "colon_free g" and "colon_free g'"
  shows "makeJobKey g j = makeJobKey g' j' \<longleftrightarrow> g = g' \<and> j = j'"
proof -
  have "takeWhile (\<lambda>c. c \<noteq> CHR '':'') (makeJobKey h i) = h" if "colon_free h" for h i
    using that unfolding makeJobKey_def colon_free_def by (induction h) auto
  from this[OF assms(1), of j] this[OF assms(2), of j'] have "makeJobKey g j = makeJobKey g' j' \<Longrightarrow> g = g'"
    by metis
  then show ?thesis by (auto simp: makeJobKey_def)
qed

lemma js_inv_Nil: "js_inv []"
  by (rule js_invI) simp_all

lemma js_inv_Put: "js_inv st \<Longrightarrow> colon_free (j_groupID j) \<Longrightarrow> js_inv (js_Put j st)"
  by (rule js_invI) (auto simp: js_Put_def js_inv_amap_ok split: if_splits dest: js_inv_key)

lemma js_inv_Delete: "js_inv st \<Longrightarrow> js_inv (js_Delete g j st)"
  by (rule js_invI) (auto simp: js_Delete_def js_inv_amap_ok split: if_splits dest: js_inv_key)

lemma js_inv_modify:
  assumes "js_inv st" and "\<And>j. j_jobID (f j) = j_jobID j \<and> j_groupID (f j) = j_groupID j"
  shows "js_inv (js_modify g i f st)"
  using assms(1)
  by (intro js_invI)
    (auto simp: js_modify_def js_inv_amap_ok assms(2) split: option.splits if_splits dest: js_inv_key)

lemma js_UpdateContextState_modify:
  "snd (js_UpdateContextState g j n c st) = js_modify g j (UpdateContextState n c) st"
  by (simp add: js_defs split: option.splits)

lemma js_inv_UpdateContextState: "js_inv st \<Longrightarrow> js_inv (snd (js_UpdateContextState g j n c st))"
  by (simp add: js_UpdateContextState_modify js_inv_modify)

lemma js_Get_ids:
  assumes "js_inv st" and "colon_free g" and "js_Get g i st = Inr j"
  shows "j_groupID j = g \<and> j_jobID j = i"
  using assms js_inv_key[OF assms(1), of "makeJobKey g i" j] makeJobKey_inject[of "j_groupID j" g "j_jobID j" i]
  by (auto simp: js_Get_def split: option.splits)

lemma ListByGroup_iff:
  assumes "js_inv st" and "colon_free g"
  shows "j \<in> set (ListByGroup g st) \<longleftrightarrow> js_Get g (j_jobID j) st = Inr j"
proof
  assume "j \<in> set (ListByGroup g st)"
  then obtain k where k: "(k, j) \<in> set st" and g: "j_groupID j = g"
    by (auto simp: ListByGroup_def)
  have m: "map_of st k = Some j" using js_inv_amap_ok[OF assms(1)] k by (rule map_of_is_SomeI)
  from js_inv_key[OF assms(1) m] g have "makeJobKey g (j_jobID j) = k" by simp
  with m show "js_Get g (j_jobID j) st = Inr j" by (simp add: js_Get_def)
next
  assume r: "js_Get g (j_jobID j) st = Inr j"
  then have "(makeJobKey g (j_jobID j), j) \<in> set st"
    by (auto simp: js_Get_def split: option.splits dest: map_of_SomeD)
  moreover have "j_groupID j = g" using js_Get_ids[OF assms r] by simp
  ultimately show "j \<in> set (ListByGroup g st)" by (force simp: ListByGroup_def)
qed

lemma ListByGroup_distinct_ids:
  assumes "js_inv st"
  shows "distinct (map j_jobID (ListByGroup g st))"
  using assms
proof (induction st)
  case (Cons x st)
  obtain k j where x: "x = (k, j)" by (cases x)
  have ok: "amap_ok st" and k: "k \<notin> fst ` set st" using js_inv_amap_ok[OF Cons.prems] by (auto simp: x)
  have st: "map_of st k' = Some j' \<Longrightarrow> map_of (x # st) k' = Some j'" for k' j'
    using k by (force simp: x dest: map_of_SomeD)
  then have inv: "js_inv st" using Cons.prems ok unfolding js_inv_def by blast
  have "j_jobID j \<notin> j_jobID ` set (ListByGroup g st)" if g: "j_groupID j = g"
  proof
    assume "j_jobID j \<in> j_jobID ` set (ListByGroup g st)"
    then obtain j' where j': "j' \<in> set (ListByGroup g st)" "j_jobID j' = j_jobID j" by auto
    then obtain k' where k': "(k', j') \<in> set st" "j_groupID j' = g" by (auto simp: ListByGroup_def)
    have "map_of st k' = Some j'" using ok k'(1) by (rule map_of_is_SomeI)
    then have "makeJobKey g (j_jobID j) = k'" "makeJobKey g (j_jobID j) = k"
      using js_inv_key[OF inv, of k' j'] js_inv_key[OF Cons.prems, of k j] k' j'(2) g by (simp_all add: x)
    with k k'(1) show False by force
  qed
  with Cons.IH[OF inv] show ?case by (auto simp: ListByGroup_def x)
qed (simp add: ListByGroup_def)

text \<open>The interface the controller and the server use.\<close>

locale keyed_job_store =
  fixes get :: "string \<Rightarrow> string \<Rightarrow> 'st \<Rightarrow> go_error + job"
    and put :: "job \<Rightarrow> 'st \<Rightarrow> 'st"
    and del :: "string \<Rightarrow> string \<Rightarrow> 'st \<Rightarrow> 'st"
    and list :: "string \<Rightarrow> 'st \<Rightarrow> job list"
    and inv :: "'st \<Rightarrow> bool"
  assumes get_put: "colon_free g \<Longrightarrow> colon_free (j_groupID j) \<Longrightarrow>
      get g i (put j st) = (if j_groupID j = g \<and> j_jobID j = i then Inr j else get g i st)"
    and get_del: "colon_free g \<Longrightarrow> colon_free h \<Longrightarrow>
      get g i (del h k st) = (if g = h \<and> i = k then Inl (Sentinel ErrNotFound) else get g i st)"
    and inv_put: "inv st \<Longrightarrow> colon_free (j_groupID j) \<Longrightarrow> inv (put j st)"
    and inv_del: "inv st \<Longrightarrow> inv (del g i st)"
    and list_get: "inv st \<Longrightarrow> colon_free g \<Longrightarrow>
      j \<in> set (list g st) \<longleftrightarrow> get g (j_jobID j) st = Inr j"
    and get_ids: "inv st \<Longrightarrow> colon_free g \<Longrightarrow> get g i st = Inr j \<Longrightarrow> j_groupID j = g \<and> j_jobID j = i"
begin

text \<open>Deleting every job of a list, as the group clean-up does.\<close>

primrec del_all :: "string \<Rightarrow> string list \<Rightarrow> 'st \<Rightarrow> 'st" where
  "del_all g [] st = st"
| "del_all g (i # is) st = del_all g is (del g i st)"

lemma del_all_inv: "inv st \<Longrightarrow> inv (del_all g is st)"
  by (induction "is" arbitrary: st) (auto simp: inv_del)

lemma get_del_all:
  "colon_free g \<Longrightarrow> colon_free h \<Longrightarrow>
     get g i (del_all h is st) = (if g = h \<and> i \<in> set is then Inl (Sentinel ErrNotFound) else get g i st)"
  by (induction "is" arbitrary: st) (auto simp: get_del)

lemma list_del_all:
  assumes "inv st" and "colon_free g" and "\<forall>j \<in> set (list g st). j_jobID j \<in> set is"
  shows "list g (del_all g is st) = []"
proof (rule ccontr)
  assume "list g (del_all g is st) \<noteq> []"
  then obtain j where "j \<in> set (list g (del_all g is st))" by (meson list.set_sel(1))
  with assms show False
    by (auto simp: list_get del_all_inv get_del_all split: if_splits)
qed

end

interpretation jobs: keyed_job_store js_Get js_Put js_Delete ListByGroup js_inv
proof unfold_locales
  fix g h i k :: string and j and st :: job_store
  show "colon_free g \<Longrightarrow> colon_free (j_groupID j) \<Longrightarrow>
      js_Get g i (js_Put j st) = (if j_groupID j = g \<and> j_jobID j = i then Inr j else js_Get g i st)"
    by (auto simp: js_defs makeJobKey_inject)
  show "colon_free g \<Longrightarrow> colon_free h \<Longrightarrow>
      js_Get g i (js_Delete h k st) = (if g = h \<and> i = k then Inl (Sentinel ErrNotFound) else js_Get g i st)"
    by (auto simp: js_defs makeJobKey_inject)
qed (simp_all add: js_inv_Put js_inv_Delete ListByGroup_iff js_Get_ids)

text \<open>
  the job store behaves as a map from group and job to the job: on group names without a
  colon (Kubernetes label values have none) a job that was put is the one that is found under
  its group and job, every other lookup is unchanged, and a deleted job is not found.\<close>

theorem job_store_lookup:
  assumes "colon_free g" and "colon_free h" and "j_groupID j = h"
  shows "js_Get g i (js_Put j st) = (if h = g \<and> j_jobID j = i then Inr j else js_Get g i st) \<and>
         js_Get g i (js_Delete h k st) = (if g = h \<and> i = k then Inl (Sentinel ErrNotFound) else js_Get g i st)"
  using assms jobs.get_put[of g j i st] jobs.get_del[of g h i k st] by simp

theorem job_store_lookup_witness:
  "js_Get ''g'' ''b'' (js_Put (NewJob ''g'' ''a'') (js_Put (NewJob ''g'' ''b'') [])) = Inr (NewJob ''g'' ''b'') \<and>
   js_Get ''g'' ''a'' (js_Delete ''g'' ''a'' (js_Put (NewJob ''g'' ''a'') [])) = Inl (Sentinel ErrNotFound)"
proof -
  have c: "colon_free ''g''" by code_simp
  show ?thesis
    using job_store_lookup[OF c c, of "NewJob ''g'' ''a''" "''b''" "js_Put (NewJob ''g'' ''b'') []"]
      job_store_lookup[OF c c, of "NewJob ''g'' ''b''" "''b''" "[]"]
      job_store_lookup[OF c c, of "NewJob ''g'' ''a''" "''a''" "js_Put (NewJob ''g'' ''a'') []" "''a''"]
    by simp
qed

text \<open>
  listing a group returns exactly the jobs that a lookup in that group finds, each once.\<close>

theorem list_by_group_exact:
  assumes "js_inv st" and "colon_free g"
  shows "distinct (map j_jobID (ListByGroup g st)) \<and>
         (\<forall>j. j \<in> set (ListByGroup g st) \<longleftrightarrow> js_Get g (j_jobID j) st = Inr j)"
  using ListByGroup_distinct_ids[OF assms(1)] ListByGroup_iff[OF assms] by simp

theorem list_by_group_exact_witness:
  "let st = js_Put (NewJob ''g'' ''a'') (js_Put (NewJob ''h'' ''b'') [])
   in ListByGroup ''g'' st = [NewJob ''g'' ''a''] \<and>
      (\<forall>j. j \<in> set (ListByGroup ''g'' st) \<longleftrightarrow> js_Get ''g'' (j_jobID j) st = Inr j)"
proof -
  let ?st = "js_Put (NewJob ''g'' ''a'') (js_Put (NewJob ''h'' ''b'') [])"
  have "colon_free ''g''" "colon_free ''h''" by code_simp+
  then have "js_inv ?st" and "colon_free ''g''" by (simp_all add: js_inv_Put js_inv_Nil)
  from list_by_group_exact[OF this] have "\<forall>j. j \<in> set (ListByGroup ''g'' ?st) \<longleftrightarrow> js_Get ''g'' (j_jobID j) ?st = Inr j" ..
  moreover have "ListByGroup ''g'' ?st = [NewJob ''g'' ''a'']" by code_simp
  ultimately show ?thesis by simp
qed

end
