(* ===== verification/Orch_State.thy ===== *)
theory Orch_State
  imports Group_Store Job_Store
begin

text \<open>
  The state of the orchestrator process: its two stores, the lock store, the controller's
  settlement table, the metrics and the world outside. Everything outside the repository, and
  the snapshot-agent store behind its interface, is a field of \<open>env\<close>: a function from the
  request and the world to the answer and the new world. Nothing is assumed about these fields
  unless a theorem says so, so an answer may fail, be delayed or be wrong.
\<close>

record PodInfo =
  UID :: string
  pi_JobID :: string

record k8s_node =
  node_name :: string
  node_labels :: "(string \<times> string) list"

record k8s_pod =
  pod_uid :: string
  pod_labels :: "(string \<times> string) list option"

text \<open>
  \<^verbatim>\<open>store.SnapshotAgentStore\<close>: the calls to the snapshot agent of a node
  (\<^verbatim>\<open>snapshot_agent_store.go\<close>, interface).
\<close>

record 'w agent_ops =
  as_GetStatus :: "string \<Rightarrow> 'w \<Rightarrow> (go_error + JobStatus list) \<times> 'w"
  as_CloseClient :: "string \<Rightarrow> 'w \<Rightarrow> go_error option \<times> 'w"
  as_Snapshot :: "string \<Rightarrow> string \<Rightarrow> string \<Rightarrow> BackendConfig option \<Rightarrow> 'w \<Rightarrow> (go_error + string) \<times> 'w"
  as_GetOperation :: "string \<Rightarrow> string \<Rightarrow> 'w \<Rightarrow> (go_error + GetOperationResponse) \<times> 'w"
  as_Restore :: "string \<Rightarrow> string \<Rightarrow> string \<Rightarrow> BackendConfig option \<Rightarrow> 'w \<Rightarrow> (go_error + string) \<times> 'w"

text \<open>
  \<^verbatim>\<open>controller.WorkQueue\<close>, implemented by client-go's rate-limiting work queue;
  \<open>wq_Get\<close> is \<open>None\<close> where the call blocks.
\<close>

record 'w work_queue =
  wq_Add :: "string \<Rightarrow> 'w \<Rightarrow> 'w"
  wq_AddRateLimited :: "string \<Rightarrow> 'w \<Rightarrow> 'w"
  wq_Forget :: "string \<Rightarrow> 'w \<Rightarrow> 'w"
  wq_Done :: "string \<Rightarrow> 'w \<Rightarrow> 'w"
  wq_Get :: "'w \<Rightarrow> ((string \<times> bool) \<times> 'w) option"
  wq_ShutDown :: "'w \<Rightarrow> 'w"

text \<open>
  The listers select by one label and its value; \<open>time_now\<close> is \<^verbatim>\<open>time.Now\<close>;
  \<open>ctx_done\<close> says which branch a \<^verbatim>\<open>select\<close> between a done context and a ticker takes
  (it is asked whether the context of the call is cancelled).
\<close>

record ('s, 'w) env =
  lockStore :: "'s lock_ops option"
  agents :: "'w agent_ops"
  workqueue :: "'w work_queue"
  nodeLister :: "string \<Rightarrow> string \<Rightarrow> 'w \<Rightarrow> (go_error + k8s_node list) \<times> 'w"
  podLister :: "string \<Rightarrow> string \<Rightarrow> 'w \<Rightarrow> (go_error + k8s_pod list) \<times> 'w"
  time_now :: "'w \<Rightarrow> int \<times> 'w"
  ctx_done :: "bool \<Rightarrow> 'w \<Rightarrow> go_error option \<times> 'w"
  SettleTimeout :: int

record settleEntry =
  se_jobID :: string
  se_since :: int

record ('s, 'w) orch =
  groups :: group_store
  jobs :: job_store
  locks :: 's
  settleSince :: "(string \<times> settleEntry) list"
  meters :: metrics
  world :: 'w

definition no_metrics :: metrics where
  "no_metrics = \<lparr>QueueDepth = [], DeferredSnapshotsTotal = [], AcquireWaitDuration = [],
                 AgentOperationDuration = []\<rparr>"

text \<open>A freshly started process: empty stores, on whatever the lock store holds.\<close>

definition orch_start :: "'s \<Rightarrow> 'w \<Rightarrow> ('s, 'w) orch" where
  "orch_start s w = \<lparr>groups = [], jobs = [], locks = s, settleSince = [], meters = no_metrics, world = w\<rparr>"

definition Now :: "('s, 'w) env \<Rightarrow> ('s, 'w) orch \<Rightarrow> int \<times> ('s, 'w) orch" where
  "Now E st = (case time_now E (world st) of (t, w) \<Rightarrow> (t, st\<lparr>world := w\<rparr>))"

lemma Now_frame [simp]:
  "groups (snd (Now E st)) = groups st" "jobs (snd (Now E st)) = jobs st" "locks (snd (Now E st)) = locks st"
  "settleSince (snd (Now E st)) = settleSince st" "meters (snd (Now E st)) = meters st"
  by (simp_all add: Now_def split: prod.splits)

lemma Now_frameD:
  "Now E st = (t, st') \<Longrightarrow> groups st' = groups st \<and> jobs st' = jobs st \<and> locks st' = locks st \<and>
     settleSince st' = settleSince st \<and> meters st' = meters st"
  using Now_frame[of E st] by simp

text \<open>
  Changing a group in place in the orchestrator, and running one of its lock operations, which
  also touches the lock store.
\<close>

definition with_group :: "string \<Rightarrow> (group \<Rightarrow> group) \<Rightarrow> ('s, 'w) orch \<Rightarrow> ('s, 'w) orch" where
  "with_group groupID f st = st\<lparr>groups := gs_modify groupID f (groups st)\<rparr>"

definition set_spec :: "group_spec \<Rightarrow> group \<Rightarrow> group" where
  "set_spec sp g = g\<lparr>spec := sp\<rparr>"

lemma set_spec_simps [simp]: "gid (set_spec sp g) = gid g" "spec (set_spec sp g) = sp" "status (set_spec sp g) = status g"
  by (simp_all add: set_spec_def)

lemma with_group_simps [simp]:
  "groups (with_group i f st) = gs_modify i f (groups st)" "jobs (with_group i f st) = jobs st"
  "locks (with_group i f st) = locks st" "settleSince (with_group i f st) = settleSince st"
  "meters (with_group i f st) = meters st" "world (with_group i f st) = world st"
  by (simp_all add: with_group_def)

text \<open>Invariant of the orchestrator's state: both stores are well formed.\<close>

definition orch_inv :: "('s, 'w) orch \<Rightarrow> bool" where
  "orch_inv st \<longleftrightarrow> gs_inv (groups st) \<and> js_inv (jobs st)"

lemma orch_inv_cong [intro]:
  "orch_inv st \<Longrightarrow> groups st' = groups st \<Longrightarrow> jobs st' = jobs st \<Longrightarrow> orch_inv st'"
  by (simp add: orch_inv_def)

lemma orch_inv_start: "orch_inv (orch_start s w)"
  by (simp add: orch_inv_def orch_start_def gs_inv_Nil js_inv_Nil)

text \<open>
  A concrete environment used to instantiate the parameters: the world is a clock, the cluster
  is empty, agents know no job and finish every operation at once, the in-memory lock store
  keeps the locks.
\<close>

definition idle_agents :: "int agent_ops" where
  "idle_agents = \<lparr>
     as_GetStatus = (\<lambda>n w. (Inr [], w)),
     as_CloseClient = (\<lambda>n w. (None, w)),
     as_Snapshot = (\<lambda>n j g c w. (Inr ''op'', w)),
     as_GetOperation = (\<lambda>n i w. (Inr \<lparr>gor_status = OPERATION_STATUS_COMPLETE, gor_storage_bytes = None,
        gor_snapshot_device_bytes = None, gor_elapsed_ms = 1, gor_error = None\<rparr>, w)),
     as_Restore = (\<lambda>n j g c w. (Inr ''op'', w))\<rparr>"

definition idle_env :: "(mem_lock_store, int) env" where
  "idle_env = \<lparr>
     lockStore = Some MemLockStore,
     agents = idle_agents,
     workqueue = \<lparr>wq_Add = (\<lambda>g w. w), wq_AddRateLimited = (\<lambda>g w. w), wq_Forget = (\<lambda>g w. w),
       wq_Done = (\<lambda>g w. w), wq_Get = (\<lambda>w. Some ((''g'', False), w)), wq_ShutDown = (\<lambda>w. w)\<rparr>,
     nodeLister = (\<lambda>k v w. (Inr [], w)),
     podLister = (\<lambda>k v w. (Inr [], w)),
     time_now = (\<lambda>w. (w, w + 1)),
     ctx_done = (\<lambda>c w. (if c then Some (Sentinel CtxCanceled) else None, w)),
     SettleTimeout = 30\<rparr>"

text \<open>A group \<open>g\<close> on node \<open>n1\<close>, locked by job \<open>a\<close>, and its store.\<close>

definition held_group :: group where
  "held_group = \<lparr>gid = ''g'', spec = \<lparr>lockingJob = ''a'', queue = NewWaitingJobQueue, activeJob = ''a''\<rparr>,
     status = \<lparr>nodes = [''n1''], gstate = GROUP_STATE_LOCKED, stateTimestamp = 0, loadedJob = ''a''\<rparr>\<rparr>"

definition held_state :: "(mem_lock_store, int) orch" where
  "held_state = (orch_start [(''g'', ''a'')] 0)\<lparr>groups := [(''g'', held_group)],
     jobs := js_Put (UpdateContextState ''n1'' STATE_RUNNING (NewJob ''g'' ''a'')) []\<rparr>"

lemma held_state_inv: "orch_inv held_state"
proof -
  have "colon_free ''g''" by code_simp
  moreover have "gs_inv [(''g'', held_group)]"
    by (rule gs_invI) (auto simp: held_group_def spec_inv_def wjq.inv_empty wjq.abs_empty split: if_splits)
  ultimately show ?thesis
    by (simp add: orch_inv_def held_state_def orch_start_def js_inv_Put js_inv_Nil)
qed

end
