(* ===== verification/Go_Text.thy ===== *)
theory Go_Text
  imports Prelude
begin

text \<open>
  What the agent uses of the Go packages \<^verbatim>\<open>strconv\<close> and \<^verbatim>\<open>strings\<close>, on byte
  strings: decimal printing and parsing with their range checks, \<^verbatim>\<open>ParseBool\<close>,
  \<^verbatim>\<open>Split\<close>, \<^verbatim>\<open>Cut\<close>, \<^verbatim>\<open>TrimSpace\<close> (of the ASCII white space),
  \<^verbatim>\<open>Join\<close> and \<^verbatim>\<open>Contains\<close>, with the round trips between printing and parsing.
\<close>

named_theorems go_text \<open>evaluation of the string functions on literals\<close>

subsection \<open>Decimal numbers\<close>

definition digit_char :: "nat \<Rightarrow> char" where
  "digit_char d = char_of (48 + d)"

definition digit_val :: "char \<Rightarrow> nat" where
  "digit_val c = of_char c - 48"

definition is_digit :: "char \<Rightarrow> bool" where
  "is_digit c \<longleftrightarrow> 48 \<le> (of_char c :: nat) \<and> (of_char c :: nat) \<le> 57"

fun nat_digits :: "nat \<Rightarrow> string" where
  "nat_digits n = (if n < 10 then [digit_char n] else nat_digits (n div 10) @ [digit_char (n mod 10)])"

declare nat_digits.simps [simp del]

definition Itoa :: "int \<Rightarrow> string" where
  "Itoa i = (if i < 0 then CHR ''-'' # nat_digits (nat (- i)) else nat_digits (nat i))"

definition digits_val :: "string \<Rightarrow> nat" where
  "digits_val s = foldl (\<lambda>a c. a * 10 + digit_val c) 0 s"

text \<open>\<^verbatim>\<open>ParseInt(s, 10, bits)\<close>: an optional sign, at least one digit, a value in range.\<close>

definition sign_split :: "string \<Rightarrow> bool \<times> string" where
  "sign_split s =
     (case s of
        [] \<Rightarrow> (False, [])
      | c # r \<Rightarrow> if c = CHR ''-'' then (True, r) else if c = CHR ''+'' then (False, r) else (False, s))"

definition ParseInt :: "nat \<Rightarrow> string \<Rightarrow> go_error + int" where
  "ParseInt bits s =
     (case sign_split s of
        (neg, ds) \<Rightarrow>
          if ds = [] \<or> \<not> list_all is_digit ds
          then Inl (Text (errorf [''strconv.ParseInt: parsing '', s, '': invalid syntax'']))
          else
            let v = (if neg then - int (digits_val ds) else int (digits_val ds)) in
            if v < - (2 ^ (bits - 1)) \<or> 2 ^ (bits - 1) \<le> v
            then Inl (Text (errorf [''strconv.ParseInt: parsing '', s, '': value out of range'']))
            else Inr v)"

text \<open>\<^verbatim>\<open>Atoi\<close> parses an \<^verbatim>\<open>int\<close>, which has 64 bits.\<close>

definition Atoi :: "string \<Rightarrow> go_error + int" where
  "Atoi s = ParseInt 64 s"

definition is_int32 :: "int \<Rightarrow> bool" where
  "is_int32 i \<longleftrightarrow> - (2 ^ 31) \<le> i \<and> i < 2 ^ 31"

lemma digit_char_props [simp]:
  assumes "d < 10"
  shows "digit_val (digit_char d) = d" and "is_digit (digit_char d)"
  using assms by (simp_all add: digit_val_def digit_char_def is_digit_def take_bit_nat_eq_self)

lemma digits_val_append: "digits_val (s @ [c]) = digits_val s * 10 + digit_val c"
  by (simp add: digits_val_def)

lemma nat_digits_val: "digits_val (nat_digits n) = n"
proof (induction n rule: nat_digits.induct)
  case (1 n)
  show ?case
  proof (cases "n < 10")
    case True
    then show ?thesis by (subst nat_digits.simps) (simp add: digits_val_def)
  next
    case False
    with 1 have "digits_val (nat_digits n) = (n div 10) * 10 + n mod 10"
      by (subst nat_digits.simps) (simp add: digits_val_append)
    then show ?thesis by simp
  qed
qed

lemma nat_digits_digits: "list_all is_digit (nat_digits n)"
proof (induction n rule: nat_digits.induct)
  case (1 n)
  then show ?case by (subst nat_digits.simps) simp
qed

lemma nat_digits_not_Nil: "nat_digits n \<noteq> []"
  by (subst nat_digits.simps) simp

lemma is_digit_signs: "\<not> is_digit (CHR ''-'')" "\<not> is_digit (CHR ''+'')" "\<not> is_digit (CHR '','')"
  by (simp_all add: is_digit_def)

lemma sign_split_Itoa:
  "sign_split (Itoa i) = (i < 0, nat_digits (nat \<bar>i\<bar>))"
proof (cases "i < 0")
  case True
  then show ?thesis by (simp add: Itoa_def sign_split_def)
next
  case False
  obtain c r where d: "nat_digits (nat i) = c # r" using nat_digits_not_Nil by (meson neq_Nil_conv)
  then have "is_digit c" using nat_digits_digits[of "nat i"] by simp
  then have "c \<noteq> CHR ''-''" "c \<noteq> CHR ''+''" using is_digit_signs by auto
  with False d show ?thesis by (simp add: Itoa_def sign_split_def)
qed

lemma ParseInt_Itoa:
  assumes "- (2 ^ (bits - 1)) \<le> i" and "i < 2 ^ (bits - 1)"
  shows "ParseInt bits (Itoa i) = Inr i"
  using assms nat_digits_digits nat_digits_not_Nil
  by (auto simp: ParseInt_def sign_split_Itoa nat_digits_val Let_def)

lemma ParseInt32_Itoa [simp]: "is_int32 i \<Longrightarrow> ParseInt 32 (Itoa i) = Inr i"
  by (rule ParseInt_Itoa) (simp_all add: is_int32_def)

lemma ParseInt_range:
  "ParseInt bits s = Inr i \<Longrightarrow> - (2 ^ (bits - 1)) \<le> i \<and> i < 2 ^ (bits - 1)"
  by (auto simp: ParseInt_def Let_def not_less not_le split: prod.splits if_splits)

lemma Itoa_inj: "Itoa i = Itoa j \<longleftrightarrow> i = j"
proof
  assume "Itoa i = Itoa j"
  then have "(i < 0, nat_digits (nat \<bar>i\<bar>)) = (j < 0, nat_digits (nat \<bar>j\<bar>))" by (metis sign_split_Itoa)
  then have "(i < 0) = (j < 0)" "nat \<bar>i\<bar> = nat \<bar>j\<bar>" by (auto dest: arg_cong[of _ _ digits_val] simp: nat_digits_val)
  then show "i = j" by linarith
qed simp

subsection \<open>Unsigned numbers in base 10 and 16\<close>

definition hex_char :: "nat \<Rightarrow> char" where
  "hex_char d = char_of (if d < 10 then 48 + d else 87 + d)"

text \<open>\<^verbatim>\<open>%x\<close> and \<^verbatim>\<open>%02x\<close>.\<close>

fun hex_digits :: "nat \<Rightarrow> string" where
  "hex_digits n = (if n < 16 then [hex_char n] else hex_digits (n div 16) @ [hex_char (n mod 16)])"

declare hex_digits.simps [simp del]

definition hex02 :: "nat \<Rightarrow> string" where
  "hex02 n = (if n < 16 then CHR ''0'' # hex_digits n else hex_digits n)"

definition hex_digit :: "char \<Rightarrow> nat option" where
  "hex_digit c =
     (let n = of_char c :: nat in
      if 48 \<le> n \<and> n \<le> 57 then Some (n - 48)
      else if 97 \<le> n \<and> n \<le> 102 then Some (n - 87)
      else if 65 \<le> n \<and> n \<le> 70 then Some (n - 55) else None)"

text \<open>\<^verbatim>\<open>ParseUint(s, base, 64)\<close> for base 16 and 10.\<close>

definition base_digit :: "nat \<Rightarrow> char \<Rightarrow> bool" where
  "base_digit base c = (case hex_digit c of Some d \<Rightarrow> d < base | None \<Rightarrow> False)"

definition base_val :: "nat \<Rightarrow> string \<Rightarrow> nat" where
  "base_val base s = foldl (\<lambda>a c. a * base + the (hex_digit c)) 0 s"

definition ParseUint :: "nat \<Rightarrow> string \<Rightarrow> nat option" where
  "ParseUint base s =
     (if s = [] \<or> \<not> list_all (base_digit base) s then None
      else if base_val base s < 2 ^ 64 then Some (base_val base s) else None)"

lemma hex_digit_hex_char: "d < 16 \<Longrightarrow> hex_digit (hex_char d) = Some d"
  by (simp add: hex_digit_def hex_char_def take_bit_nat_eq_self Let_def)

lemma hex_digit_digit_char: "d < 10 \<Longrightarrow> hex_digit (digit_char d) = Some d"
  by (simp add: hex_digit_def digit_char_def take_bit_nat_eq_self Let_def)

lemma base_digit_chars: "d < 16 \<Longrightarrow> base_digit 16 (hex_char d)" "d < 10 \<Longrightarrow> base_digit 10 (digit_char d)"
  by (simp_all add: base_digit_def hex_digit_hex_char hex_digit_digit_char)

lemma base_val_snoc: "base_val base (s @ [c]) = base_val base s * base + the (hex_digit c)"
  by (simp add: base_val_def)

lemma base_val_zero: "base_val base (CHR ''0'' # s) = base_val base s"
  by (simp add: base_val_def hex_digit_def)

lemma hex_digits_parse: "list_all (base_digit 16) (hex_digits n) \<and> base_val 16 (hex_digits n) = n \<and> hex_digits n \<noteq> []"
proof (induction n rule: hex_digits.induct)
  case (1 n)
  show ?case
  proof (cases "n < 16")
    case True
    then show ?thesis by (subst (1 2 3) hex_digits.simps) (simp add: base_val_def base_digit_chars hex_digit_hex_char)
  next
    case False
    with 1 show ?thesis
      by (subst (1 2 3) hex_digits.simps) (simp add: base_val_snoc base_digit_chars hex_digit_hex_char)
  qed
qed

lemma nat_digits_parse: "list_all (base_digit 10) (nat_digits n) \<and> base_val 10 (nat_digits n) = n"
proof (induction n rule: nat_digits.induct)
  case (1 n)
  show ?case
  proof (cases "n < 10")
    case True
    then show ?thesis by (subst (1 2) nat_digits.simps) (simp add: base_val_def base_digit_chars hex_digit_digit_char)
  next
    case False
    with 1 show ?thesis
      by (subst (1 2) nat_digits.simps) (simp add: base_val_snoc base_digit_chars hex_digit_digit_char)
  qed
qed

lemma base_digit_zero: "base_digit 16 (CHR ''0'')"
  by (simp add: base_digit_def hex_digit_def)

lemma ParseUint_hex02: "n < 2 ^ 64 \<Longrightarrow> ParseUint 16 (hex02 n) = Some n"
  using hex_digits_parse[of n] by (simp add: ParseUint_def hex02_def base_val_zero base_digit_zero)

lemma ParseUint_nat_digits: "n < 2 ^ 64 \<Longrightarrow> ParseUint 10 (nat_digits n) = Some n"
  using nat_digits_parse[of n] nat_digits_not_Nil[of n] by (simp add: ParseUint_def)

lemma hex_digits_no_colon: "CHR '':'' \<notin> set (hex02 n)"
proof -
  have "\<not> base_digit 16 (CHR '':'')" by (simp add: base_digit_def hex_digit_def)
  then have "CHR '':'' \<notin> set (hex_digits n)" using hex_digits_parse[of n] by (auto simp: list_all_iff)
  then show ?thesis by (simp add: hex02_def)
qed

subsection \<open>Strings\<close>

definition is_space :: "char \<Rightarrow> bool" where
  "is_space c \<longleftrightarrow> (of_char c :: nat) \<in> {9, 10, 11, 12, 13, 32}"

definition TrimSpace :: "string \<Rightarrow> string" where
  "TrimSpace s = rev (dropWhile is_space (rev (dropWhile is_space s)))"

fun Split :: "char \<Rightarrow> string \<Rightarrow> string list" where
  "Split sep [] = [[]]"
| "Split sep (c # s) =
     (if c = sep then [] # Split sep s
      else (case Split sep s of [] \<Rightarrow> [[c]] | w # ws \<Rightarrow> (c # w) # ws))"

text \<open>\<^verbatim>\<open>Cut\<close> around the first separator; \<open>None\<close> is \<^verbatim>\<open>found == false\<close>.\<close>

fun Cut :: "char \<Rightarrow> string \<Rightarrow> (string \<times> string) option" where
  "Cut sep [] = None"
| "Cut sep (c # s) = (if c = sep then Some ([], s) else map_option (\<lambda>(a, b). (c # a, b)) (Cut sep s))"

fun strings_join :: "string \<Rightarrow> string list \<Rightarrow> string" where
  "strings_join sep [] = []"
| "strings_join sep [w] = w"
| "strings_join sep (w # v # ws) = w @ sep @ strings_join sep (v # ws)"

definition HasPrefix :: "string \<Rightarrow> string \<Rightarrow> bool" where
  "HasPrefix s p \<longleftrightarrow> take (length p) s = p"

fun Contains :: "string \<Rightarrow> string \<Rightarrow> bool" where
  "Contains [] p \<longleftrightarrow> p = []"
| "Contains (c # s) p \<longleftrightarrow> HasPrefix (c # s) p \<or> Contains s p"

text \<open>\<^verbatim>\<open>strconv.ParseBool\<close>.\<close>

definition ParseBool :: "string \<Rightarrow> go_error + bool" where
  "ParseBool s =
     (if s \<in> set [''1'', ''t'', ''T'', ''TRUE'', ''true'', ''True''] then Inr True
      else if s \<in> set [''0'', ''f'', ''F'', ''FALSE'', ''false'', ''False''] then Inr False
      else Inl (Text (errorf [''strconv.ParseBool: parsing '', s, '': invalid syntax''])))"

lemma Split_not_Nil [simp]: "Split sep s \<noteq> []"
  by (cases s) (auto split: list.splits)

lemma Split_no_sep: "sep \<notin> set s \<Longrightarrow> Split sep s = [s]"
  by (induction s) auto

lemma Split_append: "sep \<notin> set w \<Longrightarrow> Split sep (w @ sep # s) = w # Split sep s"
  by (induction w) auto

text \<open>Splitting undoes joining when no part contains the separator.\<close>

lemma Split_strings_join:
  "ws \<noteq> [] \<Longrightarrow> (\<And>w. w \<in> set ws \<Longrightarrow> sep \<notin> set w) \<Longrightarrow> Split sep (strings_join [sep] ws) = ws"
proof (induction "[sep]" ws rule: strings_join.induct)
  case (2 w)
  then show ?case by (simp add: Split_no_sep)
next
  case (3 w v ws)
  then show ?case by (simp add: Split_append)
qed simp

lemma Cut_append: "sep \<notin> set a \<Longrightarrow> Cut sep (a @ sep # b) = Some (a, b)"
  by (induction a) auto

lemma HasPrefix_iff: "HasPrefix s p \<longleftrightarrow> (\<exists>t. s = p @ t)"
proof
  assume "HasPrefix s p"
  then have "s = p @ drop (length p) s"
    using append_take_drop_id[of "length p" s] by (simp add: HasPrefix_def)
  then show "\<exists>t. s = p @ t" ..
qed (auto simp: HasPrefix_def)

lemma Contains_iff: "Contains s p \<longleftrightarrow> (\<exists>a b. s = a @ p @ b)"
proof (induction s)
  case (Cons c s)
  have "(\<exists>a b. c # s = a @ p @ b) \<longleftrightarrow> (\<exists>b. c # s = p @ b) \<or> (\<exists>a b. s = a @ p @ b)"
    by (metis append_Cons append_Nil neq_Nil_conv list.inject)
  then show ?case using Cons.IH by (simp add: HasPrefix_iff)
qed simp

end
