(* ===== verification/Infrastructure.thy ===== *)
theory Infrastructure
  imports Orch_State Go_Text
begin

text \<open>
  The Kubernetes side of the orchestrator (\<^verbatim>\<open>infrastructure/kubernetes.go\<close>): which nodes and
  jobs a group has, observed from labels on nodes and pods, and which groups an informer event
  puts on the work queue.
\<close>

definition NodeLabelPrefix :: string where "NodeLabelPrefix = ''group.timeslice.io/''"
definition PodLabelKey :: string where "PodLabelKey = ''timeslice.io/group''"
definition JobLabelKey :: string where "JobLabelKey = ''timeslice.io/job-id''"

definition getNodesForGroup ::
  "('s, 'w) env \<Rightarrow> string \<Rightarrow> 'w \<Rightarrow> (go_error + string list) \<times> 'w" where
  "getNodesForGroup E groupID w =
     (case nodeLister E (NodeLabelPrefix @ groupID) ''true'' w of
        (Inl err, w') \<Rightarrow> (Inl err, w')
      | (Inr ns, w') \<Rightarrow> (Inr (map node_name ns), w'))"

definition pod_label :: "k8s_pod \<Rightarrow> string \<Rightarrow> string" where
  "pod_label p key = (case pod_labels p of None \<Rightarrow> [] | Some ls \<Rightarrow> get_str ls key)"

fun podInfos :: "k8s_pod list \<Rightarrow> PodInfo list" where
  "podInfos [] = []"
| "podInfos (p # ps) =
     (if pod_label p JobLabelKey = [] then podInfos ps
      else \<lparr>UID = pod_uid p, pi_JobID = pod_label p JobLabelKey\<rparr> # podInfos ps)"

definition getPodsForGroup ::
  "('s, 'w) env \<Rightarrow> string \<Rightarrow> 'w \<Rightarrow> (go_error + PodInfo list) \<times> 'w" where
  "getPodsForGroup E groupID w =
     (case podLister E PodLabelKey groupID w of
        (Inl err, w') \<Rightarrow> (Inl err, w')
      | (Inr ps, w') \<Rightarrow> (Inr (podInfos ps), w'))"

definition findRemovedNodes :: "string list \<Rightarrow> string list \<Rightarrow> string list" where
  "findRemovedNodes oldNodes newNodes = filter (\<lambda>n. n \<notin> set newNodes) oldNodes"

text \<open>Closing clients only logs a failure.\<close>

fun closeClients :: "('s, 'w) env \<Rightarrow> string list \<Rightarrow> 'w \<Rightarrow> 'w" where
  "closeClients E [] w = w"
| "closeClients E (n # ns) w = closeClients E ns (snd (as_CloseClient (agents E) n w))"

definition updateGroupNodes ::
  "('s, 'w) env \<Rightarrow> string \<Rightarrow> string list \<Rightarrow> ('s, 'w) orch \<Rightarrow> go_error option \<times> ('s, 'w) orch" where
  "updateGroupNodes E groupID groupNodes st =
     (case Now E st of (now, st0) \<Rightarrow>
        (case GetOrCreate (lockStore E) now groupID (groups st0) (locks st0) of
           (Inl err, gs, s) \<Rightarrow>
             (Some (Wrap (errorf [''failed to get or create group '', groupID, '' in store'']) err),
              st0\<lparr>groups := gs, locks := s\<rparr>)
         | (Inr (g, _), gs, s) \<Rightarrow>
             let st1 = st0\<lparr>groups := gs, locks := s\<rparr>;
                 st2 = st1\<lparr>world := closeClients E (findRemovedNodes (nodes (status g)) groupNodes) (world st1)\<rparr>
             in (None, with_group groupID (\<lambda>g. g\<lparr>status := SetNodes groupNodes (status g)\<rparr>) st2)))"

text \<open>\<^verbatim>\<open>jobPods\<close>: the pods of each job, in the order they were listed.\<close>

fun jobPods :: "PodInfo list \<Rightarrow> (string \<times> string list) list \<Rightarrow> (string \<times> string list) list" where
  "jobPods [] m = m"
| "jobPods (p # ps) m =
     jobPods ps
       (AList.update (pi_JobID p)
          ((case map_of m (pi_JobID p) of None \<Rightarrow> [] | Some us \<Rightarrow> us) @ [UID p]) m)"

fun putJobs :: "string \<Rightarrow> (string \<times> string list) list \<Rightarrow> job_store \<Rightarrow> go_error option \<times> job_store" where
  "putJobs groupID [] js = (None, js)"
| "putJobs groupID ((jobID, uids) # rest) js =
     (case js_Get groupID jobID js of
        Inl err \<Rightarrow>
          if errors_is err ErrNotFound
          then putJobs groupID rest (js_Put (SetPods uids (NewJob groupID jobID)) js)
          else (Some err, js)
      | Inr j \<Rightarrow> putJobs groupID rest (js_Put (SetPods uids j) js))"

fun deleteJobs :: "string \<Rightarrow> string list \<Rightarrow> job_store \<Rightarrow> job_store" where
  "deleteJobs groupID [] js = js"
| "deleteJobs groupID (jobID # rest) js = deleteJobs groupID rest (js_Delete groupID jobID js)"

definition updateJobsAndPods ::
  "string \<Rightarrow> PodInfo list \<Rightarrow> job_store \<Rightarrow> go_error option \<times> job_store" where
  "updateJobsAndPods groupID ps js =
     (let m = jobPods ps [] in
      case putJobs groupID m js of
        (Some err, js1) \<Rightarrow> (Some err, js1)
      | (None, js1) \<Rightarrow>
          (None, deleteJobs groupID
             (filter (\<lambda>i. map_of m i = None) (map j_jobID (ListByGroup groupID js1))) js1))"

definition cleanupGroup ::
  "('s, 'w) env \<Rightarrow> string \<Rightarrow> ('s, 'w) orch \<Rightarrow> go_error option \<times> ('s, 'w) orch" where
  "cleanupGroup E groupID st =
     (let st1 = st\<lparr>jobs := deleteJobs groupID (map j_jobID (ListByGroup groupID (jobs st))) (jobs st)\<rparr>;
          st2 = (case gs_Get groupID (groups st1) of
                   Inl _ \<Rightarrow> st1
                 | Inr g \<Rightarrow> st1\<lparr>world := closeClients E (nodes (status g)) (world st1)\<rparr>)
      in case gs_Delete (lockStore E) groupID (groups st2) (meters st2) (locks st2) of
           (err, gs, m, s) \<Rightarrow> (err, st2\<lparr>groups := gs, meters := m, locks := s\<rparr>))"

definition ObserveGroupState ::
  "('s, 'w) env \<Rightarrow> string \<Rightarrow> ('s, 'w) orch \<Rightarrow> go_error option \<times> ('s, 'w) orch" where
  "ObserveGroupState E groupID st =
     (case getNodesForGroup E groupID (world st) of
        (Inl err, w) \<Rightarrow> (Some (Wrap (errorf [''failed to get nodes for group '', groupID]) err), st\<lparr>world := w\<rparr>)
      | (Inr groupNodes, w) \<Rightarrow>
          (case getPodsForGroup E groupID w of
             (Inl err, w') \<Rightarrow> (Some (Wrap (errorf [''failed to get pods for group '', groupID]) err), st\<lparr>world := w'\<rparr>)
           | (Inr ps, w') \<Rightarrow>
               let st1 = st\<lparr>world := w'\<rparr> in
               if length groupNodes = 0 \<and> length ps = 0 then
                 (case cleanupGroup E groupID st1 of
                    (Some err, st2) \<Rightarrow> (Some (Wrap (errorf [''failed to cleanup group '', groupID]) err), st2)
                  | (None, st2) \<Rightarrow> (None, st2))
               else
                 (case updateGroupNodes E groupID groupNodes st1 of
                    (Some err, st2) \<Rightarrow> (Some err, st2)
                  | (None, st2) \<Rightarrow>
                      (case updateJobsAndPods groupID ps (jobs st2) of
                         (r, js) \<Rightarrow> (r, st2\<lparr>jobs := js\<rparr>)))))"

subsection \<open>Informer events\<close>

text \<open>An informer hands over an object, or a tombstone that may hold one.\<close>

datatype 'o informer_obj =
    Object 'o
  | DeletedFinalStateUnknown "'o option"
  | OtherObject

definition TrimPrefix :: "string \<Rightarrow> string \<Rightarrow> string" where
  "TrimPrefix s p = (if HasPrefix s p then drop (length p) s else s)"

fun groupsOfLabels :: "string list \<Rightarrow> string list" where
  "groupsOfLabels [] = []"
| "groupsOfLabels (k # ks) =
     (if HasPrefix k NodeLabelPrefix \<and> TrimPrefix k NodeLabelPrefix \<noteq> []
      then TrimPrefix k NodeLabelPrefix # groupsOfLabels ks
      else groupsOfLabels ks)"

definition getGroupsFromNode :: "k8s_node \<Rightarrow> string list" where
  "getGroupsFromNode node = groupsOfLabels (map fst (node_labels node))"

definition getGroupFromPod :: "k8s_pod \<Rightarrow> string" where
  "getGroupFromPod pod = (case pod_labels pod of None \<Rightarrow> [] | Some ls \<Rightarrow> get_str ls PodLabelKey)"

fun decode :: "'o informer_obj \<Rightarrow> 'o option" where
  "decode (Object ob) = Some ob"
| "decode (DeletedFinalStateUnknown ob) = ob"
| "decode OtherObject = None"

definition enqueueNode :: "('s, 'w) env \<Rightarrow> k8s_node informer_obj \<Rightarrow> 'w \<Rightarrow> 'w" where
  "enqueueNode E obj w =
     (case decode obj of
        None \<Rightarrow> w
      | Some node \<Rightarrow> fold (wq_Add (workqueue E)) (getGroupsFromNode node) w)"

definition enqueuePod :: "('s, 'w) env \<Rightarrow> k8s_pod informer_obj \<Rightarrow> 'w \<Rightarrow> 'w" where
  "enqueuePod E obj w =
     (case decode obj of
        None \<Rightarrow> w
      | Some pod \<Rightarrow> if getGroupFromPod pod \<noteq> [] then wq_Add (workqueue E) (getGroupFromPod pod) w else w)"

text \<open>An update event enqueues the groups of the new object, then those of the old one.\<close>

definition nodeUpdate :: "('s, 'w) env \<Rightarrow> k8s_node informer_obj \<Rightarrow> k8s_node informer_obj \<Rightarrow> 'w \<Rightarrow> 'w" where
  "nodeUpdate E oldObj newObj w = enqueueNode E oldObj (enqueueNode E newObj w)"

definition podUpdate :: "('s, 'w) env \<Rightarrow> k8s_pod informer_obj \<Rightarrow> k8s_pod informer_obj \<Rightarrow> 'w \<Rightarrow> 'w" where
  "podUpdate E oldObj newObj w = enqueuePod E oldObj (enqueuePod E newObj w)"

subsection \<open>What one observation establishes\<close>

lemma js_Get_Inl: "js_Get g i js = Inl e \<Longrightarrow> e = Sentinel ErrNotFound"
  by (simp add: js_Get_def split: option.splits)

definition podsOf :: "string \<Rightarrow> PodInfo list \<Rightarrow> string list" where
  "podsOf i ps = map UID (filter (\<lambda>p. pi_JobID p = i) ps)"

lemma jobPods_lookup:
  "map_of (jobPods ps m) i =
     (if podsOf i ps = [] then map_of m i
      else Some ((case map_of m i of None \<Rightarrow> [] | Some us \<Rightarrow> us) @ podsOf i ps))"
  by (induction ps arbitrary: m) (auto simp: podsOf_def split: option.splits)

lemma jobPods_ok: "amap_ok m \<Longrightarrow> amap_ok (jobPods ps m)"
  by (induction ps arbitrary: m) auto

text \<open>The job the store has, or a new one, with its pods replaced.\<close>

definition refreshed :: "string \<Rightarrow> string \<Rightarrow> string list \<Rightarrow> job_store \<Rightarrow> job" where
  "refreshed g i us js = SetPods us (case js_Get g i js of Inl _ \<Rightarrow> NewJob g i | Inr j \<Rightarrow> j)"

lemma refreshed_ids:
  assumes "js_inv js" and "colon_free g"
  shows "j_groupID (refreshed g i us js) = g" and "j_jobID (refreshed g i us js) = i"
  using js_Get_ids[OF assms, of i] by (auto simp: refreshed_def split: sum.splits)

lemma putJobs_step:
  "putJobs g ((i, us) # rest) js = putJobs g rest (js_Put (refreshed g i us js) js)"
  by (auto simp: refreshed_def go_errors split: sum.splits dest: js_Get_Inl)

lemma putJobs_correct:
  assumes "js_inv js" and "colon_free g" and "amap_ok m"
  shows "fst (putJobs g m js) = None \<and> js_inv (snd (putJobs g m js)) \<and>
    (\<forall>h i. colon_free h \<longrightarrow> js_Get h i (snd (putJobs g m js)) =
       (if h = g \<and> map_of m i \<noteq> None then Inr (refreshed g i (the (map_of m i)) js) else js_Get h i js))"
  using assms
proof (induction m arbitrary: js)
  case (Cons x m)
  obtain i us where x: "x = (i, us)" by (cases x)
  let ?js = "js_Put (refreshed g i us js) js"
  note ids = refreshed_ids[OF Cons.prems(1,2)]
  have inv: "js_inv ?js" using Cons.prems ids by (simp add: jobs.inv_put)
  have get: "js_Get h k ?js = (if h = g \<and> k = i then Inr (refreshed g i us js) else js_Get h k js)"
    if "colon_free h" for h k
    using jobs.get_put[OF that, of "refreshed g i us js" k js] ids Cons.prems(2) by auto
  have i: "map_of m i = None" using Cons.prems(3) by (simp add: x map_of_eq_None_iff)
  have keep: "refreshed g k vs ?js = refreshed g k vs js" if "k \<noteq> i" for k vs
    using get[OF Cons.prems(2)] that by (simp add: refreshed_def)
  from Cons.IH[OF inv Cons.prems(2)] Cons.prems(3) show ?case
    by (auto simp: x putJobs_step get i keep simp del: putJobs.simps(2))
qed simp

lemma deleteJobs_eq: "deleteJobs g is js = jobs.del_all g is js"
  by (induction "is" arbitrary: js) simp_all

lemma listed_ids:
  assumes "js_inv js" and "colon_free g"
  shows "i \<in> j_jobID ` set (ListByGroup g js) \<longleftrightarrow> (\<exists>j. js_Get g i js = Inr j)"
proof
  assume "i \<in> j_jobID ` set (ListByGroup g js)"
  then obtain j where "j \<in> set (ListByGroup g js)" and "i = j_jobID j" by blast
  with ListByGroup_iff[OF assms, of j] show "\<exists>j. js_Get g i js = Inr j" by simp
next
  assume "\<exists>j. js_Get g i js = Inr j"
  then obtain j where j: "js_Get g i js = Inr j" ..
  from js_Get_ids[OF assms j] have i: "j_jobID j = i" by simp
  with j ListByGroup_iff[OF assms, of j] have "j \<in> set (ListByGroup g js)" by simp
  with i show "i \<in> j_jobID ` set (ListByGroup g js)" by (metis imageI)
qed

lemma updateJobsAndPods_correct:
  assumes "js_inv js" and "colon_free g"
  shows "fst (updateJobsAndPods g ps js) = None \<and> js_inv (snd (updateJobsAndPods g ps js)) \<and>
    (\<forall>h i. colon_free h \<longrightarrow> js_Get h i (snd (updateJobsAndPods g ps js)) =
       (if h \<noteq> g then js_Get h i js
        else if podsOf i ps = [] then Inl (Sentinel ErrNotFound)
        else Inr (refreshed g i (podsOf i ps) js)))"
proof -
  let ?m = "jobPods ps []"
  obtain js1 where p: "putJobs g ?m js = (None, js1)"
    using putJobs_correct[OF assms jobPods_ok[of "[]" ps]] by (cases "putJobs g ?m js") simp
  have c: "js_inv js1" "\<And>h i. colon_free h \<Longrightarrow> js_Get h i js1 =
       (if h = g \<and> map_of ?m i \<noteq> None then Inr (refreshed g i (the (map_of ?m i)) js) else js_Get h i js)"
    using putJobs_correct[OF assms jobPods_ok[of "[]" ps]] p by auto
  let ?del = "filter (\<lambda>i. map_of ?m i = None) (map j_jobID (ListByGroup g js1))"
  have r: "updateJobsAndPods g ps js = (None, jobs.del_all g ?del js1)"
    by (simp add: updateJobsAndPods_def Let_def p deleteJobs_eq)
  have mem: "i \<in> set ?del \<longleftrightarrow> map_of ?m i = None \<and> js_Get g i js1 \<noteq> Inl (Sentinel ErrNotFound)" for i
  proof -
    have "i \<in> j_jobID ` set (ListByGroup g js1) \<longleftrightarrow> (\<exists>j. js_Get g i js1 = Inr j)"
      by (rule listed_ids[OF c(1) assms(2)])
    also have "\<dots> \<longleftrightarrow> js_Get g i js1 \<noteq> Inl (Sentinel ErrNotFound)"
      by (cases "js_Get g i js1") (auto dest: js_Get_Inl)
    finally show ?thesis by auto
  qed
  have "js_Get h i (jobs.del_all g ?del js1) =
       (if h \<noteq> g then js_Get h i js
        else if podsOf i ps = [] then Inl (Sentinel ErrNotFound)
        else Inr (refreshed g i (podsOf i ps) js))" if "colon_free h" for h i
    using jobs.get_del_all[OF that assms(2), of i ?del js1] mem[of i] c(2)[OF that, of i]
    by (auto simp: jobPods_lookup simp del: set_filter set_map)
  with r c(1) show ?thesis by (simp add: jobs.del_all_inv)
qed

lemma updateJobsAndPods_list:
  assumes "js_inv js" and "colon_free g"
  shows "set (ListByGroup g (snd (updateJobsAndPods g ps js))) =
           {refreshed g i (podsOf i ps) js | i. podsOf i ps \<noteq> []}"
proof -
  let ?js = "snd (updateJobsAndPods g ps js)"
  note u = updateJobsAndPods_correct[OF assms, of ps]
  then have inv: "js_inv ?js" by blast
  have "j \<in> set (ListByGroup g ?js) \<longleftrightarrow> (\<exists>i. podsOf i ps \<noteq> [] \<and> j = refreshed g i (podsOf i ps) js)" for j
    using ListByGroup_iff[OF inv assms(2), of j] u assms(2) refreshed_ids(2)[OF assms]
    by (auto split: if_splits)
  then show ?thesis by blast
qed

subsection \<open>The invariant\<close>

lemma updateGroupNodes_inv:
  assumes "orch_inv st" and "updateGroupNodes E g ns st = (r, st')"
  shows "orch_inv st'"
proof -
  obtain now st0 where n: "Now E st = (now, st0)" by fastforce
  then have st0: "groups st0 = groups st" "jobs st0 = jobs st" "locks st0 = locks st"
    using Now_frame[of E st] by simp_all
  obtain c gs s where c: "GetOrCreate (lockStore E) now g (groups st0) (locks st0) = (c, gs, s)"
    by (metis prod.exhaust)
  have "gs_inv gs" using GetOrCreate_inv[OF _ c] assms(1) st0 by (simp add: orch_inv_def)
  moreover from this have "gs_inv (gs_modify g (\<lambda>g. g\<lparr>status := SetNodes ns (status g)\<rparr>) gs)"
    by (rule gs_inv_modify) (use \<open>gs_inv gs\<close> in \<open>auto dest: gs_inv_group\<close>)
  ultimately show ?thesis
    using assms n c st0 by (auto simp: updateGroupNodes_def Let_def orch_inv_def split: sum.splits)
qed

lemma deleteJobs_inv: "js_inv js \<Longrightarrow> js_inv (deleteJobs g is js)"
  by (simp add: deleteJobs_eq jobs.del_all_inv)

lemma cleanupGroup_inv:
  assumes "orch_inv st" and "cleanupGroup E g st = (r, st')"
  shows "orch_inv st'"
  using assms
  by (auto simp: cleanupGroup_def Let_def orch_inv_def deleteJobs_inv split: prod.splits sum.splits
      dest: gs_Delete_inv[rotated])

lemma ObserveGroupState_inv:
  assumes "orch_inv st" and "colon_free g" and "ObserveGroupState E g st = (r, st')"
  shows "orch_inv st'"
proof -
  have w: "orch_inv (st\<lparr>world := w\<rparr>)" for w using assms(1) by (rule orch_inv_cong) simp_all
  have u: "orch_inv (st2\<lparr>jobs := snd (updateJobsAndPods g ps (jobs st2))\<rparr>)" if "orch_inv st2" for st2 :: "('a, 'b) orch" and ps
    using that updateJobsAndPods_correct[of "jobs st2" g ps] assms(2) by (simp add: orch_inv_def)
  obtain c w1 where c: "getNodesForGroup E g (world st) = (c, w1)" by fastforce
  obtain d w2 where d: "getPodsForGroup E g w1 = (d, w2)" by fastforce
  show ?thesis
  proof (cases "isl c \<or> isl d")
    case True
    with assms(3) c d w show ?thesis
      by (auto simp: ObserveGroupState_def split: sum.splits)
  next
    case False
    then obtain ns ps where ns: "c = Inr ns" "d = Inr ps" by (cases c; cases d) auto
    obtain r1 st1 where k: "cleanupGroup E g (st\<lparr>world := w2\<rparr>) = (r1, st1)" by fastforce
    obtain r2 st2 where n: "updateGroupNodes E g ns (st\<lparr>world := w2\<rparr>) = (r2, st2)" by fastforce
    show ?thesis
      using assms(3) c d ns k n cleanupGroup_inv[OF w k] updateGroupNodes_inv[OF w n] u[of st2 ps]
      by (cases r1; cases r2) (auto simp: ObserveGroupState_def Let_def split: prod.splits if_splits)
  qed
qed

subsection \<open>Properties\<close>

lemma groupsOfLabels_set: "set (groupsOfLabels ks) = {g. g \<noteq> [] \<and> NodeLabelPrefix @ g \<in> set ks}"
proof (induction ks)
  case (Cons k ks)
  show ?case
  proof (cases "HasPrefix k NodeLabelPrefix")
    case True
    then obtain t where k: "k = NodeLabelPrefix @ t" unfolding HasPrefix_iff by blast
    then have "TrimPrefix k NodeLabelPrefix = t" by (simp add: TrimPrefix_def HasPrefix_def)
    with True Cons k show ?thesis by auto
  next
    case False
    then have "k \<noteq> NodeLabelPrefix @ g" for g unfolding HasPrefix_iff by blast
    with False Cons show ?thesis by auto
  qed
qed simp

text \<open>A node event puts exactly the groups the node is labelled with on the work queue: a group
  is among them when the node carries the label of that group, whatever its value, and the group
  name is not empty.\<close>

theorem node_event_groups:
  "set (getGroupsFromNode node) = {g. g \<noteq> [] \<and> NodeLabelPrefix @ g \<in> fst ` set (node_labels node)}"
  by (simp add: getGroupsFromNode_def groupsOfLabels_set)

text \<open>
  After the pods of a group were observed, the job store holds for that group exactly the jobs
  that have pods: a lookup finds a job iff it has a pod, with exactly its pods in the order they
  were listed; a job that was known keeps its context states and its backend configuration, a
  new one starts without; and the jobs of other groups are untouched. The observation cannot
  fail.\<close>

theorem observed_jobs_match_pods:
  assumes "js_inv js" and "colon_free g" and "colon_free h"
    and "updateJobsAndPods g ps js = (r, js')"
  shows "r = None \<and> js_inv js' \<and> (h \<noteq> g \<longrightarrow> js_Get h i js' = js_Get h i js) \<and>
    (podsOf i ps = [] \<longrightarrow> js_Get g i js' = Inl (Sentinel ErrNotFound)) \<and>
    (podsOf i ps \<noteq> [] \<longrightarrow> (\<exists>j. js_Get g i js' = Inr j \<and> pods j = podsOf i ps \<and> j_jobID j = i \<and>
       (case js_Get g i js of
          Inl _ \<Rightarrow> contextState j = [] \<and> backendConfig j = None
        | Inr old \<Rightarrow> contextState j = contextState old \<and> backendConfig j = backendConfig old)))"
  using updateJobsAndPods_correct[OF assms(1,2), of ps] refreshed_ids(2)[OF assms(1,2), of i "podsOf i ps"] assms
  by (auto simp: refreshed_def SetPods_def NewJob_def split: sum.splits)

theorem observed_jobs_match_pods_witness:
  "let js = js_Put (NewJob ''g'' ''old'') []; ps = [\<lparr>UID = ''u1'', pi_JobID = ''a''\<rparr>, \<lparr>UID = ''u2'', pi_JobID = ''a''\<rparr>];
       js' = snd (updateJobsAndPods ''g'' ps js)
   in js_Get ''g'' ''old'' js' = Inl (Sentinel ErrNotFound) \<and>
      (\<exists>j. js_Get ''g'' ''a'' js' = Inr j \<and> pods j = [''u1'', ''u2''])"
proof -
  let ?js = "js_Put (NewJob ''g'' ''old'') []"
  let ?ps = "[\<lparr>UID = ''u1'', pi_JobID = ''a''\<rparr>, \<lparr>UID = ''u2'', pi_JobID = ''a''\<rparr>]"
  have g: "colon_free ''g''" by code_simp
  have inv: "js_inv ?js" using g by (simp add: js_inv_Put js_inv_Nil)
  obtain r js' where u: "updateJobsAndPods ''g'' ?ps ?js = (r, js')" by fastforce
  have p: "podsOf ''old'' ?ps = []" "podsOf ''a'' ?ps = [''u1'', ''u2'']" by code_simp+
  show ?thesis
    using observed_jobs_match_pods[OF inv g g u, of "''old''"] observed_jobs_match_pods[OF inv g g u, of "''a''"] u p
    by (auto simp: Let_def)
qed

lemma ListByGroup_deleted:
  assumes "js_inv js" and "colon_free g"
  shows "ListByGroup g (deleteJobs g (map j_jobID (ListByGroup g js)) js) = []"
  unfolding deleteJobs_eq by (rule jobs.list_del_all[OF assms]) auto

lemma spec_Delete_releases:
  assumes "lock_store ops holder" and "spec_Delete (Some ops) g sp s = (None, sp', s')"
    and "lockingJob sp = holder s g"
  shows "holder s' g = []"
proof (cases "lockingJob sp = []")
  case False
  with assms(2) have "spec_unlock (Some ops) g (lockingJob sp) sp s = (None, sp', s')" by (simp add: spec_Delete_def)
  from lock_store.spec_unlock_holder[OF assms(1) this] show ?thesis by simp
qed (use assms in \<open>auto simp: spec_Delete_def\<close>)

text \<open>
  Cleaning up a group that has neither nodes nor pods removes its jobs, the group and its
  queue-depth series, and releases the lock its holder had, so that a group of the same name
  starts free; if the lock cannot be released, the group stays in the store, to be cleaned up
  again.\<close>

theorem cleanup_group_outcome:
  assumes "lock_store ops holder" and "lockStore E = Some ops" and "orch_inv st" and "colon_free g"
    and "gs_Get g (groups st) = Inr grp" and "lockingJob (spec grp) = holder (locks st) g"
    and "cleanupGroup E g st = (r, st')"
  shows "ListByGroup g (jobs st') = [] \<and>
    (case r of
       None \<Rightarrow> gs_Get g (groups st') = Inl (Sentinel ErrNotFound) \<and>
         map_of (QueueDepth (meters st')) g = None \<and> holder (locks st') g = []
     | Some e \<Rightarrow> gs_Get g (groups st') = Inr grp)"
proof -
  let ?js = "deleteJobs g (map j_jobID (ListByGroup g (jobs st))) (jobs st)"
  have grp: "map_of (groups st) g = Some grp" using assms(5) by (simp add: gs_Get_Inr_iff)
  then have id: "gid grp = g" using gs_inv_group assms(3) unfolding orch_inv_def by blast
  have l: "ListByGroup g ?js = []" using ListByGroup_deleted assms(3,4) by (simp add: orch_inv_def)
  obtain d sp s where d: "spec_Delete (Some ops) g (spec grp) (locks st) = (d, sp, s)" by (metis prod.exhaust)
  show ?thesis
  proof (cases d)
    case None
    with spec_Delete_releases[OF assms(1) _ assms(6)] d have "holder s g = []" by simp
    with None d l assms(2,5,7) grp id show ?thesis
      by (auto simp: cleanupGroup_def gs_Delete_def group_Delete_def CleanupGroup_def gs_Get_def Let_def)
  next
    case (Some e)
    with d have "sp = spec grp"
      by (auto simp: spec_Delete_def split: if_splits elim: spec_unlock_cases)
    with Some d l assms(2,5,7) grp id show ?thesis
      by (auto simp: cleanupGroup_def gs_Delete_def group_Delete_def gs_Get_def Let_def)
  qed
qed

theorem cleanup_group_outcome_witness:
  "case cleanupGroup idle_env ''g'' held_state of (r, st') \<Rightarrow>
     r = None \<and> ListByGroup ''g'' (jobs st') = [] \<and> get_str (locks st') ''g'' = []"
proof -
  have g: "colon_free ''g''" by code_simp
  have ls: "lockStore idle_env = Some MemLockStore" by (simp add: idle_env_def)
  have grp: "gs_Get ''g'' (groups held_state) = Inr held_group" by code_simp
  have l: "lockingJob (spec held_group) = get_str (locks held_state) ''g''" by code_simp
  obtain r st' where c: "cleanupGroup idle_env ''g'' held_state = (r, st')" by fastforce
  have "fst (cleanupGroup idle_env ''g'' held_state) = None" by code_simp
  with cleanup_group_outcome[OF mem.lock_store_axioms ls held_state_inv g grp l c] c show ?thesis by simp
qed

end
