(* ===== verification/Controller.thy ===== *)
theory Controller
  imports Infrastructure
begin

text \<open>
  The decisions of the reconciliation controller (\<^verbatim>\<open>controller/controller.go\<close>) that read
  and write the orchestrator's state: observing the agents, deducing the active job after a
  restart, holding a promotion until the last grant settled, deciding which job is loaded and
  publishing the group status. The passes over the nodes are in the theory of the node passes.
\<close>

definition translateJobState :: "JobState \<Rightarrow> ContextState" where
  "translateJobState s =
     (case s of
        JOB_STATE_IDLE \<Rightarrow> STATE_IDLE
      | JOB_STATE_RUNNING \<Rightarrow> STATE_RUNNING
      | JOB_STATE_TRANSITIONING \<Rightarrow> STATE_TRANSITIONING
      | JOB_STATE_SAVED \<Rightarrow> STATE_SAVED
      | JOB_STATE_FAULTED \<Rightarrow> STATE_FAULTED
      | _ \<Rightarrow> STATE_UNSPECIFIED)"

subsection \<open>Observing the agents\<close>

fun observe_statuses ::
  "string \<Rightarrow> string \<Rightarrow> JobStatus list \<Rightarrow> job_store \<Rightarrow> go_error option \<times> job_store" where
  "observe_statuses groupID nodeName [] js = (None, js)"
| "observe_statuses groupID nodeName (s # ss) js =
     (case js_Get groupID (js_job_id s) js of
        Inl err \<Rightarrow>
          if errors_is err ErrNotFound then observe_statuses groupID nodeName ss js
          else (Some (Wrap (errorf [''failed to get job '', js_job_id s, '' from store'']) err), js)
      | Inr _ \<Rightarrow>
          (case js_UpdateContextState groupID (js_job_id s) nodeName (translateJobState (js_state s)) js of
             (Some err, js') \<Rightarrow>
               (Some (Wrap (errorf [''failed to update job context state for job '', js_job_id s, '' on node '', nodeName]) err), js')
           | (None, js') \<Rightarrow> observe_statuses groupID nodeName ss js'))"

definition observeNodeJobContext ::
  "('s, 'w) env \<Rightarrow> string \<Rightarrow> string \<Rightarrow> ('s, 'w) orch \<Rightarrow> go_error option \<times> ('s, 'w) orch" where
  "observeNodeJobContext E groupID nodeName st =
     (case as_GetStatus (agents E) nodeName (world st) of
        (Inl err, w) \<Rightarrow> (None, st\<lparr>world := w\<rparr>)
      | (Inr statuses, w) \<Rightarrow>
          (case observe_statuses groupID nodeName statuses (jobs st) of
             (r, js) \<Rightarrow> (r, st\<lparr>world := w, jobs := js\<rparr>)))"

fun observe_nodes ::
  "('s, 'w) env \<Rightarrow> string \<Rightarrow> string list \<Rightarrow> ('s, 'w) orch \<Rightarrow> go_error option \<times> ('s, 'w) orch" where
  "observe_nodes E groupID [] st = (None, st)"
| "observe_nodes E groupID (n # ns) st =
     (case observeNodeJobContext E groupID n st of
        (Some err, st') \<Rightarrow> (Some err, st')
      | (None, st') \<Rightarrow> observe_nodes E groupID ns st')"

definition ObserveJobContext ::
  "('s, 'w) env \<Rightarrow> string \<Rightarrow> ('s, 'w) orch \<Rightarrow> go_error option \<times> ('s, 'w) orch" where
  "ObserveJobContext E groupID st =
     (case gs_Get groupID (groups st) of
        Inl err \<Rightarrow> (Some (Wrap (errorf [''failed to get group '', groupID, '' from store'']) err), st)
      | Inr g \<Rightarrow> observe_nodes E groupID (nodes (status g)) st)"

subsection \<open>Which job is loaded\<close>

text \<open>\<^verbatim>\<open>nodeRunningJob\<close>, built over all jobs and all their context states.\<close>

fun mark_running ::
  "string \<Rightarrow> (string \<times> ContextState) list \<Rightarrow> (string \<times> string) list \<Rightarrow> go_error + (string \<times> string) list" where
  "mark_running jobID [] m = Inr m"
| "mark_running jobID ((node, state) # cs) m =
     (if state = STATE_RUNNING then
        (case map_of m node of
           Some current \<Rightarrow>
             if current \<noteq> jobID
             then Inl (Text (errorf [''impossible state: multiple jobs running on node '', node, '': '', current, '' and '', jobID]))
             else mark_running jobID cs (AList.update node jobID m)
         | None \<Rightarrow> mark_running jobID cs (AList.update node jobID m))
      else mark_running jobID cs m)"

fun nodeRunningJob :: "job list \<Rightarrow> (string \<times> string) list \<Rightarrow> go_error + (string \<times> string) list" where
  "nodeRunningJob [] m = Inr m"
| "nodeRunningJob (j # js) m =
     (case mark_running (j_jobID j) (contextState j) m of
        Inl err \<Rightarrow> Inl err
      | Inr m' \<Rightarrow> nodeRunningJob js m')"

fun loaded_on :: "(string \<times> string) list \<Rightarrow> (string \<times> ContextState) list \<Rightarrow> string list \<Rightarrow> bool" where
  "loaded_on running cs [] = True"
| "loaded_on running cs (node # ns) =
     (case ctx_at cs node of
        STATE_RUNNING \<Rightarrow> loaded_on running cs ns
      | STATE_UNSPECIFIED \<Rightarrow> get_str running node = [] \<and> loaded_on running cs ns
      | STATE_IDLE \<Rightarrow> get_str running node = [] \<and> loaded_on running cs ns
      | _ \<Rightarrow> False)"

definition isJobLoaded :: "job_store \<Rightarrow> group \<Rightarrow> string \<Rightarrow> go_error + bool" where
  "isJobLoaded js g jobID =
     (if jobID = [] then Inr False
      else if length (nodes (status g)) = 0 then Inr False
      else
        (case nodeRunningJob (ListByGroup (gid g) js) [] of
           Inl err \<Rightarrow> Inl err
         | Inr running \<Rightarrow>
             (case js_Get (gid g) jobID js of
                Inl err \<Rightarrow>
                  if errors_is err ErrNotFound
                  then Inr (loaded_on running (contextState (NewJob (gid g) jobID)) (nodes (status g)))
                  else Inl (Wrap (errorf [''failed to get job '', jobID]) err)
              | Inr target \<Rightarrow> Inr (loaded_on running (contextState target) (nodes (status g))))))"

subsection \<open>Deducing the active job after a restart\<close>

text \<open>\<open>Inr None\<close>: at least two jobs are loaded; \<open>Inr (Some j)\<close>: the candidate, if not empty.\<close>

fun deduce :: "job_store \<Rightarrow> group \<Rightarrow> job list \<Rightarrow> string \<Rightarrow> go_error + string option" where
  "deduce js g [] candidate = Inr (Some candidate)"
| "deduce js g (j # rest) candidate =
     (case isJobLoaded js g (j_jobID j) of
        Inl err \<Rightarrow> Inl (Wrap (errorf [''failed to check if job '', j_jobID j, '' is loaded'']) err)
      | Inr loaded \<Rightarrow>
          if loaded then
            if candidate \<noteq> [] then Inr None else deduce js g rest (j_jobID j)
          else deduce js g rest candidate)"

definition tryDeduceActiveJob :: "job_store \<Rightarrow> group \<Rightarrow> go_error option \<times> group" where
  "tryDeduceActiveJob js g =
     (if lockingJob (spec g) \<noteq> [] \<or> activeJob (spec g) \<noteq> [] then (None, g)
      else
        (case deduce js g (ListByGroup (gid g) js) [] of
           Inl err \<Rightarrow> (Some err, g)
         | Inr None \<Rightarrow> (None, g)
         | Inr (Some candidate) \<Rightarrow>
             if candidate \<noteq> [] then (None, g\<lparr>spec := SetActiveJob candidate (spec g)\<rparr>) else (None, g)))"

subsection \<open>Holding a promotion until the last grant settled\<close>

definition clearSettle :: "string \<Rightarrow> ('s, 'w) orch \<Rightarrow> ('s, 'w) orch" where
  "clearSettle groupID st = st\<lparr>settleSince := AList.delete groupID (settleSince st)\<rparr>"

definition idleNode :: "(string \<times> ContextState) list \<Rightarrow> string list \<Rightarrow> string" where
  "idleNode cs ns = (case filter (\<lambda>n. ctx_at cs n = STATE_IDLE) ns of [] \<Rightarrow> [] | n # _ \<Rightarrow> n)"

definition settle_entry ::
  "('s, 'w) env \<Rightarrow> string \<Rightarrow> string \<Rightarrow> ('s, 'w) orch \<Rightarrow> settleEntry \<times> ('s, 'w) orch" where
  "settle_entry E groupID active st =
     (case map_of (settleSince st) groupID of
        Some entry \<Rightarrow>
          if se_jobID entry \<noteq> active then
            (case Now E st of (t, st') \<Rightarrow>
               let entry' = \<lparr>se_jobID = active, se_since = t\<rparr>
               in (entry', st'\<lparr>settleSince := AList.update groupID entry' (settleSince st')\<rparr>))
          else (entry, st)
      | None \<Rightarrow>
          (case Now E st of (t, st') \<Rightarrow>
             let entry' = \<lparr>se_jobID = active, se_since = t\<rparr>
             in (entry', st'\<lparr>settleSince := AList.update groupID entry' (settleSince st')\<rparr>)))"

definition waitForGrantSettlement ::
  "('s, 'w) env \<Rightarrow> group \<Rightarrow> ('s, 'w) orch \<Rightarrow> go_error option \<times> ('s, 'w) orch" where
  "waitForGrantSettlement E g st =
     (let groupID = gid g; active = activeJob (spec g) in
      if active = [] \<or> lockingJob (spec g) \<noteq> [] \<or> Len (queue (spec g)) = 0
      then (None, clearSettle groupID st)
      else
        (case js_Get groupID active (jobs st) of
           Inl err \<Rightarrow>
             if errors_is err ErrNotFound then (None, clearSettle groupID st)
             else (Some (Wrap (errorf [''failed to get active job '', active]) err), st)
         | Inr job \<Rightarrow>
             let node = idleNode (contextState job) (nodes (status g)) in
             if node = [] then (None, clearSettle groupID st)
             else
               (case settle_entry E groupID active st of (entry, st1) \<Rightarrow>
                  (case Now E st1 of (t, st2) \<Rightarrow>
                     if t - se_since entry > SettleTimeout E then (None, clearSettle groupID st2)
                     else
                       (Some (Text (errorf [''promotion pending: active job '', active, '' holds an unconsumed grant (IDLE on node '', node, ''); waiting for it to start or settle''])), st2)))))"

subsection \<open>Group status\<close>

definition determineGroupState :: "string \<Rightarrow> string \<Rightarrow> string \<Rightarrow> GroupState" where
  "determineGroupState lockingJobID activeJobID loadedJobID =
     (let activeJobLoaded = (activeJobID \<noteq> [] \<and> activeJobID = loadedJobID) in
      if lockingJobID \<noteq> [] then
        if activeJobLoaded then GROUP_STATE_LOCKED else GROUP_STATE_SWITCHING
      else if activeJobID \<noteq> [] then GROUP_STATE_IDLE_YIELDED
      else GROUP_STATE_IDLE)"

definition updateGroupStatus :: "int \<Rightarrow> job_store \<Rightarrow> group \<Rightarrow> go_error option \<times> group" where
  "updateGroupStatus now js g =
     (let activeJobID = activeJob (spec g);
          loaded = (if activeJobID \<noteq> [] then isJobLoaded js g activeJobID else Inr False)
      in case loaded of
           Inl err \<Rightarrow> (Some (Wrap (errorf [''failed to check if active job '', activeJobID, '' is loaded'']) err), g)
         | Inr activeJobLoaded \<Rightarrow>
             let stat1 = SetLoadedJob (if activeJobLoaded then activeJobID else []) (status g);
                 state = determineGroupState (lockingJob (spec g)) activeJobID (loadedJob stat1)
             in (None, g\<lparr>status := SetState now state stat1\<rparr>))"

subsection \<open>Facts about the decisions\<close>

definition runs_on :: "job \<Rightarrow> string \<Rightarrow> bool" where
  "runs_on j n \<longleftrightarrow> (n, STATE_RUNNING) \<in> set (contextState j)"

lemma ctx_at_running: "ctx_at cs n = STATE_RUNNING \<Longrightarrow> (n, STATE_RUNNING) \<in> set cs"
  by (auto simp: ctx_at_def split: option.splits dest: map_of_SomeD)

lemma mark_running_Inl:
  "mark_running i cs m = Inl e \<Longrightarrow> \<exists>n k. map_of m n = Some k \<and> k \<noteq> i \<and> (n, STATE_RUNNING) \<in> set cs"
  by (induction i cs m rule: mark_running.induct) (fastforce split: option.splits if_splits)+

lemma mark_running_Inr:
  "mark_running i cs m = Inr m' \<Longrightarrow>
     map_of m' n = Some k \<longleftrightarrow> map_of m n = Some k \<or> k = i \<and> (n, STATE_RUNNING) \<in> set cs"
  by (induction i cs m rule: mark_running.induct) (auto split: option.splits if_splits)

text \<open>Who is known to run on a node, from the table so far and the jobs still to visit.\<close>

definition known_on :: "job list \<Rightarrow> (string \<times> string) list \<Rightarrow> string \<Rightarrow> string \<Rightarrow> bool" where
  "known_on js m n k \<longleftrightarrow> map_of m n = Some k \<or> (\<exists>j \<in> set js. j_jobID j = k \<and> runs_on j n)"

lemma known_on_step:
  "mark_running (j_jobID j) (contextState j) m = Inr m' \<Longrightarrow> known_on (j # js) m = known_on js m'"
  by (auto simp: known_on_def runs_on_def fun_eq_iff mark_running_Inr)

lemma nodeRunningJob_Inr:
  "nodeRunningJob js m = Inr m' \<Longrightarrow> map_of m' n = Some k \<longleftrightarrow> known_on js m n k"
proof (induction js arbitrary: m)
  case (Cons j js)
  then obtain m1 where m1: "mark_running (j_jobID j) (contextState j) m = Inr m1"
    by (auto split: sum.splits)
  with Cons show ?case by (simp add: known_on_step)
qed (simp add: known_on_def)

lemma nodeRunningJob_Inl:
  "nodeRunningJob js m = Inl e \<Longrightarrow> \<exists>n k k'. k \<noteq> k' \<and> known_on js m n k \<and> known_on js m n k'"
proof (induction js arbitrary: m)
  case (Cons j js)
  show ?case
  proof (cases "mark_running (j_jobID j) (contextState j) m")
    case (Inl e')
    then obtain n k where "map_of m n = Some k" "k \<noteq> j_jobID j" "(n, STATE_RUNNING) \<in> set (contextState j)"
      using mark_running_Inl[OF Inl] by blast
    then show ?thesis by (auto simp: known_on_def runs_on_def)
  next
    case (Inr m1)
    with Cons show ?thesis by (simp add: known_on_step)
  qed
qed simp

text \<open>No two jobs of the list run on the same node.\<close>

definition exclusive :: "job list \<Rightarrow> bool" where
  "exclusive js \<longleftrightarrow> (\<forall>j \<in> set js. \<forall>k \<in> set js. \<forall>n. runs_on j n \<and> runs_on k n \<longrightarrow> j_jobID j = j_jobID k)"

lemma nodeRunningJob_exclusive: "isl (nodeRunningJob js []) \<longleftrightarrow> \<not> exclusive js"
proof (cases "nodeRunningJob js []")
  case (Inl e)
  from nodeRunningJob_Inl[OF this] Inl show ?thesis by (fastforce simp: exclusive_def known_on_def)
next
  case (Inr m)
  have "exclusive js"
    unfolding exclusive_def
  proof (intro ballI allI impI)
    fix j k n assume "j \<in> set js" "k \<in> set js" "runs_on j n \<and> runs_on k n"
    then have "map_of m n = Some (j_jobID j)" "map_of m n = Some (j_jobID k)"
      using nodeRunningJob_Inr[OF Inr, of n] by (auto simp: known_on_def)
    then show "j_jobID j = j_jobID k" by simp
  qed
  with Inr show ?thesis by simp
qed

lemma loaded_on_iff:
  "loaded_on running cs ns \<longleftrightarrow> (\<forall>n \<in> set ns. ctx_at cs n = STATE_RUNNING \<or>
     ctx_at cs n \<in> {STATE_UNSPECIFIED, STATE_IDLE} \<and> get_str running n = [])"
  by (induction ns) (auto split: ContextState.splits)

text \<open>The context states of a job of the group; a job without pods has none.\<close>

definition context_of :: "job_store \<Rightarrow> string \<Rightarrow> string \<Rightarrow> (string \<times> ContextState) list" where
  "context_of js g i = (case js_Get g i js of Inl _ \<Rightarrow> [] | Inr j \<Rightarrow> contextState j)"

definition named_jobs :: "string \<Rightarrow> job_store \<Rightarrow> bool" where
  "named_jobs g js \<longleftrightarrow> (\<forall>j \<in> set (ListByGroup g js). j_jobID j \<noteq> [])"

text \<open>One and only one job of the group is loaded.\<close>

definition uniquely_loaded :: "job_store \<Rightarrow> group \<Rightarrow> string \<Rightarrow> bool" where
  "uniquely_loaded js g i \<longleftrightarrow>
    i \<in> j_jobID ` set (ListByGroup (gid g) js) \<and> isJobLoaded js g i = Inr True \<and>
    (\<forall>k \<in> j_jobID ` set (ListByGroup (gid g) js). isJobLoaded js g k = Inr True \<longrightarrow> k = i)"

definition loadable :: "job_store \<Rightarrow> group \<Rightarrow> string \<Rightarrow> bool" where
  "loadable js g i \<longleftrightarrow> (\<forall>n \<in> set (nodes (status g)).
     ctx_at (context_of js (gid g) i) n = STATE_RUNNING \<or>
     ctx_at (context_of js (gid g) i) n \<in> {STATE_UNSPECIFIED, STATE_IDLE} \<and>
       (\<forall>j \<in> set (ListByGroup (gid g) js). \<not> runs_on j n))"

lemma isJobLoaded_correct:
  assumes "named_jobs (gid g) js" and "i \<noteq> []" and "nodes (status g) \<noteq> []"
  shows "(exclusive (ListByGroup (gid g) js) \<and> isJobLoaded js g i = Inr (loadable js g i)) \<or>
         (\<not> exclusive (ListByGroup (gid g) js) \<and> isl (isJobLoaded js g i))"
proof (cases "nodeRunningJob (ListByGroup (gid g) js) []")
  case (Inl e)
  with nodeRunningJob_exclusive[of "ListByGroup (gid g) js"] assms show ?thesis
    by (simp add: isJobLoaded_def)
next
  case (Inr m)
  have free: "get_str m n = [] \<longleftrightarrow> (\<forall>j \<in> set (ListByGroup (gid g) js). \<not> runs_on j n)" for n
    using nodeRunningJob_Inr[OF Inr, of n] assms(1)
    by (cases "map_of m n") (auto simp: get_str_def known_on_def named_jobs_def)
  have "isJobLoaded js g i = Inr (loaded_on m (context_of js (gid g) i) (nodes (status g)))"
    using assms Inr by (auto simp: isJobLoaded_def context_of_def NewJob_def go_errors split: sum.splits dest: js_Get_Inl)
  with nodeRunningJob_exclusive[of "ListByGroup (gid g) js"] Inr show ?thesis
    by (simp add: loaded_on_iff free loadable_def)
qed

lemma isJobLoaded_nodes: "nodes (status g) = [] \<Longrightarrow> isJobLoaded js g i = Inr False"
  by (simp add: isJobLoaded_def)

lemma isJobLoaded_True:
  assumes "isJobLoaded js g i = Inr True" and "named_jobs (gid g) js"
  shows "i \<noteq> [] \<and> nodes (status g) \<noteq> [] \<and> exclusive (ListByGroup (gid g) js) \<and> loadable js g i"
proof -
  have "i \<noteq> []" "nodes (status g) \<noteq> []"
    using assms(1) by (auto simp: isJobLoaded_def split: if_splits)
  with isJobLoaded_correct[OF assms(2) this] assms(1) show ?thesis by auto
qed

text \<open>C14: a job counts as loaded exactly when, on every node of the group, it is running, or it has no
  accelerator context there (unknown or idle) and no job of the group is running there; when two
  jobs are running on the same node the check reports an error, whatever job was asked for. A
  job without pods has no context anywhere, so it is loaded as soon as the nodes are free.\<close>

theorem is_job_loaded_iff:
  assumes "named_jobs (gid g) js" and "i \<noteq> []" and "nodes (status g) \<noteq> []"
  shows "case isJobLoaded js g i of
      Inl e \<Rightarrow> \<exists>j \<in> set (ListByGroup (gid g) js). \<exists>k \<in> set (ListByGroup (gid g) js).
        \<exists>n. runs_on j n \<and> runs_on k n \<and> j_jobID j \<noteq> j_jobID k
    | Inr loaded \<Rightarrow> exclusive (ListByGroup (gid g) js) \<and> (loaded \<longleftrightarrow> (\<forall>n \<in> set (nodes (status g)).
        ctx_at (context_of js (gid g) i) n = STATE_RUNNING \<or>
        ctx_at (context_of js (gid g) i) n \<in> {STATE_UNSPECIFIED, STATE_IDLE} \<and>
          (\<forall>j \<in> set (ListByGroup (gid g) js). \<not> runs_on j n)))"
  using isJobLoaded_correct[OF assms]
  by (cases "isJobLoaded js g i") (auto simp: exclusive_def loadable_def)

theorem is_job_loaded_iff_witness:
  "case isJobLoaded (jobs held_state) held_group ''b'' of
     Inl e \<Rightarrow> False
   | Inr loaded \<Rightarrow> exclusive (ListByGroup ''g'' (jobs held_state)) \<and> loaded = False"
proof -
  have n: "named_jobs (gid held_group) (jobs held_state)" and ne: "nodes (status held_group) \<noteq> []"
    and g: "gid held_group = ''g''"
    and l: "isJobLoaded (jobs held_state) held_group ''b'' = Inr False" by code_simp+
  from is_job_loaded_iff[OF n _ ne, of "''b''"] l g show ?thesis by simp
qed

text \<open>
  when the controller finds the active job loaded, no other job of the group is running on any
  node of the group.\<close>

theorem loaded_job_runs_alone:
  assumes "named_jobs (gid g) js" and "js_inv js" and "colon_free (gid g)"
    and "isJobLoaded js g i = Inr True"
    and "j \<in> set (ListByGroup (gid g) js)" and "n \<in> set (nodes (status g))" and "runs_on j n"
  shows "j_jobID j = i"
proof -
  note l = isJobLoaded_True[OF assms(4,1)]
  with assms(5-7) have "ctx_at (context_of js (gid g) i) n = STATE_RUNNING"
    by (auto simp: loadable_def)
  then have r: "(n, STATE_RUNNING) \<in> set (context_of js (gid g) i)" by (rule ctx_at_running)
  then obtain t where t: "js_Get (gid g) i js = Inr t"
    by (cases "js_Get (gid g) i js") (auto simp: context_of_def)
  with js_Get_ids[OF assms(2,3) t] have i: "j_jobID t = i" by simp
  then have "t \<in> set (ListByGroup (gid g) js)" using ListByGroup_iff[OF assms(2,3), of t] t by simp
  moreover have "runs_on t n" using r t by (simp add: context_of_def runs_on_def)
  ultimately show ?thesis using l assms(5,7) i unfolding exclusive_def by blast
qed

theorem loaded_job_runs_alone_witness:
  "let j = hd (ListByGroup ''g'' (jobs held_state)) in runs_on j ''n1'' \<and> j_jobID j = ''a''"
proof -
  let ?j = "hd (ListByGroup ''g'' (jobs held_state))"
  have j: "?j \<in> set (ListByGroup (gid held_group) (jobs held_state))" "runs_on ?j ''n1''" by code_simp+
  have n: "named_jobs (gid held_group) (jobs held_state)" and c: "colon_free (gid held_group)"
    and g: "gid held_group = ''g''" and m: "''n1'' \<in> set (nodes (status held_group))"
    and l: "isJobLoaded (jobs held_state) held_group ''a'' = Inr True" by code_simp+
  have inv: "js_inv (jobs held_state)" using held_state_inv by (simp add: orch_inv_def)
  show ?thesis using loaded_job_runs_alone[OF n inv c l j(1) m j(2)] j(2) by simp
qed

subsection \<open>Deduction\<close>

lemma deduce_step:
  "isJobLoaded js g (j_jobID j) = Inr b \<Longrightarrow>
     deduce js g (j # rest) c = (if b then if c \<noteq> [] then Inr None else deduce js g rest (j_jobID j) else deduce js g rest c)"
  by simp

lemma deduce_correct:
  assumes "\<And>j. j \<in> set l \<Longrightarrow> isJobLoaded js g (j_jobID j) = Inr (P j) \<and> j_jobID j \<noteq> []"
  shows "deduce js g l c =
     (if c \<noteq> [] then if filter P l = [] then Inr (Some c) else Inr None
      else (case filter P l of [] \<Rightarrow> Inr (Some []) | [j] \<Rightarrow> Inr (Some (j_jobID j)) | _ \<Rightarrow> Inr None))"
  using assms
proof (induction l arbitrary: c)
  case (Cons j l)
  then have s: "isJobLoaded js g (j_jobID j) = Inr (P j)" and ne: "j_jobID j \<noteq> []" by auto
  have IH: "deduce js g l c = (if c \<noteq> [] then if filter P l = [] then Inr (Some c) else Inr None
      else (case filter P l of [] \<Rightarrow> Inr (Some []) | [j] \<Rightarrow> Inr (Some (j_jobID j)) | _ \<Rightarrow> Inr None))" for c
    by (rule Cons.IH) (use Cons.prems in auto)
  show ?case
    unfolding deduce_step[OF s] IH using ne by (cases "filter P l") auto
qed simp

lemma deduce_result:
  assumes "named_jobs (gid g) js" and "deduce js g (ListByGroup (gid g) js) [] = Inr r"
    and "js_inv js" and "i \<noteq> []"
  shows "r = Some i \<longleftrightarrow>
    i \<in> j_jobID ` set (ListByGroup (gid g) js) \<and> isJobLoaded js g i = Inr True \<and>
    (\<forall>k \<in> j_jobID ` set (ListByGroup (gid g) js). isJobLoaded js g k = Inr True \<longrightarrow> k = i)"
proof (cases "\<exists>k \<in> set (ListByGroup (gid g) js). isl (isJobLoaded js g (j_jobID k))")
  case True
  then have "nodes (status g) \<noteq> []" using isJobLoaded_nodes[of g js] by auto
  with True assms(1) have "\<not> exclusive (ListByGroup (gid g) js)"
    using isJobLoaded_correct[OF assms(1)] by (fastforce simp: named_jobs_def)
  then have l: "isl (isJobLoaded js g (j_jobID k))" if "k \<in> set (ListByGroup (gid g) js)" for k
    using isJobLoaded_correct[OF assms(1) _ \<open>nodes (status g) \<noteq> []\<close>] assms(1) that by (auto simp: named_jobs_def)
  from True obtain a as where "ListByGroup (gid g) js = a # as" by (cases "ListByGroup (gid g) js") auto
  with l[of a] have "isl (deduce js g (ListByGroup (gid g) js) [])"
    by (cases "isJobLoaded js g (j_jobID a)") auto
  with assms(2) show ?thesis by simp
next
  case False
  define P where "P j \<longleftrightarrow> isJobLoaded js g (j_jobID j) = Inr True" for j :: job
  let ?l = "ListByGroup (gid g) js"
  have ne: "j_jobID j \<noteq> []" if "j \<in> set ?l" for j using assms(1) that by (simp add: named_jobs_def)
  have "isJobLoaded js g (j_jobID j) = Inr (P j) \<and> j_jobID j \<noteq> []" if "j \<in> set ?l" for j
    using False that ne by (cases "isJobLoaded js g (j_jobID j)") (auto simp: P_def)
  from deduce_correct[of ?l js g P "[]", OF this] assms(2)
  have r: "r = (case filter P ?l of [] \<Rightarrow> Some [] | [j] \<Rightarrow> Some (j_jobID j) | _ \<Rightarrow> None)"
    by (auto split: list.splits)
  have dist: "distinct (map j_jobID (filter P ?l))"
    using ListByGroup_distinct_ids[OF assms(3), of "gid g"] distinct_map_filter by blast
  have mem: "j \<in> set (filter P ?l) \<longleftrightarrow> j \<in> set ?l \<and> isJobLoaded js g (j_jobID j) = Inr True" for j :: job
    by (simp add: P_def)
  show ?thesis
  proof (cases "filter P ?l")
    case Nil
    then have "\<not> P j" if "j \<in> set ?l" for j using that by (metis filter_empty_conv)
    with r Nil assms(4) show ?thesis by (auto simp: P_def)
  next
    case (Cons a as)
    then have a: "a \<in> set ?l" "isJobLoaded js g (j_jobID a) = Inr True" using mem[of a] by auto
    show ?thesis
    proof (cases as)
      case Nil
      with Cons have one: "j = a" if "j \<in> set ?l" "isJobLoaded js g (j_jobID j) = Inr True" for j :: job
        using mem[of j] that by auto
      then have one': "k = j_jobID a" if "k \<in> j_jobID ` set ?l" "isJobLoaded js g k = Inr True" for k
        using that by blast
      have "r = Some (j_jobID a)" using r Cons Nil by simp
      with a one' show ?thesis by (metis imageI option.inject)
    next
      case (Cons b bs)
      with \<open>filter P ?l = a # as\<close> have b: "b \<in> set ?l" "isJobLoaded js g (j_jobID b) = Inr True"
        using mem[of b] by auto
      have "j_jobID a \<noteq> j_jobID b" using dist Cons \<open>filter P ?l = a # as\<close> by simp
      moreover have "r = None" using r Cons \<open>filter P ?l = a # as\<close> by simp
      ultimately show ?thesis using a b by (metis imageI option.distinct(1))
    qed
  qed
qed

text \<open>C16: after a restart the controller deduces an active job only for a group that is neither locked
  nor has an active job, and then exactly when one and only one job of the group is loaded; the
  deduction does not depend on the order in which the job map is iterated, and never changes the
  lock or the queue.\<close>

theorem deduced_active_job_is_unique_loaded_job:
  assumes "named_jobs (gid g) js" and "js_inv js" and "tryDeduceActiveJob js g = (None, g')" and "i \<noteq> []"
  shows "lockingJob (spec g') = lockingJob (spec g) \<and> queue (spec g') = queue (spec g) \<and> status g' = status g \<and>
    (lockingJob (spec g) \<noteq> [] \<or> activeJob (spec g) \<noteq> [] \<longrightarrow> g' = g) \<and>
    (lockingJob (spec g) = [] \<and> activeJob (spec g) = [] \<longrightarrow>
      (activeJob (spec g') = i \<longleftrightarrow> uniquely_loaded js g i))"
proof (cases "lockingJob (spec g) \<noteq> [] \<or> activeJob (spec g) \<noteq> []")
  case False
  then obtain r where r: "deduce js g (ListByGroup (gid g) js) [] = Inr r"
    using assms(3) by (cases "deduce js g (ListByGroup (gid g) js) []") (auto simp: tryDeduceActiveJob_def)
  from deduce_result[OF assms(1) r assms(2,4), folded uniquely_loaded_def] False assms(3,4) r show ?thesis
    by (auto simp: tryDeduceActiveJob_def SetActiveJob_def split: option.splits if_splits)
qed (use assms(3) in \<open>auto simp: tryDeduceActiveJob_def\<close>)

theorem deduced_active_job_is_unique_loaded_job_witness:
  "let g = held_group\<lparr>spec := \<lparr>lockingJob = [], queue = NewWaitingJobQueue, activeJob = []\<rparr>\<rparr>
   in \<exists>g'. tryDeduceActiveJob (jobs held_state) g = (None, g') \<and> activeJob (spec g') = ''a'' \<and>
        uniquely_loaded (jobs held_state) g ''a''"
proof -
  let ?g = "held_group\<lparr>spec := \<lparr>lockingJob = [], queue = NewWaitingJobQueue, activeJob = []\<rparr>\<rparr>"
  obtain r g' where d: "tryDeduceActiveJob (jobs held_state) ?g = (r, g')" by fastforce
  have "fst (tryDeduceActiveJob (jobs held_state) ?g) = None"
    and "activeJob (spec (snd (tryDeduceActiveJob (jobs held_state) ?g))) = ''a''" by code_simp+
  with d have r: "r = None" and a: "activeJob (spec g') = ''a''" by simp_all
  have n: "named_jobs (gid ?g) (jobs held_state)" by code_simp
  have inv: "js_inv (jobs held_state)" using held_state_inv by (simp add: orch_inv_def)
  from deduced_active_job_is_unique_loaded_job[OF n inv, of g' "''a''"] d r a show ?thesis by simp
qed

subsection \<open>Settlement\<close>

lemma settle_entry_correct:
  assumes "settle_entry E g a st = (entry, st')"
  shows "groups st' = groups st \<and> jobs st' = jobs st \<and> locks st' = locks st \<and> se_jobID entry = a \<and>
    map_of (settleSince st') g = Some entry \<and>
    (\<forall>old. map_of (settleSince st) g = Some old \<and> se_jobID old = a \<longrightarrow> entry = old)"
proof -
  obtain t st1 where n: "Now E st = (t, st1)" by fastforce
  with Now_frame[of E st] assms show ?thesis
    by (auto simp: settle_entry_def Let_def split: option.splits if_splits)
qed

text \<open>
  The hold on promotions is bounded. A reconcile holds the promotion back only while somebody
  waits behind an unlocked group whose active job is idle on a node of the group, and only as
  long as the time since the hold on this job began is within the settle timeout; the start of
  the hold is kept from one reconcile to the next as long as the active job is the same, and
  holding changes neither the stores nor the locks.\<close>

theorem settlement_hold_is_bounded:
  assumes "waitForGrantSettlement E g st = (Some e, st')"
  shows "groups st' = groups st \<and> jobs st' = jobs st \<and> locks st' = locks st \<and>
    lockingJob (spec g) = [] \<and> activeJob (spec g) \<noteq> [] \<and> waiting (queue (spec g)) \<noteq> [] \<and>
    (\<exists>n \<in> set (nodes (status g)). ctx_at (context_of (jobs st) (gid g) (activeJob (spec g))) n = STATE_IDLE) \<and>
    (\<exists>entry t st1. map_of (settleSince st') (gid g) = Some entry \<and> se_jobID entry = activeJob (spec g) \<and>
       (\<forall>old. map_of (settleSince st) (gid g) = Some old \<and> se_jobID old = activeJob (spec g) \<longrightarrow> entry = old) \<and>
       Now E st1 = (t, st') \<and> t - se_since entry \<le> SettleTimeout E)"
proof -
  let ?a = "activeJob (spec g)"
  obtain job where job: "js_Get (gid g) ?a (jobs st) = Inr job"
    and pend: "lockingJob (spec g) = []" "?a \<noteq> []" "Len (queue (spec g)) \<noteq> 0"
    and idle: "idleNode (contextState job) (nodes (status g)) \<noteq> []"
    using assms
    by (cases "js_Get (gid g) ?a (jobs st)")
      (auto simp: waitForGrantSettlement_def Let_def go_errors split: if_splits dest: js_Get_Inl)
  obtain entry st1 where en: "settle_entry E (gid g) ?a st = (entry, st1)" by fastforce
  obtain t st2 where n: "Now E st1 = (t, st2)" by fastforce
  from assms job pend idle en n have r: "st' = st2" "t - se_since entry \<le> SettleTimeout E"
    by (auto simp: waitForGrantSettlement_def Let_def split: if_splits)
  from idle obtain node where "node \<in> set (nodes (status g))" "ctx_at (contextState job) node = STATE_IDLE"
    by (force simp: idleNode_def filter_eq_Cons_iff split: list.splits)
  then have "\<exists>n \<in> set (nodes (status g)). ctx_at (context_of (jobs st) (gid g) ?a) n = STATE_IDLE"
    using job by (auto simp: context_of_def)
  moreover have "waiting (queue (spec g)) \<noteq> []" using pend(3) by (simp add: Len_def waiting_def)
  moreover have "groups st2 = groups st1" "jobs st2 = jobs st1" "locks st2 = locks st1" "settleSince st2 = settleSince st1"
    using Now_frame[of E st1] n by simp_all
  ultimately show ?thesis using settle_entry_correct[OF en] r n pend by metis
qed

theorem settlement_hold_is_bounded_witness:
  "let g = held_group\<lparr>spec := \<lparr>lockingJob = [], queue = snd (Enqueue 1 ''b'' NewWaitingJobQueue), activeJob = ''a''\<rparr>\<rparr>;
       st = held_state\<lparr>jobs := js_Put (UpdateContextState ''n1'' STATE_IDLE (NewJob ''g'' ''a'')) []\<rparr>
   in \<exists>e st'. waitForGrantSettlement idle_env g st = (Some e, st') \<and> waiting (queue (spec g)) \<noteq> []"
proof -
  let ?g = "held_group\<lparr>spec := \<lparr>lockingJob = [], queue = snd (Enqueue 1 ''b'' NewWaitingJobQueue), activeJob = ''a''\<rparr>\<rparr>"
  let ?st = "held_state\<lparr>jobs := js_Put (UpdateContextState ''n1'' STATE_IDLE (NewJob ''g'' ''a'')) []\<rparr>"
  obtain r st' where w: "waitForGrantSettlement idle_env ?g ?st = (r, st')" by fastforce
  have "(case fst (waitForGrantSettlement idle_env ?g ?st) of None \<Rightarrow> False | Some _ \<Rightarrow> True)" by code_simp
  with w obtain e where e: "waitForGrantSettlement idle_env ?g ?st = (Some e, st')" by (cases r) auto
  from settlement_hold_is_bounded[OF e] e show ?thesis by (simp add: Let_def)
qed

subsection \<open>Status\<close>

text \<open>
  the status the controller publishes says what it claims: the loaded job is the active job when
  that is loaded and nobody otherwise; the state is LOCKED exactly when somebody holds the lock
  and the active job is loaded, SWITCHING when somebody holds the lock and it is not,
  IDLE_YIELDED when nobody holds the lock but an active job remains, and IDLE when there is
  neither; the time stamp moves exactly when the state changes; the lock, the queue, the active
  job and the nodes stay.\<close>

theorem published_status_is_accurate:
  assumes "updateGroupStatus now js g = (None, g')"
  shows "spec g' = spec g \<and> nodes (status g') = nodes (status g) \<and>
    (loadedJob (status g') \<noteq> [] \<longleftrightarrow> isJobLoaded js g (activeJob (spec g)) = Inr True) \<and>
    loadedJob (status g') \<in> {[], activeJob (spec g)} \<and>
    (gstate (status g') = GROUP_STATE_LOCKED \<longleftrightarrow> lockingJob (spec g) \<noteq> [] \<and> loadedJob (status g') \<noteq> []) \<and>
    (gstate (status g') = GROUP_STATE_SWITCHING \<longleftrightarrow> lockingJob (spec g) \<noteq> [] \<and> loadedJob (status g') = []) \<and>
    (gstate (status g') = GROUP_STATE_IDLE_YIELDED \<longleftrightarrow> lockingJob (spec g) = [] \<and> activeJob (spec g) \<noteq> []) \<and>
    (gstate (status g') = GROUP_STATE_IDLE \<longleftrightarrow> lockingJob (spec g) = [] \<and> activeJob (spec g) = []) \<and>
    stateTimestamp (status g') = (if gstate (status g') = gstate (status g) then stateTimestamp (status g) else now)"
proof -
  have e: "isJobLoaded js g [] = Inr False" by (simp add: isJobLoaded_def)
  show ?thesis
  proof (cases "activeJob (spec g) = []")
    case True
    with assms e show ?thesis
      by (auto simp: updateGroupStatus_def Let_def determineGroupState_def SetLoadedJob_def SetState_def split: if_splits)
  next
    case False
    then obtain b where b: "isJobLoaded js g (activeJob (spec g)) = Inr b"
      using assms by (cases "isJobLoaded js g (activeJob (spec g))") (auto simp: updateGroupStatus_def Let_def)
    with assms False show ?thesis
      by (cases b) (auto simp: updateGroupStatus_def Let_def determineGroupState_def SetLoadedJob_def SetState_def split: if_splits)
  qed
qed

theorem published_status_is_accurate_witness:
  "\<exists>g'. updateGroupStatus 7 (jobs held_state) held_group = (None, g') \<and>
     loadedJob (status g') \<noteq> [] \<and> gstate (status g') = GROUP_STATE_LOCKED"
proof -
  obtain r g' where u: "updateGroupStatus 7 (jobs held_state) held_group = (r, g')" by fastforce
  have "fst (updateGroupStatus 7 (jobs held_state) held_group) = None"
    and l: "isJobLoaded (jobs held_state) held_group (activeJob (spec held_group)) = Inr True"
    and k: "lockingJob (spec held_group) \<noteq> []" by code_simp+
  with u have r: "r = None" by simp
  from published_status_is_accurate[OF u[unfolded r]] u r l k show ?thesis by simp
qed

subsection \<open>Frames and the invariant\<close>

lemma observe_statuses_inv: "js_inv js \<Longrightarrow> js_inv (snd (observe_statuses g n ss js))"
proof (induction ss arbitrary: js)
  case (Cons s ss)
  obtain r js' where u: "js_UpdateContextState g (js_job_id s) n (translateJobState (js_state s)) js = (r, js')" by fastforce
  have "js_inv js'" using js_inv_UpdateContextState[OF Cons.prems] u by (metis snd_conv)
  with Cons u show ?case by (auto split: sum.splits option.splits)
qed simp

lemma observeNodeJobContext_frame:
  assumes "observeNodeJobContext E g n st = (r, st')"
  shows "groups st' = groups st" and "locks st' = locks st" and "js_inv (jobs st) \<Longrightarrow> js_inv (jobs st')"
  using assms observe_statuses_inv[of "jobs st" g n]
  by (auto simp: observeNodeJobContext_def split: sum.splits prod.splits) (metis snd_conv)

lemma observe_nodes_frame:
  "observe_nodes E g ns st = (r, st') \<Longrightarrow>
     groups st' = groups st \<and> locks st' = locks st \<and> (js_inv (jobs st) \<longrightarrow> js_inv (jobs st'))"
proof (induction ns arbitrary: st)
  case (Cons n ns)
  obtain r1 st1 where o1: "observeNodeJobContext E g n st = (r1, st1)" by fastforce
  from observeNodeJobContext_frame[OF o1] Cons o1 show ?case by (cases r1) auto
qed simp

lemma ObserveJobContext_frame:
  "ObserveJobContext E g st = (r, st') \<Longrightarrow>
     groups st' = groups st \<and> locks st' = locks st \<and> (js_inv (jobs st) \<longrightarrow> js_inv (jobs st'))"
  by (auto simp: ObserveJobContext_def split: sum.splits dest: observe_nodes_frame)

end
