(* ===== verification/Node_Pass.thy ===== *)
theory Node_Pass
  imports Controller "HOL-Library.List_Lexorder" "HOL-Library.Char_ord" "HOL-Library.Sublist" "HOL-Library.Multiset"
begin

text \<open>
  The pass of the controller over one node (\<^verbatim>\<open>reconcileNode\<close>, \<^verbatim>\<open>runAgentOperation\<close>,
  \<^verbatim>\<open>waitForOperation\<close> of \<^verbatim>\<open>controller/controller.go\<close>). The passes of a group run
  as concurrent goroutines, so a pass is a process: a tree of calls, each an access to a store
  under its mutex or a request to the agent, and what the pass does with each answer. A local
  trace of a pass is a list of calls with their answers; theorems about all traces hold for
  whatever the agents answer and however other goroutines interleave.

  \<^verbatim>\<open>waitForOperation\<close> polls without bound: the model polls at most \<open>fuel\<close> times
  and then stays in \<open>Hang\<close>, a process that makes no more calls and never returns.
\<close>

datatype node_req =
    ListJobs string
  | GetJob string string
  | JobConfig string string
  | AgentSnapshot string string string "BackendConfig option"
  | AgentRestore string string string "BackendConfig option"
  | SelectTick
  | AgentGetOperation string string
  | ObserveDuration string string string string int
  | RefreshNode string string
  | CancelPeers

datatype node_resp =
    RJobs "go_error + job list"
  | RJob "go_error + job"
  | RCfg "BackendConfig option"
  | ROpId "go_error + string"
  | RDone "go_error option"
  | ROp "go_error + GetOperationResponse"
  | RErr "go_error option"
  | RUnit

datatype 'x proc =
    Return 'x
  | Call node_req "node_resp \<Rightarrow> 'x proc"
  | Hang

primrec pbind :: "'x proc \<Rightarrow> ('x \<Rightarrow> 'y proc) \<Rightarrow> 'y proc" where
  "pbind (Return x) f = f x"
| "pbind (Call q k) f = Call q (\<lambda>r. pbind (k r) f)"
| "pbind Hang f = Hang"

text \<open>A call with an answer of the wrong type does not happen; the process stops there.\<close>

definition call_list :: "string \<Rightarrow> (go_error + job list \<Rightarrow> 'x proc) \<Rightarrow> 'x proc" where
  "call_list g k = Call (ListJobs g) (\<lambda>r. case r of RJobs a \<Rightarrow> k a | _ \<Rightarrow> Hang)"
definition call_get :: "string \<Rightarrow> string \<Rightarrow> (go_error + job \<Rightarrow> 'x proc) \<Rightarrow> 'x proc" where
  "call_get g j k = Call (GetJob g j) (\<lambda>r. case r of RJob a \<Rightarrow> k a | _ \<Rightarrow> Hang)"
definition call_cfg :: "string \<Rightarrow> string \<Rightarrow> (BackendConfig option \<Rightarrow> 'x proc) \<Rightarrow> 'x proc" where
  "call_cfg g j k = Call (JobConfig g j) (\<lambda>r. case r of RCfg a \<Rightarrow> k a | _ \<Rightarrow> Hang)"
definition call_op :: "node_req \<Rightarrow> (go_error + string \<Rightarrow> 'x proc) \<Rightarrow> 'x proc" where
  "call_op q k = Call q (\<lambda>r. case r of ROpId a \<Rightarrow> k a | _ \<Rightarrow> Hang)"
definition call_select :: "(go_error option \<Rightarrow> 'x proc) \<Rightarrow> 'x proc" where
  "call_select k = Call SelectTick (\<lambda>r. case r of RDone a \<Rightarrow> k a | _ \<Rightarrow> Hang)"
definition call_getop :: "string \<Rightarrow> string \<Rightarrow> (go_error + GetOperationResponse \<Rightarrow> 'x proc) \<Rightarrow> 'x proc" where
  "call_getop n i k = Call (AgentGetOperation n i) (\<lambda>r. case r of ROp a \<Rightarrow> k a | _ \<Rightarrow> Hang)"
definition call_refresh :: "string \<Rightarrow> string \<Rightarrow> (go_error option \<Rightarrow> 'x proc) \<Rightarrow> 'x proc" where
  "call_refresh g n k = Call (RefreshNode g n) (\<lambda>r. case r of RErr a \<Rightarrow> k a | _ \<Rightarrow> Hang)"
definition call_unit :: "node_req \<Rightarrow> 'x proc \<Rightarrow> 'x proc" where
  "call_unit q k = Call q (\<lambda>r. case r of RUnit \<Rightarrow> k | _ \<Rightarrow> Hang)"

lemmas call_defs = call_list_def call_get_def call_cfg_def call_op_def call_select_def call_getop_def
  call_refresh_def call_unit_def

subsection \<open>The pass\<close>

primrec waitForOperation ::
  "nat \<Rightarrow> string \<Rightarrow> string \<Rightarrow> string \<Rightarrow> string \<Rightarrow> string \<Rightarrow> go_error option proc" where
  "waitForOperation 0 groupID jobID nodeName operationID operationType = Hang"
| "waitForOperation (Suc fuel) groupID jobID nodeName operationID operationType =
     call_select (\<lambda>d. case d of
       Some err \<Rightarrow> Return (Some (Wrap (errorf [''context cancelled while waiting for operation '', operationID]) err))
     | None \<Rightarrow>
         call_getop nodeName operationID (\<lambda>a. case a of
           Inl err \<Rightarrow> waitForOperation fuel groupID jobID nodeName operationID operationType
         | Inr resp \<Rightarrow>
             (case gor_status resp of
                OPERATION_STATUS_COMPLETE \<Rightarrow>
                  call_unit (ObserveDuration groupID jobID nodeName operationType (gor_elapsed_ms resp)) (Return None)
              | OPERATION_STATUS_FAILED \<Rightarrow>
                  Return (Some (Text (errorf [''operation '', operationID, '' failed: '', (case gor_error resp of None \<Rightarrow> ''unknown error'' | Some e \<Rightarrow> e)])))
              | _ \<Rightarrow> waitForOperation fuel groupID jobID nodeName operationID operationType)))"

definition runAgentOperation ::
  "nat \<Rightarrow> string \<Rightarrow> string \<Rightarrow> string \<Rightarrow> string \<Rightarrow> node_req \<Rightarrow> go_error option proc" where
  "runAgentOperation fuel groupID opType node jobID trigger =
     call_op trigger (\<lambda>a. case a of
       Inl err \<Rightarrow>
         call_unit CancelPeers
           (Return (Some (Wrap (errorf [''failed to trigger '', opType, '' for job '', jobID, '' on node '', node]) err)))
     | Inr opID \<Rightarrow>
         pbind (waitForOperation fuel groupID jobID node opID opType) (\<lambda>w. case w of
           Some err \<Rightarrow>
             Return (Some (Wrap (errorf [''failed while waiting for '', opType, '' operation '', opID, '' for job '', jobID, '' on node '', node]) err))
         | None \<Rightarrow>
             call_refresh groupID node (\<lambda>e. case e of
               Some err \<Rightarrow> Return (Some (Wrap (errorf [''failed to refresh agent state after '', opType, '' on '', node]) err))
             | None \<Rightarrow> Return None)))"

text \<open>\<^verbatim>\<open>agentJobStates\<close>: the state on the node of every job of the group.\<close>

fun agentJobStates :: "string \<Rightarrow> job list \<Rightarrow> (string \<times> ContextState) list \<Rightarrow> (string \<times> ContextState) list" where
  "agentJobStates nodeName [] m = m"
| "agentJobStates nodeName (j # js) m =
     agentJobStates nodeName js (AList.update (j_jobID j) (ctx_at (contextState j) nodeName) m)"

text \<open>The loop that parks the other jobs; it returns the pending errors.\<close>

primrec park ::
  "nat \<Rightarrow> string \<Rightarrow> string \<Rightarrow> string \<Rightarrow> (string \<times> ContextState) list \<Rightarrow> job list \<Rightarrow> go_error option list \<Rightarrow>
     go_error option list proc" where
  "park fuel groupID nodeName activeJobID states [] pending = Return pending"
| "park fuel groupID nodeName activeJobID states (job # rest) pending =
     (if j_jobID job = activeJobID then park fuel groupID nodeName activeJobID states rest pending
      else
        (case ctx_at states (j_jobID job) of
           STATE_RUNNING \<Rightarrow>
             call_cfg groupID (j_jobID job) (\<lambda>backendCfg.
               pbind (runAgentOperation fuel groupID ''snapshot'' nodeName (j_jobID job)
                        (AgentSnapshot nodeName (j_jobID job) groupID backendCfg))
                 (\<lambda>e. park fuel groupID nodeName activeJobID states rest (pending @ [e])))
         | STATE_TRANSITIONING \<Rightarrow>
             park fuel groupID nodeName activeJobID states rest
               (pending @ [Some (Text (errorf [''preemption pending: job '', j_jobID job, '' is currently transitioning on node '', nodeName]))])
         | _ \<Rightarrow> park fuel groupID nodeName activeJobID states rest pending))"

definition restoreActive :: "nat \<Rightarrow> string \<Rightarrow> string \<Rightarrow> string \<Rightarrow> go_error option proc" where
  "restoreActive fuel groupID nodeName activeJobID =
     (if activeJobID = [] then Return None
      else
        call_get groupID activeJobID (\<lambda>a. case a of
          Inl err \<Rightarrow>
            if errors_is err ErrNotFound then Return None
            else Return (Some (Wrap (errorf [''failed to get active job '', activeJobID]) err))
        | Inr active \<Rightarrow>
            if ctx_at (contextState active) nodeName \<noteq> STATE_SAVED then Return None
            else
              call_cfg groupID activeJobID (\<lambda>backendCfg.
                runAgentOperation fuel groupID ''restore'' nodeName activeJobID
                  (AgentRestore nodeName activeJobID groupID backendCfg))))"

definition reconcileNode :: "nat \<Rightarrow> string \<Rightarrow> string \<Rightarrow> string \<Rightarrow> go_error option proc" where
  "reconcileNode fuel groupID nodeName activeJobID =
     call_list groupID (\<lambda>a. case a of
       Inl err \<Rightarrow> Return (Some (Wrap (errorf [''failed to list jobs for group '', groupID]) err))
     | Inr js \<Rightarrow>
         let states = agentJobStates nodeName js [] in
         if activeJobID \<noteq> [] \<and> map_of states activeJobID = Some STATE_RUNNING then Return None
         else if activeJobID \<noteq> [] \<and> map_of states activeJobID = Some STATE_FAULTED then
           Return (Some (Text (errorf [''active job '', activeJobID, '' is in FAULTED state on node '', nodeName, '', requires human intervention''])))
         else if activeJobID \<noteq> [] \<and> map_of states activeJobID = Some STATE_TRANSITIONING then
           Return (Some (Text (errorf [''reconciliation pending: active job '', activeJobID, '' is currently transitioning''])))
         else
           pbind (park fuel groupID nodeName activeJobID states (sort_key j_jobID js) [])
             (\<lambda>pending. case errors_join pending of
                Some err \<Rightarrow> Return (Some err)
              | None \<Rightarrow> restoreActive fuel groupID nodeName activeJobID))"

subsection \<open>Local traces\<close>

type_synonym node_trace = "(node_req \<times> node_resp) list"

text \<open>What is left of a process after a list of calls with their answers, if it can make them.\<close>

fun after :: "'x proc \<Rightarrow> node_trace \<Rightarrow> 'x proc option" where
  "after p [] = Some p"
| "after (Call q k) ((q', r) # t) = (if q = q' then after (k r) t else None)"
| "after (Return x) (_ # t) = None"
| "after Hang (_ # t) = None"

lemma after_append: "after p (t @ u) = (case after p t of None \<Rightarrow> None | Some p' \<Rightarrow> after p' u)"
  by (induction p t rule: after.induct) auto

lemma after_Return_iff [simp]: "after (Return x) t = Some p \<longleftrightarrow> t = [] \<and> p = Return x"
  by (cases t) auto

lemma after_Hang_iff [simp]: "after Hang t = Some p \<longleftrightarrow> t = [] \<and> p = Hang"
  by (cases t) auto

lemma after_Call_iff:
  "after (Call q k) t = Some p \<longleftrightarrow> t = [] \<and> p = Call q k \<or> (\<exists>r u. t = (q, r) # u \<and> after (k r) u = Some p)"
  by (cases t) (auto split: if_splits)

text \<open>
  Traces of a typed call: not made yet; answered with the wrong type; or answered and followed
  by a trace of the rest.
\<close>

lemma after_call:
  assumes "after (Call q k) t = Some p" and "\<And>r. k r = Hang \<and> (\<forall>a. r \<noteq> C a) \<or> (\<exists>a. r = C a \<and> k r = f a)"
  obtains "t = []" "p = Call q k" | r where "t = [(q, r)]" "p = Hang" "\<forall>a. r \<noteq> C a"
    | a u where "t = (q, C a) # u" "after (f a) u = Some p"
  using assms(1) unfolding after_Call_iff
proof (elim disjE exE conjE)
  fix r u assume t: "t = (q, r) # u" "after (k r) u = Some p"
  with assms(2)[of r] that(2,3) show thesis by auto
qed (rule that(1))

lemma call_list_trace:
  assumes "after (call_list g f) t = Some p"
  obtains "t = []" "p = call_list g f" | r where "t = [(ListJobs g, r)]" "p = Hang"
    | a u where "t = (ListJobs g, RJobs a) # u" "after (f a) u = Some p"
  using assms unfolding call_list_def by (rule after_call[where C = RJobs and f = f]) (auto split: node_resp.split)

lemma call_get_trace:
  assumes "after (call_get g j f) t = Some p"
  obtains "t = []" "p = call_get g j f" | r where "t = [(GetJob g j, r)]" "p = Hang"
    | a u where "t = (GetJob g j, RJob a) # u" "after (f a) u = Some p"
  using assms unfolding call_get_def by (rule after_call[where C = RJob and f = f]) (auto split: node_resp.split)

lemma call_cfg_trace:
  assumes "after (call_cfg g j f) t = Some p"
  obtains "t = []" "p = call_cfg g j f" | r where "t = [(JobConfig g j, r)]" "p = Hang"
    | a u where "t = (JobConfig g j, RCfg a) # u" "after (f a) u = Some p"
  using assms unfolding call_cfg_def by (rule after_call[where C = RCfg and f = f]) (auto split: node_resp.split)

lemma call_op_trace:
  assumes "after (call_op q f) t = Some p"
  obtains "t = []" "p = call_op q f" | r where "t = [(q, r)]" "p = Hang" "\<forall>a. r \<noteq> ROpId a"
    | a u where "t = (q, ROpId a) # u" "after (f a) u = Some p"
  using assms unfolding call_op_def by (rule after_call[where C = ROpId and f = f]) (auto split: node_resp.split)

lemma call_select_trace:
  assumes "after (call_select f) t = Some p"
  obtains "t = []" "p = call_select f" | r where "t = [(SelectTick, r)]" "p = Hang"
    | a u where "t = (SelectTick, RDone a) # u" "after (f a) u = Some p"
  using assms unfolding call_select_def by (rule after_call[where C = RDone and f = f]) (auto split: node_resp.split)

lemma call_getop_trace:
  assumes "after (call_getop n i f) t = Some p"
  obtains "t = []" "p = call_getop n i f" | r where "t = [(AgentGetOperation n i, r)]" "p = Hang"
    | a u where "t = (AgentGetOperation n i, ROp a) # u" "after (f a) u = Some p"
  using assms unfolding call_getop_def by (rule after_call[where C = ROp and f = f]) (auto split: node_resp.split)

lemma call_refresh_trace:
  assumes "after (call_refresh g n f) t = Some p"
  obtains "t = []" "p = call_refresh g n f" | r where "t = [(RefreshNode g n, r)]" "p = Hang"
    | a u where "t = (RefreshNode g n, RErr a) # u" "after (f a) u = Some p"
  using assms unfolding call_refresh_def by (rule after_call[where C = RErr and f = f]) (auto split: node_resp.split)

lemma call_unit_trace:
  assumes "after (call_unit q f) t = Some p"
  obtains "t = []" "p = call_unit q f" | r where "t = [(q, r)]" "p = Hang"
    | u where "t = (q, RUnit) # u" "after f u = Some p"
  using assms unfolding call_unit_def
  by (rule after_call[where C = "\<lambda>_::unit. RUnit" and f = "\<lambda>_. f"]) (auto split: node_resp.split)

lemma calls_not_Return [simp]:
  "call_list g f1 \<noteq> Return x" "call_get g j f2 \<noteq> Return x" "call_cfg g j f3 \<noteq> Return x" "call_op q f4 \<noteq> Return x"
  "call_select f5 \<noteq> Return x" "call_getop n i f6 \<noteq> Return x" "call_refresh g n f7 \<noteq> Return x" "call_unit q f8 \<noteq> Return x"
  by (simp_all add: call_defs)

lemmas Return_not_calls [simp] = calls_not_Return[THEN not_sym]

text \<open>A trace of a sequence is a trace of its first part, or a complete one followed by one of the rest.\<close>

lemma after_pbind:
  "after (pbind p f) t = Some p' \<Longrightarrow>
     (\<exists>p1. after p t = Some p1 \<and> p' = pbind p1 f) \<or>
     (\<exists>t1 t2 x. t = t1 @ t2 \<and> after p t1 = Some (Return x) \<and> after (f x) t2 = Some p')"
proof (induction p arbitrary: t)
  case (Return x)
  then have "t = [] @ t \<and> after (Return x) [] = Some (Return x) \<and> after (f x) t = Some p'" by simp
  then show ?case by blast
next
  case (Call q k)
  show ?case
  proof (cases t)
    case Nil
    with Call.prems show ?thesis by auto
  next
    case (Cons a u)
    with Call.prems obtain r where a: "a = (q, r)" "after (pbind (k r) f) u = Some p'"
      by (cases a) (auto split: if_splits)
    from Call.IH[OF rangeI a(2)] show ?thesis
    proof (elim disjE exE conjE)
      fix t1 t2 x assume "u = t1 @ t2" "after (k r) t1 = Some (Return x)" "after (f x) t2 = Some p'"
      then have "t = (a # t1) @ t2 \<and> after (Call q k) (a # t1) = Some (Return x) \<and> after (f x) t2 = Some p'"
        using Cons a by simp
      then show ?thesis by blast
    qed (use Cons a in auto)
  qed
next
  case Hang
  then show ?case by auto
qed

lemma after_pbindE:
  assumes "after (pbind p f) t = Some p'"
  obtains p1 where "after p t = Some p1" "p' = pbind p1 f" "\<And>x. p1 \<noteq> Return x" "\<And>x. p' \<noteq> Return x"
    | t1 t2 x where "t = t1 @ t2" "after p t1 = Some (Return x)" "after (f x) t2 = Some p'"
  using after_pbind[OF assms]
proof (elim disjE exE conjE)
  fix p1 assume a: "after p t = Some p1" "p' = pbind p1 f"
  show thesis
  proof (cases p1)
    case (Return x)
    with a that(2)[of t "[]" x] show thesis by simp
  qed (use a that(1) in auto)
qed (rule that(2))

subsection \<open>What a pass can do\<close>

fun is_op :: "node_req \<Rightarrow> bool" where
  "is_op (AgentSnapshot _ _ _ _) = True"
| "is_op (AgentRestore _ _ _ _) = True"
| "is_op _ = False"

fun op_job :: "node_req \<Rightarrow> string" where
  "op_job (AgentSnapshot _ j _ _) = j"
| "op_job (AgentRestore _ j _ _) = j"
| "op_job _ = []"

text \<open>The operations a trace triggers, in order.\<close>

definition ops_in :: "node_trace \<Rightarrow> node_req list" where
  "ops_in t = filter is_op (map fst t)"

lemma ops_in_simps [simp]:
  "ops_in [] = []" "ops_in (x # t) = (if is_op (fst x) then fst x # ops_in t else ops_in t)"
  "ops_in (t @ u) = ops_in t @ ops_in u"
  by (simp_all add: ops_in_def)

text \<open>An operation was triggered, reported complete, and the node's state was read again after that.\<close>

definition op_done :: "node_req \<Rightarrow> string \<Rightarrow> string \<Rightarrow> node_trace \<Rightarrow> bool" where
  "op_done trigger g n t \<longleftrightarrow>
     (\<exists>t1 i t2 resp t3. t = t1 @ (trigger, ROpId (Inr i)) # t2 @ (AgentGetOperation n i, ROp (Inr resp)) # t3 \<and>
        gor_status resp = OPERATION_STATUS_COMPLETE \<and> (RefreshNode g n, RErr None) \<in> set t3)"

lemma op_done_append_left: "op_done q g n t \<Longrightarrow> op_done q g n (u @ t)"
  unfolding op_done_def by (metis append.assoc)

lemma op_done_append_right:
  assumes "op_done q g n t"
  shows "op_done q g n (t @ u)"
proof -
  from assms obtain t1 i t2 resp t3
    where t: "t = t1 @ (q, ROpId (Inr i)) # t2 @ (AgentGetOperation n i, ROp (Inr resp)) # t3"
      "gor_status resp = OPERATION_STATUS_COMPLETE" "(RefreshNode g n, RErr None) \<in> set t3"
    unfolding op_done_def by blast
  then have "t @ u = t1 @ (q, ROpId (Inr i)) # t2 @ (AgentGetOperation n i, ROp (Inr resp)) # (t3 @ u)"
    "(RefreshNode g n, RErr None) \<in> set (t3 @ u)" by simp_all
  with t(2) show ?thesis unfolding op_done_def by blast
qed

definition wait_ok :: "string \<Rightarrow> string \<Rightarrow> node_trace \<Rightarrow> go_error option proc \<Rightarrow> bool" where
  "wait_ok n i t p \<longleftrightarrow> ops_in t = [] \<and>
     (p = Return None \<longrightarrow> (\<exists>t1 resp t2. t = t1 @ (AgentGetOperation n i, ROp (Inr resp)) # t2 \<and>
        gor_status resp = OPERATION_STATUS_COMPLETE))"

lemma wait_ok_Cons: "wait_ok n i t p \<Longrightarrow> \<not> is_op (fst x) \<Longrightarrow> wait_ok n i (x # t) p"
  unfolding wait_ok_def by (metis append_Cons ops_in_simps(2))

lemma waitForOperation_trace:
  "after (waitForOperation fuel g j n i ty) t = Some p \<Longrightarrow> wait_ok n i t p"
proof (induction fuel arbitrary: t)
  case 0
  then show ?case by (simp add: wait_ok_def)
next
  case (Suc fuel)
  have nr: "wait_ok n i u q" if "ops_in u = []" "q \<noteq> Return None" for u q using that by (simp add: wait_ok_def)
  from Suc.prems[unfolded waitForOperation.simps] show ?case
  proof (cases rule: call_select_trace)
    case (3 d u)
    show ?thesis
    proof (cases d)
      case None
      with 3 have "after (call_getop n i (\<lambda>a. case a of Inl err \<Rightarrow> waitForOperation fuel g j n i ty
           | Inr resp \<Rightarrow> (case gor_status resp of
                OPERATION_STATUS_COMPLETE \<Rightarrow> call_unit (ObserveDuration g j n ty (gor_elapsed_ms resp)) (Return None)
              | OPERATION_STATUS_FAILED \<Rightarrow>
                  Return (Some (Text (errorf [''operation '', i, '' failed: '', (case gor_error resp of None \<Rightarrow> ''unknown error'' | Some e \<Rightarrow> e)])))
              | _ \<Rightarrow> waitForOperation fuel g j n i ty))) u = Some p" by simp
      then have "wait_ok n i u p"
      proof (cases rule: call_getop_trace)
        case (3 a v)
        show ?thesis
        proof (cases "\<exists>resp. a = Inr resp \<and> gor_status resp = OPERATION_STATUS_COMPLETE")
          case True
          then obtain resp where a: "a = Inr resp" "gor_status resp = OPERATION_STATUS_COMPLETE" by blast
          with 3(2) have "after (call_unit (ObserveDuration g j n ty (gor_elapsed_ms resp)) (Return None)) v = Some p" by simp
          then have "ops_in v = []" by (cases rule: call_unit_trace) auto
          then show ?thesis using 3(1) a unfolding wait_ok_def by force
        next
          case False
          with 3(2) have "wait_ok n i v p"
            by (auto intro: nr Suc.IH split: sum.splits OperationStatus.splits)
          with 3(1) show ?thesis by (simp add: wait_ok_Cons)
        qed
      qed (auto intro: nr)
      with 3 show ?thesis by (simp add: wait_ok_Cons)
    qed (use 3 nr in auto)
  qed (auto intro: nr)
qed

lemma pbind_Return_iff: "pbind p f = Return x \<longleftrightarrow> (\<exists>y. p = Return y \<and> f y = Return x)"
  by (cases p) auto

text \<open>
  An agent operation triggers nothing but its own request, first of all; when it returns
  without error, the operation was reported complete and the node re-read; and when the trigger
  fails, the next call cancels the passes of the other nodes.
\<close>

lemma runAgentOperation_trace:
  assumes "after (runAgentOperation fuel g ty n j trig) t = Some p" and "is_op trig"
  shows "ops_in t = (if t = [] then [] else [trig])" and "p = Return None \<Longrightarrow> op_done trig g n t"
    and "t \<noteq> [] \<Longrightarrow> fst (hd t) = trig"
proof -
  have *: "ops_in t = (if t = [] then [] else [trig]) \<and> (p = Return None \<longrightarrow> op_done trig g n t) \<and>
      (t \<noteq> [] \<longrightarrow> fst (hd t) = trig)"
    using assms(1)[unfolded runAgentOperation_def]
  proof (cases rule: call_op_trace)
    case (3 a u)
    show ?thesis
    proof (cases a)
      case (Inl err)
      with 3(2) have "after (call_unit CancelPeers (Return (Some (Wrap (errorf [''failed to trigger '', ty, '' for job '', j, '' on node '', n]) err)))) u = Some p" by simp
      then show ?thesis using 3(1) assms(2) by (cases rule: call_unit_trace) auto
    next
      case (Inr i)
      let ?w = "waitForOperation fuel g j n i ty"
      let ?f = "\<lambda>w. case w of
           Some err \<Rightarrow> Return (Some (Wrap (errorf [''failed while waiting for '', ty, '' operation '', i, '' for job '', j, '' on node '', n]) err))
         | None \<Rightarrow> call_refresh g n (\<lambda>e. case e of
               Some err \<Rightarrow> Return (Some (Wrap (errorf [''failed to refresh agent state after '', ty, '' on '', n]) err))
             | None \<Rightarrow> Return None)"
      from Inr 3(2) have "after (pbind ?w ?f) u = Some p" by simp
      then show ?thesis
      proof (cases rule: after_pbindE)
        case A: (1 p1)
        then have "wait_ok n i u p1" by (blast intro: waitForOperation_trace)
        with A(4) show ?thesis using 3(1) assms(2) by (simp add: wait_ok_def)
      next
        case B: (2 t1 t2 x)
        have w: "wait_ok n i t1 (Return x)" using B(2) by (rule waitForOperation_trace)
        show ?thesis
        proof (cases x)
          case None
          from w None obtain v resp v' where v: "t1 = v @ (AgentGetOperation n i, ROp (Inr resp)) # v'"
            "gor_status resp = OPERATION_STATUS_COMPLETE" by (auto simp: wait_ok_def)
          from B(3) None have r: "after (call_refresh g n (\<lambda>e. case e of
               Some err \<Rightarrow> Return (Some (Wrap (errorf [''failed to refresh agent state after '', ty, '' on '', n]) err))
             | None \<Rightarrow> Return None)) t2 = Some p" by simp
          have t2: "ops_in t2 = [] \<and> (p = Return None \<longrightarrow> (RefreshNode g n, RErr None) \<in> set t2)"
            using r by (cases rule: call_refresh_trace) (auto split: option.splits)
          have "t = [] @ (trig, ROpId (Inr i)) # v @ (AgentGetOperation n i, ROp (Inr resp)) # (v' @ t2)"
            using 3(1) Inr B(1) v by simp
          with v(2) t2 have "p = Return None \<longrightarrow> op_done trig g n t"
            unfolding op_done_def by (metis UnCI set_append)
          with t2 w 3(1) B(1) assms(2) show ?thesis by (simp add: wait_ok_def)
        qed (use w 3(1) B assms(2) in \<open>auto simp: wait_ok_def\<close>)
      qed
    qed
  qed (use assms(2) in simp_all)
  then show "ops_in t = (if t = [] then [] else [trig])" and "p = Return None \<Longrightarrow> op_done trig g n t"
    and "t \<noteq> [] \<Longrightarrow> fst (hd t) = trig" by blast+
qed

text \<open>The jobs a pass has to park, in the order of the list.\<close>

definition to_park :: "string \<Rightarrow> (string \<times> ContextState) list \<Rightarrow> job list \<Rightarrow> string list" where
  "to_park a states js = filter (\<lambda>i. i \<noteq> a \<and> ctx_at states i = STATE_RUNNING) (map j_jobID js)"

lemma to_park_simps [simp]:
  "to_park a states [] = []"
  "to_park a states (j # js) =
     (if j_jobID j \<noteq> a \<and> ctx_at states (j_jobID j) = STATE_RUNNING then j_jobID j # to_park a states js
      else to_park a states js)"
  by (simp_all add: to_park_def)

definition park_ok ::
  "string \<Rightarrow> string \<Rightarrow> string \<Rightarrow> (string \<times> ContextState) list \<Rightarrow> job list \<Rightarrow> node_trace \<Rightarrow> go_error option list proc \<Rightarrow> bool" where
  "park_ok g n a states js t p \<longleftrightarrow>
     prefix (map op_job (ops_in t)) (to_park a states js) \<and>
     (\<forall>q \<in> set (ops_in t). \<exists>c. q = AgentSnapshot n (op_job q) g c) \<and>
     (\<forall>errs. p = Return errs \<and> set errs \<subseteq> {None} \<longrightarrow>
        (\<forall>j \<in> set js. j_jobID j \<noteq> a \<longrightarrow> ctx_at states (j_jobID j) \<noteq> STATE_TRANSITIONING \<and>
           (ctx_at states (j_jobID j) = STATE_RUNNING \<longrightarrow> (\<exists>c. op_done (AgentSnapshot n (j_jobID j) g c) g n t))))"

lemma park_errs: "after (park fuel g n a states js pend) t = Some (Return errs) \<Longrightarrow> set pend \<subseteq> set errs"
proof (induction js arbitrary: pend t)
  case (Cons j js)
  show ?case
  proof (cases "j_jobID j \<noteq> a \<and> ctx_at states (j_jobID j) = STATE_RUNNING")
    case True
    with Cons.prems have "after (call_cfg g (j_jobID j) (\<lambda>c. pbind (runAgentOperation fuel g ''snapshot'' n (j_jobID j)
         (AgentSnapshot n (j_jobID j) g c)) (\<lambda>e. park fuel g n a states js (pend @ [e])))) t = Some (Return errs)" by simp
    then show ?thesis
    proof (cases rule: call_cfg_trace)
      case (3 c u)
      from 3(2) obtain t2 x where "after (park fuel g n a states js (pend @ [x])) t2 = Some (Return errs)"
        by (rule after_pbindE) blast+
      from Cons.IH[OF this] show ?thesis by simp
    qed simp_all
  next
    case False
    then obtain pend' where "after (park fuel g n a states js pend') t = Some (Return errs)" "set pend \<subseteq> set pend'"
      using Cons.prems by (fastforce split: if_splits ContextState.splits)
    with Cons.IH show ?thesis by blast
  qed
qed simp

lemma park_trace:
  "after (park fuel g n a states js pend) t = Some p \<Longrightarrow> park_ok g n a states js t p"
proof (induction js arbitrary: pend t)
  case Nil
  then show ?case by (simp add: park_ok_def)
next
  case (Cons j js)
  let ?j = "j_jobID j"
  show ?case
  proof (cases "?j \<noteq> a \<and> ctx_at states ?j = STATE_RUNNING")
    case True
    let ?run = "\<lambda>c. runAgentOperation fuel g ''snapshot'' n ?j (AgentSnapshot n ?j g c)"
    let ?rest = "\<lambda>e. park fuel g n a states js (pend @ [e])"
    from True Cons.prems have "after (call_cfg g ?j (\<lambda>c. pbind (?run c) ?rest)) t = Some p" by simp
    then show ?thesis
    proof (cases rule: call_cfg_trace)
      case (3 c u)
      from 3(2) show ?thesis
      proof (cases rule: after_pbindE)
        case A: (1 p1)
        have "ops_in u = (if u = [] then [] else [AgentSnapshot n ?j g c])"
          using runAgentOperation_trace(1)[OF A(1)] by simp
        with A(4) show ?thesis using 3(1) True by (auto simp: park_ok_def)
      next
        case B: (2 t1 t2 x)
        have ne: "t1 \<noteq> []" using B(2) by (auto simp: runAgentOperation_def)
        have o: "ops_in t1 = [AgentSnapshot n ?j g c]"
          using runAgentOperation_trace(1)[OF B(2)] ne by simp
        have r: "park_ok g n a states js t2 p" using B(3) by (rule Cons.IH)
        have t: "t = ((JobConfig g ?j, RCfg c) # t1) @ t2" using 3(1) B(1) by simp
        have d: "op_done (AgentSnapshot n ?j g c) g n t" if "x = None"
          using runAgentOperation_trace(2)[OF B(2)] that op_done_append_right[of _ g n t1 t2]
            op_done_append_left[of _ g n "t1 @ t2" "[(JobConfig g ?j, RCfg c)]"] t by simp
        have x: "x = None" if "p = Return errs" "set errs \<subseteq> {None}" for errs
          using park_errs[of fuel g n a states js "pend @ [x]" t2 errs] B(3) that by auto
        have keep: "op_done q g n t2 \<Longrightarrow> op_done q g n t" for q unfolding t by (rule op_done_append_left)
        show ?thesis
          unfolding park_ok_def
        proof (intro conjI allI impI)
          show "prefix (map op_job (ops_in t)) (to_park a states (j # js))"
            using r t o True by (simp add: park_ok_def)
          show "\<forall>q \<in> set (ops_in t). \<exists>c. q = AgentSnapshot n (op_job q) g c"
            using r t o by (auto simp: park_ok_def)
          fix errs assume e: "p = Return errs \<and> set errs \<subseteq> {None}"
          then have "\<exists>c. op_done (AgentSnapshot n ?j g c) g n t" using d x by blast
          then show "\<forall>k \<in> set (j # js). j_jobID k \<noteq> a \<longrightarrow> ctx_at states (j_jobID k) \<noteq> STATE_TRANSITIONING \<and>
             (ctx_at states (j_jobID k) = STATE_RUNNING \<longrightarrow> (\<exists>c. op_done (AgentSnapshot n (j_jobID k) g c) g n t))"
            using r e True keep unfolding park_ok_def by (auto, blast+)
        qed
      qed
    qed (use True in \<open>auto simp: park_ok_def\<close>)
  next
    case False
    then obtain pend' where r: "after (park fuel g n a states js pend') t = Some p"
      and tr: "?j \<noteq> a \<and> ctx_at states ?j = STATE_TRANSITIONING \<longrightarrow> (\<exists>e. Some e \<in> set pend')"
      using Cons.prems by (fastforce split: if_splits ContextState.splits)
    have "\<not> set errs \<subseteq> {None}" if "?j \<noteq> a \<and> ctx_at states ?j = STATE_TRANSITIONING" "p = Return errs" for errs
      using park_errs[of fuel g n a states js pend' t errs] r tr that by auto
    with Cons.IH[OF r] False show ?thesis by (auto simp: park_ok_def)
  qed
qed

lemma restoreActive_trace:
  assumes "after (restoreActive fuel g n a) t = Some p"
  shows "ops_in t = [] \<or> (a \<noteq> [] \<and> (\<exists>c. ops_in t = [AgentRestore n a g c]) \<and>
    (\<exists>job. (GetJob g a, RJob (Inr job)) \<in> set t \<and> ctx_at (contextState job) n = STATE_SAVED))"
proof (cases "a = []")
  case False
  with assms have "after (call_get g a (\<lambda>x. case x of
          Inl err \<Rightarrow> if errors_is err ErrNotFound then Return None
            else Return (Some (Wrap (errorf [''failed to get active job '', a]) err))
        | Inr active \<Rightarrow> if ctx_at (contextState active) n \<noteq> STATE_SAVED then Return None
            else call_cfg g a (\<lambda>c. runAgentOperation fuel g ''restore'' n a (AgentRestore n a g c)))) t = Some p"
    by (simp add: restoreActive_def)
  then show ?thesis
  proof (cases rule: call_get_trace)
    case (3 x u)
    show ?thesis
    proof (cases "\<exists>job. x = Inr job \<and> ctx_at (contextState job) n = STATE_SAVED")
      case True
      then obtain job where job: "x = Inr job" "ctx_at (contextState job) n = STATE_SAVED" by blast
      with 3(2) have "after (call_cfg g a (\<lambda>c. runAgentOperation fuel g ''restore'' n a (AgentRestore n a g c))) u = Some p"
        by simp
      then show ?thesis
      proof (cases rule: call_cfg_trace)
        case c: (3 c v)
        from runAgentOperation_trace(1)[OF c(2)] show ?thesis using c(1) 3(1) job False by auto
      qed (use 3(1) in auto)
    next
      case no: False
      with 3(2) have "u = []" by (auto split: sum.splits if_splits)
      with 3(1) show ?thesis by simp
    qed
  qed auto
qed (use assms in \<open>simp add: restoreActive_def\<close>)

text \<open>
  Everything the pass does after the list of jobs: the early exits, or parking, then restoring.
\<close>

definition nodeBody :: "nat \<Rightarrow> string \<Rightarrow> string \<Rightarrow> string \<Rightarrow> job list \<Rightarrow> go_error option proc" where
  "nodeBody fuel g n a js =
     pbind (park fuel g n a (agentJobStates n js []) (sort_key j_jobID js) [])
       (\<lambda>pending. case errors_join pending of Some err \<Rightarrow> Return (Some err) | None \<Rightarrow> restoreActive fuel g n a)"

definition early_exit :: "string \<Rightarrow> string \<Rightarrow> job list \<Rightarrow> bool" where
  "early_exit n a js \<longleftrightarrow> a \<noteq> [] \<and>
     map_of (agentJobStates n js []) a \<in> {Some STATE_RUNNING, Some STATE_FAULTED, Some STATE_TRANSITIONING}"

lemma reconcileNode_cases:
  assumes "after (reconcileNode fuel g n a) t = Some p"
  obtains "t = []" | r where "t = [(ListJobs g, r)]" "p = Hang" | e x where "t = [(ListJobs g, RJobs (Inl e))]" "p = Return (Some x)"
    | js x where "early_exit n a js" "t = [(ListJobs g, RJobs (Inr js))]" "p = Return x"
    | js u where "\<not> early_exit n a js" "t = (ListJobs g, RJobs (Inr js)) # u" "after (nodeBody fuel g n a js) u = Some p"
  using assms[unfolded reconcileNode_def]
proof (cases rule: call_list_trace)
  case (3 x u)
  show thesis
  proof (cases x)
    case (Inl e)
    with 3 that(3) show thesis by auto
  next
    case (Inr js)
    show thesis
    proof (cases "early_exit n a js")
      case True
      with 3 Inr that(4)[of js] show thesis by (auto simp: early_exit_def Let_def split: if_splits)
    next
      case False
      with 3 Inr that(5)[of js u] show thesis by (auto simp: early_exit_def Let_def nodeBody_def split: if_splits)
    qed
  qed
qed (use that in auto)

definition parked_all :: "string \<Rightarrow> string \<Rightarrow> string \<Rightarrow> job list \<Rightarrow> node_trace \<Rightarrow> bool" where
  "parked_all g n a js t \<longleftrightarrow>
     (\<forall>j \<in> set js. j_jobID j \<noteq> a \<longrightarrow>
        ctx_at (agentJobStates n js []) (j_jobID j) \<noteq> STATE_TRANSITIONING \<and>
        (ctx_at (agentJobStates n js []) (j_jobID j) = STATE_RUNNING \<longrightarrow>
           (\<exists>c. op_done (AgentSnapshot n (j_jobID j) g c) g n t)))"

lemma nodeBody_trace:
  assumes "after (nodeBody fuel g n a js) t = Some p"
  obtains snaps rest where "ops_in t = snaps @ rest"
    "prefix (map op_job snaps) (to_park a (agentJobStates n js []) (sort_key j_jobID js))"
    "\<And>q. q \<in> set snaps \<Longrightarrow> \<exists>c. q = AgentSnapshot n (op_job q) g c"
    "rest = [] \<or> (a \<noteq> [] \<and> (\<exists>c. rest = [AgentRestore n a g c]) \<and> parked_all g n a js t \<and>
       (\<exists>job. (GetJob g a, RJob (Inr job)) \<in> set t \<and> ctx_at (contextState job) n = STATE_SAVED))"
  using assms[unfolded nodeBody_def]
proof (cases rule: after_pbindE)
  case (1 p1)
  from park_trace[OF 1(1)] that[of "ops_in t" "[]"] show thesis by (auto simp: park_ok_def)
next
  case (2 t1 t2 errs)
  note k = park_trace[OF 2(2)]
  show thesis
  proof (cases "set errs \<subseteq> {None}")
    case True
    then have "after (restoreActive fuel g n a) t2 = Some p" using 2(3) by (simp add: errors_join_None_iff[THEN iffD2])
    from restoreActive_trace[OF this]
    have r: "ops_in t2 = [] \<or> (a \<noteq> [] \<and> (\<exists>c. ops_in t2 = [AgentRestore n a g c]) \<and>
      (\<exists>job. (GetJob g a, RJob (Inr job)) \<in> set t2 \<and> ctx_at (contextState job) n = STATE_SAVED))" .
    have "parked_all g n a js t1" using k True by (auto simp: park_ok_def parked_all_def)
    then have "parked_all g n a js t" unfolding 2(1) parked_all_def by (meson op_done_append_right)
    with r k show thesis using 2(1) that[of "ops_in t1" "ops_in t2"] by (auto simp: park_ok_def)
  next
    case False
    then obtain x where "errors_join errs = Some x" using errors_join_None_iff[of errs] by blast
    with 2(3) have "t2 = []" by simp
    with k 2(1) that[of "ops_in t1" "[]"] show thesis by (auto simp: park_ok_def)
  qed
qed

lemma op_done_snoc:
  assumes "op_done q g n (t @ [x])" and "fst x \<noteq> RefreshNode g n"
  shows "op_done q g n t"
proof -
  from assms(1) obtain t1 i t2 resp t3
    where t: "t @ [x] = t1 @ (q, ROpId (Inr i)) # t2 @ (AgentGetOperation n i, ROp (Inr resp)) # t3"
      "gor_status resp = OPERATION_STATUS_COMPLETE" "(RefreshNode g n, RErr None) \<in> set t3"
    unfolding op_done_def by blast
  from t(3) obtain t3' y where t3: "t3 = t3' @ [y]" by (cases t3 rule: rev_cases) auto
  with t(1) have "t = t1 @ (q, ROpId (Inr i)) # t2 @ (AgentGetOperation n i, ROp (Inr resp)) # t3'" and y: "y = x"
    by (metis (no_types, lifting) append.assoc append_Cons butlast_snoc, metis (no_types, lifting) append.assoc append_Cons last_snoc)
  moreover have "(RefreshNode g n, RErr None) \<in> set t3'" using t(3) t3 y assms(2) by auto
  ultimately show ?thesis unfolding op_done_def using t(2) by blast
qed

text \<open>
  A pass restores only the active job, read as SAVED, after every other job it found running on
  the node was parked.
\<close>

lemma restore_trace:
  assumes "after (reconcileNode fuel g n a) (t @ [(AgentRestore n' j g' c, r)]) = Some p"
  shows "n' = n \<and> g' = g \<and> j = a \<and> a \<noteq> [] \<and>
    (\<exists>job. (GetJob g a, RJob (Inr job)) \<in> set t \<and> ctx_at (contextState job) n = STATE_SAVED) \<and>
    (\<exists>js. t \<noteq> [] \<and> hd t = (ListJobs g, RJobs (Inr js)) \<and> parked_all g n a js t)"
  using assms
proof (cases rule: reconcileNode_cases)
  case (5 js u)
  let ?x = "(AgentRestore n' j g' c, r)"
  obtain v where v: "t = (ListJobs g, RJobs (Inr js)) # v" "u = v @ [?x]" using 5(2) by (cases t) auto
  from 5(3) obtain snaps rest where b: "ops_in u = snaps @ rest"
    "\<And>q. q \<in> set snaps \<Longrightarrow> \<exists>c. q = AgentSnapshot n (op_job q) g c"
    "rest = [] \<or> (a \<noteq> [] \<and> (\<exists>c. rest = [AgentRestore n a g c]) \<and> parked_all g n a js u \<and>
       (\<exists>job. (GetJob g a, RJob (Inr job)) \<in> set u \<and> ctx_at (contextState job) n = STATE_SAVED))"
    by (rule nodeBody_trace) blast
  from b(1) v have o: "snaps @ rest = ops_in v @ [AgentRestore n' j g' c]" by simp
  have "rest \<noteq> []"
  proof
    assume "rest = []"
    with o have "AgentRestore n' j g' c \<in> set snaps" by simp
    from b(2)[OF this] show False by simp
  qed
  with b(3) obtain c' where r: "rest = [AgentRestore n a g c']" "a \<noteq> []" "parked_all g n a js u"
    and job: "\<exists>job. (GetJob g a, RJob (Inr job)) \<in> set u \<and> ctx_at (contextState job) n = STATE_SAVED" by blast
  from o r(1) have eq: "n' = n" "j = a" "g' = g" by simp_all
  have "parked_all g n a js v"
    using r(3) op_done_snoc[of _ g n v ?x] unfolding v parked_all_def by fastforce
  then have "parked_all g n a js t"
    unfolding v parked_all_def using op_done_append_left[of _ g n v "[(ListJobs g, RJobs (Inr js))]"] by fastforce
  with eq r(2) job v show ?thesis by auto
qed (auto simp: append_eq_Cons_conv)

text \<open>A handover on node \<open>n1\<close>: job \<open>b\<close> runs there, the active job \<open>a\<close> is saved.\<close>

definition handover_jobs :: "job list" where
  "handover_jobs = [UpdateContextState ''n1'' STATE_RUNNING (NewJob ''g'' ''b''),
                    UpdateContextState ''n1'' STATE_SAVED (NewJob ''g'' ''a'')]"

definition op_complete :: GetOperationResponse where
  "op_complete = \<lparr>gor_status = OPERATION_STATUS_COMPLETE, gor_storage_bytes = None,
     gor_snapshot_device_bytes = None, gor_elapsed_ms = 3, gor_error = None\<rparr>"

definition handover_trace :: node_trace where
  "handover_trace =
     [(ListJobs ''g'', RJobs (Inr handover_jobs)),
      (JobConfig ''g'' ''b'', RCfg None),
      (AgentSnapshot ''n1'' ''b'' ''g'' None, ROpId (Inr ''op1'')),
      (SelectTick, RDone None),
      (AgentGetOperation ''n1'' ''op1'', ROp (Inr op_complete)),
      (ObserveDuration ''g'' ''b'' ''n1'' ''snapshot'' 3, RUnit),
      (RefreshNode ''g'' ''n1'', RErr None),
      (GetJob ''g'' ''a'', RJob (Inr (handover_jobs ! 1))),
      (JobConfig ''g'' ''a'', RCfg None)]"

subsection \<open>Further properties of the pass\<close>

text \<open>
  on a node, a pass triggers snapshots only of jobs other than the active one that it found
  running there, each at most once, in ascending order of the job identifiers and without
  skipping one; and nothing but the restore of the active job after them.\<close>

theorem pass_operations_in_order:
  assumes "after (reconcileNode fuel g n a) ((ListJobs g, RJobs (Inr js)) # t) = Some p"
  shows "\<exists>snaps rest. ops_in t = snaps @ rest \<and>
    prefix (map op_job snaps) (to_park a (agentJobStates n js []) (sort_key j_jobID js)) \<and>
    (\<forall>q \<in> set snaps. \<exists>c. q = AgentSnapshot n (op_job q) g c) \<and>
    (rest = [] \<or> (\<exists>c. rest = [AgentRestore n a g c]))"
  using assms
proof (cases rule: reconcileNode_cases)
  case (5 js' u)
  then have "after (nodeBody fuel g n a js) t = Some p" by simp
  then obtain snaps rest where "ops_in t = snaps @ rest"
    "prefix (map op_job snaps) (to_park a (agentJobStates n js []) (sort_key j_jobID js))"
    "\<And>q. q \<in> set snaps \<Longrightarrow> \<exists>c. q = AgentSnapshot n (op_job q) g c" "rest = [] \<or> (\<exists>c. rest = [AgentRestore n a g c])"
    by (rule nodeBody_trace) blast
  then show ?thesis by blast
qed simp_all

theorem pass_operations_in_order_witness:
  "\<exists>snaps rest. ops_in (tl handover_trace) = snaps @ rest \<and>
     prefix (map op_job snaps) [''b''] \<and> (rest = [] \<or> (\<exists>c. rest = [AgentRestore ''n1'' ''a'' ''g'' c]))"
proof -
  have "case after (reconcileNode 1 ''g'' ''n1'' ''a'') ((ListJobs ''g'', RJobs (Inr handover_jobs)) # tl handover_trace) of
      None \<Rightarrow> False | Some _ \<Rightarrow> True" by code_simp
  then obtain p where p: "after (reconcileNode 1 ''g'' ''n1'' ''a'') ((ListJobs ''g'', RJobs (Inr handover_jobs)) # tl handover_trace) = Some p"
    by (auto split: option.splits)
  have "to_park ''a'' (agentJobStates ''n1'' handover_jobs []) (sort_key j_jobID handover_jobs) = [''b'']" by code_simp
  with pass_operations_in_order[OF p] show ?thesis by auto
qed

lemma agentJobStates_lookup:
  assumes "distinct (map j_jobID js)"
  shows "map_of (agentJobStates n js m) i =
    (case find (\<lambda>j. j_jobID j = i) js of None \<Rightarrow> map_of m i | Some j \<Rightarrow> Some (ctx_at (contextState j) n))"
  using assms
proof (induction js arbitrary: m)
  case (Cons j js)
  have "\<forall>k \<in> set js. j_jobID k \<noteq> j_jobID j" using Cons.prems by (simp add: image_iff) metis
  then have "find (\<lambda>k. j_jobID k = j_jobID j) js = None" by (simp add: find_None_iff)
  with Cons show ?case by (auto split: option.splits)
qed simp

lemma find_id:
  assumes "distinct (map j_jobID js)" and "j \<in> set js"
  shows "find (\<lambda>k. j_jobID k = j_jobID j) js = Some j"
  using assms by (induction js) auto

lemma agentJobStates_perm:
  assumes "distinct (map j_jobID js)" and "mset js' = mset js"
  shows "map_of (agentJobStates n js' []) = map_of (agentJobStates n js [])"
proof
  fix i
  have d: "distinct (map j_jobID js')" using assms mset_eq_imp_distinct_iff[of "map j_jobID js'" "map j_jobID js"] by simp
  have s: "set js' = set js" using assms(2) by (rule mset_eq_setD)
  show "map_of (agentJobStates n js' []) i = map_of (agentJobStates n js []) i"
  proof (cases "\<exists>j \<in> set js. j_jobID j = i")
    case True
    then obtain j where j: "j \<in> set js" "j_jobID j = i" by blast
    with find_id[OF assms(1), of j] find_id[OF d, of j] s show ?thesis
      by (simp add: agentJobStates_lookup[OF d] agentJobStates_lookup[OF assms(1)])
  next
    case False
    then have "find (\<lambda>j. j_jobID j = i) js = None" "find (\<lambda>j. j_jobID j = i) js' = None"
      using s by (auto simp: find_None_iff)
    then show ?thesis by (simp add: agentJobStates_lookup[OF d] agentJobStates_lookup[OF assms(1)])
  qed
qed

lemma park_cong:
  "(\<And>i. ctx_at s i = ctx_at s' i) \<Longrightarrow> park fuel g n a s js pend = park fuel g n a s' js pend"
  by (induction js arbitrary: pend) (simp_all split: ContextState.splits)

text \<open>C26: the pass does not depend on the order in which the job map is iterated: after the answers to
  the listing that are rearrangements of each other, the pass is the same process, so all nodes
  park the same jobs in the same order and rendezvous cohorts cannot interleave.\<close>

theorem pass_independent_of_map_order:
  assumes "distinct (map j_jobID js)" and "mset js' = mset js"
  shows "after (reconcileNode fuel g n a) [(ListJobs g, RJobs (Inr js'))] =
         after (reconcileNode fuel g n a) [(ListJobs g, RJobs (Inr js))]"
proof -
  have m: "map_of (agentJobStates n js' []) = map_of (agentJobStates n js [])"
    using assms by (rule agentJobStates_perm)
  then have c: "ctx_at (agentJobStates n js' []) i = ctx_at (agentJobStates n js []) i" for i
    by (simp add: ctx_at_def)
  have "sort_key j_jobID js' = sort_key j_jobID js"
  proof (rule sort_key_inj_key_eq)
    show "mset js' = mset (sort_key j_jobID js)" using assms(2) by simp
    show "inj_on j_jobID (set js')" using assms mset_eq_setD[OF assms(2)] by (simp add: distinct_map)
    show "sorted (map j_jobID (sort_key j_jobID js))" by simp
  qed
  then show ?thesis by (simp add: reconcileNode_def call_list_def Let_def m park_cong[OF c])
qed

theorem pass_independent_of_map_order_witness:
  "after (reconcileNode 1 ''g'' ''n1'' ''a'') [(ListJobs ''g'', RJobs (Inr (rev handover_jobs)))] =
   after (reconcileNode 1 ''g'' ''n1'' ''a'') [(ListJobs ''g'', RJobs (Inr handover_jobs))]"
proof -
  have "distinct (map j_jobID handover_jobs)" by code_simp
  then show ?thesis by (rule pass_independent_of_map_order) simp
qed

text \<open>
  the pass does nothing on a node on which the active job is running (it returns without error),
  is faulted or is in transition (it returns an error, so that the group is tried again): no
  snapshot and no restore is triggered there.\<close>

theorem pass_early_exits:
  assumes "distinct (map j_jobID js)" and "j \<in> set js" and "j_jobID j = a" and "a \<noteq> []"
  shows "(ctx_at (contextState j) n = STATE_RUNNING \<longrightarrow>
      after (reconcileNode fuel g n a) [(ListJobs g, RJobs (Inr js))] = Some (Return None)) \<and>
    (ctx_at (contextState j) n \<in> {STATE_FAULTED, STATE_TRANSITIONING} \<longrightarrow>
      (\<exists>e. after (reconcileNode fuel g n a) [(ListJobs g, RJobs (Inr js))] = Some (Return (Some e))))"
  using assms find_id[OF assms(1,2)]
  by (auto simp: reconcileNode_def call_list_def Let_def agentJobStates_lookup)

theorem pass_early_exits_witness:
  "after (reconcileNode 1 ''g'' ''n1'' ''b'') [(ListJobs ''g'', RJobs (Inr handover_jobs))] = Some (Return None)"
proof -
  let ?j = "handover_jobs ! 0"
  have "distinct (map j_jobID handover_jobs)" "?j \<in> set handover_jobs" "j_jobID ?j = ''b''"
    "ctx_at (contextState ?j) ''n1'' = STATE_RUNNING" by code_simp+
  with pass_early_exits[of handover_jobs ?j "''b''" "''n1''" 1 "''g''"] show ?thesis by simp
qed

text \<open>Polls of an operation that is not finished.\<close>

definition unfinished :: "go_error + GetOperationResponse \<Rightarrow> bool" where
  "unfinished a \<longleftrightarrow>
     (case a of Inl _ \<Rightarrow> True
      | Inr resp \<Rightarrow> gor_status resp \<noteq> OPERATION_STATUS_COMPLETE \<and> gor_status resp \<noteq> OPERATION_STATUS_FAILED)"

definition polls :: "string \<Rightarrow> string \<Rightarrow> (go_error + GetOperationResponse) list \<Rightarrow> node_trace" where
  "polls n i as = concat (map (\<lambda>a. [(SelectTick, RDone None), (AgentGetOperation n i, ROp a)]) as)"

lemma wait_polls:
  "list_all unfinished as \<Longrightarrow>
     after (waitForOperation (fuel + length as) g j n i ty) (polls n i as @ u) =
     after (waitForOperation fuel g j n i ty) u"
proof (induction as)
  case (Cons a as)
  then have "after (waitForOperation (Suc (fuel + length as)) g j n i ty)
      ((SelectTick, RDone None) # (AgentGetOperation n i, ROp a) # polls n i as @ u) =
      after (waitForOperation (fuel + length as) g j n i ty) (polls n i as @ u)"
    by (auto simp: call_select_def call_getop_def unfinished_def split: sum.splits OperationStatus.splits)
  with Cons show ?case by (simp add: polls_def)
qed (simp add: polls_def)

text \<open>C27: waiting for an operation ends when the operation does: after any number of failed or
  undecided polls within the bound, a poll that reports completion makes it return without
  error, one that reports failure makes it return the agent's error, and a cancelled context
  makes it return the context's error.\<close>

theorem wait_ends_with_operation:
  assumes "list_all unfinished as" and "length as < fuel"
  shows "(gor_status resp = OPERATION_STATUS_COMPLETE \<longrightarrow>
       after (waitForOperation fuel g j n i ty) (polls n i (as @ [Inr resp]) @
         [(ObserveDuration g j n ty (gor_elapsed_ms resp), RUnit)]) = Some (Return None)) \<and>
    (gor_status resp = OPERATION_STATUS_FAILED \<longrightarrow>
       after (waitForOperation fuel g j n i ty) (polls n i (as @ [Inr resp])) =
         Some (Return (Some (Text (errorf [''operation '', i, '' failed: '',
           (case gor_error resp of None \<Rightarrow> ''unknown error'' | Some e \<Rightarrow> e)]))))) \<and>
    after (waitForOperation fuel g j n i ty) (polls n i as @ [(SelectTick, RDone (Some err))]) =
      Some (Return (Some (Wrap (errorf [''context cancelled while waiting for operation '', i]) err)))"
proof -
  obtain k where k: "fuel = Suc k + length as"
    using assms(2) by (metis Suc_diff_Suc add_Suc less_imp_add_positive add.commute gr0_implies_Suc)
  have p: "polls n i (as @ [a]) = polls n i as @ [(SelectTick, RDone None), (AgentGetOperation n i, ROp a)]" for a
    by (simp add: polls_def)
  show ?thesis
    unfolding k p append.assoc wait_polls[OF assms(1)]
    by (simp add: call_select_def call_getop_def call_unit_def)
qed

theorem wait_ends_with_operation_witness:
  "after (waitForOperation 2 ''g'' ''j'' ''n'' ''op'' ''snapshot'')
     (polls ''n'' ''op'' [Inl (Status Code_Unavailable []), Inr op_complete] @
      [(ObserveDuration ''g'' ''j'' ''n'' ''snapshot'' 3, RUnit)]) = Some (Return None)"
proof -
  have "list_all unfinished [Inl (Status Code_Unavailable [])]"
    and "gor_status op_complete = OPERATION_STATUS_COMPLETE" and "gor_elapsed_ms op_complete = 3" by code_simp+
  with wait_ends_with_operation[of "[Inl (Status Code_Unavailable [])]" 2 op_complete] show ?thesis by simp
qed

subsection \<open>A failed trigger cancels the peers\<close>

definition cancels :: "node_trace \<Rightarrow> 'x proc \<Rightarrow> bool" where
  "cancels t p \<longleftrightarrow> (\<forall>u q e. t = u @ [(q, ROpId (Inl e))] \<and> is_op q \<longrightarrow> (\<exists>k. p = Call CancelPeers k))"

lemma cancels_no_ops: "ops_in t = [] \<Longrightarrow> cancels t p"
  by (auto simp: cancels_def)

lemma cancels_Cons: "cancels t p \<Longrightarrow> \<not> is_op (fst x) \<Longrightarrow> cancels (x # t) p"
  by (auto simp: cancels_def Cons_eq_append_conv)

lemma cancels_append: "cancels t2 p \<Longrightarrow> t2 \<noteq> [] \<Longrightarrow> cancels (t1 @ t2) p"
  by (cases t2 rule: rev_cases) (auto simp: cancels_def)

lemma cancels_pbind: "cancels t p \<Longrightarrow> cancels t (pbind p f)"
  by (fastforce simp: cancels_def)

lemma runAgentOperation_cancels:
  assumes "after (runAgentOperation fuel g ty n j trig) t = Some p" and "is_op trig"
  shows "cancels t p"
proof -
  from assms(1)[unfolded runAgentOperation_def] show ?thesis
  proof (cases rule: call_op_trace)
    case (3 a u)
    show ?thesis
    proof (cases a)
      case (Inl err)
      with 3(2) have c: "after (call_unit CancelPeers (Return (Some (Wrap (errorf [''failed to trigger '', ty, '' for job '', j,
          '' on node '', n]) err)))) u = Some p" by simp
      then show ?thesis
        by (cases rule: call_unit_trace) (use 3(1) in \<open>auto simp: cancels_def call_unit_def Cons_eq_append_conv\<close>)
    next
      case (Inr i)
      have "ops_in u = []" using runAgentOperation_trace(1)[OF assms] 3(1) assms(2) by simp
      then show ?thesis using 3(1) Inr by (cases u rule: rev_cases) (auto simp: cancels_def Cons_eq_append_conv)
    qed
  qed (auto simp: cancels_def)
qed

lemma park_cancels: "after (park fuel g n a states js pend) t = Some p \<Longrightarrow> cancels t p"
proof (induction js arbitrary: pend t)
  case (Cons j js)
  let ?j = "j_jobID j"
  show ?case
  proof (cases "?j \<noteq> a \<and> ctx_at states ?j = STATE_RUNNING")
    case True
    with Cons.prems have "after (call_cfg g ?j (\<lambda>c. pbind (runAgentOperation fuel g ''snapshot'' n ?j
         (AgentSnapshot n ?j g c)) (\<lambda>e. park fuel g n a states js (pend @ [e])))) t = Some p" by simp
    then show ?thesis
    proof (cases rule: call_cfg_trace)
      case (3 c u)
      from 3(2) have "cancels u p"
      proof (cases rule: after_pbindE)
        case (1 p1)
        from runAgentOperation_cancels[OF 1(1)] 1(2) show ?thesis by (simp add: cancels_pbind)
      next
        case (2 t1 t2 x)
        show ?thesis
        proof (cases "t2 = []")
          case True
          with runAgentOperation_cancels[OF 2(2)] 2(1) show ?thesis by (auto simp: cancels_def)
        qed (use 2 Cons.IH cancels_append in blast)
      qed
      with 3(1) show ?thesis by (simp add: cancels_Cons)
    qed (auto simp: cancels_def)
  next
    case False
    then obtain pend' where "after (park fuel g n a states js pend') t = Some p"
      using Cons.prems by (fastforce split: if_splits ContextState.splits)
    then show ?thesis by (rule Cons.IH)
  qed
qed (auto simp: cancels_def)

lemma restoreActive_cancels:
  assumes "after (restoreActive fuel g n a) t = Some p"
  shows "cancels t p"
proof (cases "ops_in t = []")
  case False
  then have "a \<noteq> []" using restoreActive_trace[OF assms] by blast
  with assms have "after (call_get g a (\<lambda>x. case x of
          Inl err \<Rightarrow> if errors_is err ErrNotFound then Return None
            else Return (Some (Wrap (errorf [''failed to get active job '', a]) err))
        | Inr active \<Rightarrow> if ctx_at (contextState active) n \<noteq> STATE_SAVED then Return None
            else call_cfg g a (\<lambda>c. runAgentOperation fuel g ''restore'' n a (AgentRestore n a g c)))) t = Some p"
    by (simp add: restoreActive_def)
  then show ?thesis
  proof (cases rule: call_get_trace)
    case (3 x u)
    with False obtain job where "after (call_cfg g a (\<lambda>c. runAgentOperation fuel g ''restore'' n a (AgentRestore n a g c))) u = Some p"
      by (auto split: sum.splits if_splits)
    then have "cancels u p"
    proof (cases rule: call_cfg_trace)
      case c: (3 c v)
      from runAgentOperation_cancels[OF c(2)] c(1) show ?thesis by (simp add: cancels_Cons)
    qed (auto simp: cancels_def)
    with 3(1) show ?thesis by (simp add: cancels_Cons)
  qed (auto simp: cancels_def)
qed (rule cancels_no_ops)

text \<open>C17: when a snapshot or restore cannot be triggered on a node, the next thing the pass does is to
  cancel the passes of the other nodes, so that none of them waits for a cohort that cannot
  form.\<close>

theorem failed_trigger_cancels_peers:
  assumes "after (reconcileNode fuel g n a) (t @ [(q, ROpId (Inl e))]) = Some p" and "is_op q"
  shows "\<exists>k. p = Call CancelPeers k"
  using assms(1)
proof (cases rule: reconcileNode_cases)
  case (5 js u)
  have "cancels u p"
    using 5(3)[unfolded nodeBody_def]
  proof (cases rule: after_pbindE)
    case (1 p1)
    from park_cancels[OF 1(1)] 1(2) show ?thesis by (simp add: cancels_pbind)
  next
    case (2 t1 t2 errs)
    show ?thesis
    proof (cases "t2 = []")
      case True
      with park_cancels[OF 2(2)] 2(1) show ?thesis by (auto simp: cancels_def)
    next
      case False
      with 2(3) have "cancels t2 p" by (cases "errors_join errs") (auto intro: restoreActive_cancels)
      with False 2(1) show ?thesis by (simp add: cancels_append)
    qed
  qed
  then have "cancels (t @ [(q, ROpId (Inl e))]) p" unfolding 5(2) by (simp add: cancels_Cons)
  with assms(2) show ?thesis unfolding cancels_def by blast
qed (use assms(2) in \<open>auto simp: append_eq_Cons_conv\<close>)

theorem failed_trigger_cancels_peers_witness:
  "\<exists>k. after (reconcileNode 1 ''g'' ''n1'' ''a'')
     (take 2 handover_trace @ [(AgentSnapshot ''n1'' ''b'' ''g'' None, ROpId (Inl (Status Code_Unavailable [])))]) =
     Some (Call CancelPeers k)"
proof -
  let ?t = "take 2 handover_trace @ [(AgentSnapshot ''n1'' ''b'' ''g'' None, ROpId (Inl (Status Code_Unavailable [])))]"
  have "case after (reconcileNode 1 ''g'' ''n1'' ''a'') ?t of None \<Rightarrow> False | Some _ \<Rightarrow> True" by code_simp
  then obtain p where p: "after (reconcileNode 1 ''g'' ''n1'' ''a'') ?t = Some p" by (auto split: option.splits)
  from failed_trigger_cancels_peers[OF p] p show ?thesis by auto
qed

end
