(* ===== verification/Reconcile.thy ===== *)
theory Reconcile
  imports Node_Pass
begin

text \<open>
  One reconciliation of a group (\<^verbatim>\<open>reconcileGroup\<close>, \<^verbatim>\<open>processNextWorkItem\<close> of
  \<^verbatim>\<open>controller/controller.go\<close>): observe, decide, run the passes of all nodes concurrently,
  publish the status. The interleaving is explicit: a schedule says which node pass makes its
  next call, and when other threads of the process change the state in between. A schedule may
  stop before all passes returned; then the reconciliation has no result yet (\<open>None\<close>).
\<close>

subsection \<open>Answering the calls of a pass\<close>

fun answer ::
  "('s, 'w) env \<Rightarrow> bool \<Rightarrow> node_req \<Rightarrow> ('s, 'w) orch \<Rightarrow> node_resp \<times> bool \<times> ('s, 'w) orch" where
  "answer E cancelled (ListJobs g) st = (RJobs (Inr (ListByGroup g (jobs st))), cancelled, st)"
| "answer E cancelled (GetJob g j) st = (RJob (js_Get g j (jobs st)), cancelled, st)"
| "answer E cancelled (JobConfig g j) st =
     (RCfg (case js_Get g j (jobs st) of Inl _ \<Rightarrow> None | Inr job \<Rightarrow> backendConfig job), cancelled, st)"
| "answer E cancelled (AgentSnapshot n j g c) st =
     (case as_Snapshot (agents E) n j g c (world st) of (r, w) \<Rightarrow> (ROpId r, cancelled, st\<lparr>world := w\<rparr>))"
| "answer E cancelled (AgentRestore n j g c) st =
     (case as_Restore (agents E) n j g c (world st) of (r, w) \<Rightarrow> (ROpId r, cancelled, st\<lparr>world := w\<rparr>))"
| "answer E cancelled SelectTick st =
     (case ctx_done E cancelled (world st) of (r, w) \<Rightarrow> (RDone r, cancelled, st\<lparr>world := w\<rparr>))"
| "answer E cancelled (AgentGetOperation n i) st =
     (case as_GetOperation (agents E) n i (world st) of (r, w) \<Rightarrow> (ROp r, cancelled, st\<lparr>world := w\<rparr>))"
| "answer E cancelled (ObserveDuration g j n ty ms) st =
     (RUnit, cancelled, st\<lparr>meters := (meters st)\<lparr>AgentOperationDuration :=
        AgentOperationDuration (meters st) @ [((g, j, n, ty), ms)]\<rparr>\<rparr>)"
| "answer E cancelled (RefreshNode g n) st =
     (case observeNodeJobContext E g n st of (r, st') \<Rightarrow> (RErr r, cancelled, st'))"
| "answer E cancelled CancelPeers st = (RUnit, True, st)"

subsection \<open>The concurrent passes\<close>

text \<open>The goroutine of a node: an error of the pass also cancels the peers.\<close>

definition nodeGoroutine :: "nat \<Rightarrow> string \<Rightarrow> string \<Rightarrow> string \<Rightarrow> go_error option proc" where
  "nodeGoroutine fuel groupID activeJobID node =
     pbind (reconcileNode fuel groupID node activeJobID) (\<lambda>e. case e of
       Some err \<Rightarrow> call_unit CancelPeers (Return (Some (Wrap (errorf [''failed to reconcile node '', node]) err)))
     | None \<Rightarrow> Return None)"

text \<open>
  A panic of the pass is recovered in its goroutine: it becomes the error of the node and cancels
  the peers. It hits a pass that has not returned, before its next call.
\<close>

definition recovered :: "string \<Rightarrow> string \<Rightarrow> go_error option proc" where
  "recovered node v =
     call_unit CancelPeers (Return (Some (Text (errorf [''panic while reconciling node '', node, '': '', v]))))"

record ('s, 'w) pool =
  pnodes :: "string list"
  procs :: "go_error option proc list"
  cancelled :: bool
  pstate :: "('s, 'w) orch"
  plog :: "(nat \<times> node_req \<times> node_resp) list"

datatype ('s, 'w) sched =
    NodeStep nat
  | NodePanic nat string
  | Other "('s, 'w) orch \<Rightarrow> ('s, 'w) orch"

definition node_step :: "('s, 'w) env \<Rightarrow> nat \<Rightarrow> ('s, 'w) pool \<Rightarrow> ('s, 'w) pool" where
  "node_step E i P =
     (if i < length (procs P) then
        (case procs P ! i of
           Call q k \<Rightarrow>
             (case answer E (cancelled P) q (pstate P) of (r, c, st) \<Rightarrow>
                P\<lparr>procs := (procs P)[i := k r], cancelled := c, pstate := st, plog := plog P @ [(i, q, r)]\<rparr>)
         | _ \<Rightarrow> P)
      else P)"

definition node_panic :: "nat \<Rightarrow> string \<Rightarrow> ('s, 'w) pool \<Rightarrow> ('s, 'w) pool" where
  "node_panic i v P =
     (if i < length (procs P) then
        (case procs P ! i of
           Call q k \<Rightarrow> P\<lparr>procs := (procs P)[i := recovered (pnodes P ! i) v]\<rparr>
         | _ \<Rightarrow> P)
      else P)"

fun pool_step :: "('s, 'w) env \<Rightarrow> ('s, 'w) sched \<Rightarrow> ('s, 'w) pool \<Rightarrow> ('s, 'w) pool" where
  "pool_step E (NodeStep i) P = node_step E i P"
| "pool_step E (NodePanic i v) P = node_panic i v P"
| "pool_step E (Other f) P = P\<lparr>pstate := f (pstate P)\<rparr>"

definition start_pool :: "nat \<Rightarrow> string \<Rightarrow> string \<Rightarrow> string list \<Rightarrow> ('s, 'w) orch \<Rightarrow> ('s, 'w) pool" where
  "start_pool fuel groupID activeJobID ns st =
     \<lparr>pnodes = ns, procs = map (nodeGoroutine fuel groupID activeJobID) ns, cancelled = False, pstate = st, plog = []\<rparr>"

definition run_pool :: "('s, 'w) env \<Rightarrow> ('s, 'w) sched list \<Rightarrow> ('s, 'w) pool \<Rightarrow> ('s, 'w) pool" where
  "run_pool E sch P = fold (pool_step E) sch P"

text \<open>\<^verbatim>\<open>wg.Wait\<close>: the results of all passes, once all returned.\<close>

fun results :: "go_error option proc list \<Rightarrow> go_error option list option" where
  "results [] = Some []"
| "results (Return e # ps) = (case results ps of None \<Rightarrow> None | Some es \<Rightarrow> Some (e # es))"
| "results (_ # ps) = None"

subsection \<open>The reconciliation\<close>

text \<open>
  \<^verbatim>\<open>TryPromote\<close> on a group of the store. A group that is no longer in the store is not
  touched: only the reconciliation of the same group removes it, and the work queue never hands
  out a group twice at the same time.
\<close>

definition promote :: "('s, 'w) env \<Rightarrow> string \<Rightarrow> ('s, 'w) orch \<Rightarrow> (go_error + bool) \<times> ('s, 'w) orch" where
  "promote E groupID st =
     (case map_of (groups st) groupID of
        None \<Rightarrow> (Inr False, st)
      | Some g \<Rightarrow>
          (case TryPromote (lockStore E) (gid g) (spec g) (locks st) of
             (r, sp, s) \<Rightarrow> (r, (with_group groupID (set_spec sp) st)\<lparr>locks := s\<rparr>)))"

definition deduceActive :: "string \<Rightarrow> ('s, 'w) orch \<Rightarrow> go_error option \<times> ('s, 'w) orch" where
  "deduceActive groupID st =
     (case map_of (groups st) groupID of
        None \<Rightarrow> (None, st)
      | Some g \<Rightarrow> (case tryDeduceActiveJob (jobs st) g of (r, g') \<Rightarrow> (r, with_group groupID (\<lambda>_. g') st)))"

definition settle :: "('s, 'w) env \<Rightarrow> string \<Rightarrow> ('s, 'w) orch \<Rightarrow> go_error option \<times> ('s, 'w) orch" where
  "settle E groupID st =
     (case map_of (groups st) groupID of
        None \<Rightarrow> (None, st)
      | Some g \<Rightarrow> waitForGrantSettlement E g st)"

definition publish :: "('s, 'w) env \<Rightarrow> string \<Rightarrow> ('s, 'w) orch \<Rightarrow> go_error option \<times> ('s, 'w) orch" where
  "publish E groupID st =
     (case Now E st of (now, st1) \<Rightarrow>
        (case map_of (groups st1) groupID of
           None \<Rightarrow> (None, st1)
         | Some g \<Rightarrow>
             (case updateGroupStatus now (jobs st1) g of
                (Some err, _) \<Rightarrow> (Some (Wrap ''failed to update group status'' err), st1)
              | (None, g') \<Rightarrow>
                  let st2 = with_group groupID (\<lambda>_. g') st1
                  in (None, st2\<lparr>meters := (meters st2)\<lparr>QueueDepth :=
                       AList.update groupID (snap_WaiterQueueDepth (Snapshot g')) (QueueDepth (meters st2))\<rparr>\<rparr>))))"

definition decide :: "('s, 'w) env \<Rightarrow> string \<Rightarrow> ('s, 'w) orch \<Rightarrow> (go_error + group) \<times> ('s, 'w) orch" where
  "decide E groupID st =
     (case ObserveGroupState E groupID st of
        (Some err, st1) \<Rightarrow> (Inl (Wrap ''failed to observe group state'' err), st1)
      | (None, st1) \<Rightarrow>
     (case ObserveJobContext E groupID st1 of
        (Some err, st2) \<Rightarrow> (Inl (Wrap ''failed to observe job context'' err), st2)
      | (None, st2) \<Rightarrow>
     (case gs_Get groupID (groups st2) of
        Inl err \<Rightarrow> (Inl (Wrap (errorf [''failed to get group '', groupID, '' from store'']) err), st2)
      | Inr _ \<Rightarrow>
     (case deduceActive groupID st2 of
        (Some err, st3) \<Rightarrow> (Inl (Wrap ''failed to try deducing active job'' err), st3)
      | (None, st3) \<Rightarrow>
     (case settle E groupID st3 of
        (Some err, st4) \<Rightarrow> (Inl err, st4)
      | (None, st4) \<Rightarrow>
     (case promote E groupID st4 of
        (Inl err, st5) \<Rightarrow> (Inl (Wrap ''failed to promote next job'' err), st5)
      | (Inr _, st5) \<Rightarrow>
     (case gs_Get groupID (groups st5) of
        Inl err \<Rightarrow> (Inl err, st5)
      | Inr g \<Rightarrow> (Inr g, st5))))))))"

definition reconcileGroup ::
  "('s, 'w) env \<Rightarrow> nat \<Rightarrow> ('s, 'w) sched list \<Rightarrow> string \<Rightarrow> ('s, 'w) orch \<Rightarrow>
     go_error option option \<times> ('s, 'w) orch" where
  "reconcileGroup E fuel sch groupID st =
     (case decide E groupID st of
        (Inl err, st1) \<Rightarrow> (Some (Some err), st1)
      | (Inr g, st1) \<Rightarrow>
          let P = run_pool E sch (start_pool fuel groupID (activeJob (spec g)) (nodes (status g)) st1)
          in case results (procs P) of
               None \<Rightarrow> (None, pstate P)
             | Some nodeErrs \<Rightarrow>
                 (case errors_join nodeErrs of
                    Some err \<Rightarrow> (Some (Some err), pstate P)
                  | None \<Rightarrow> (case publish E groupID (pstate P) of (r, st2) \<Rightarrow> (Some r, st2))))"

text \<open>
  How the reconciliation of an item ends, and what the worker tells the queue: the deferred
  \<^verbatim>\<open>Done\<close> runs in every case, also when the reconciliation panics, and last.
\<close>

datatype outcome = Finished "go_error option" | Panicked

definition hand_back :: "('s, 'w) env \<Rightarrow> string \<Rightarrow> outcome \<Rightarrow> ('s, 'w) orch \<Rightarrow> ('s, 'w) orch" where
  "hand_back E groupID oc st =
     st\<lparr>world := wq_Done (workqueue E) groupID
       (case oc of
          Finished (Some err) \<Rightarrow> wq_AddRateLimited (workqueue E) groupID (world st)
        | Finished None \<Rightarrow> wq_Forget (workqueue E) groupID (world st)
        | Panicked \<Rightarrow> world st)\<rparr>"

text \<open>
  The worker: \<open>Some False\<close> when the queue was shut down, \<open>Some True\<close> to go on,
  \<open>None\<close> while the queue is empty or the reconciliation is not finished.
\<close>

definition processNextWorkItem ::
  "('s, 'w) env \<Rightarrow> nat \<Rightarrow> ('s, 'w) sched list \<Rightarrow> ('s, 'w) orch \<Rightarrow> bool option \<times> ('s, 'w) orch" where
  "processNextWorkItem E fuel sch st =
     (case wq_Get (workqueue E) (world st) of
        None \<Rightarrow> (None, st)
      | Some ((groupID, shutdown), w) \<Rightarrow>
          if shutdown then (Some False, st\<lparr>world := w\<rparr>)
          else
            (case reconcileGroup E fuel sch groupID (st\<lparr>world := w\<rparr>) of
               (None, st1) \<Rightarrow> (None, st1)
             | (Some err, st1) \<Rightarrow> (Some True, hand_back E groupID (Finished err) st1)))"

text \<open>The periodic resync puts every known group on the queue.\<close>

definition resync :: "('s, 'w) env \<Rightarrow> ('s, 'w) orch \<Rightarrow> ('s, 'w) orch" where
  "resync E st = st\<lparr>world := fold (wq_Add (workqueue E)) (map gid (gs_List (groups st))) (world st)\<rparr>"

subsection \<open>Every pass follows its own process\<close>

definition calls_of :: "nat \<Rightarrow> (nat \<times> node_req \<times> node_resp) list \<Rightarrow> node_trace" where
  "calls_of i l = map snd (filter (\<lambda>x. fst x = i) l)"

lemma calls_of_append [simp]: "calls_of i (l @ m) = calls_of i l @ calls_of i m"
  by (simp add: calls_of_def)

lemma calls_of_single [simp]: "calls_of i [(j, q, r)] = (if j = i then [(q, r)] else [])"
  by (simp add: calls_of_def)

lemma calls_of_Nil [simp]: "calls_of i [] = []"
  by (simp add: calls_of_def)

text \<open>
  What pass \<open>p\<close> called, ending in \<open>p'\<close>: its own calls, or, after a panic, some of its own calls and
  then only the cancellation of the peers.
\<close>

definition cancelling :: "go_error option proc \<Rightarrow> bool" where
  "cancelling p \<longleftrightarrow> p = Hang \<or> (\<exists>e. p = Return e \<or> p = call_unit CancelPeers (Return e))"

definition ran :: "go_error option proc \<Rightarrow> node_trace \<Rightarrow> go_error option proc \<Rightarrow> bool" where
  "ran p t p' \<longleftrightarrow> after p t = Some p' \<or>
     (\<exists>t1 t2. t = t1 @ t2 \<and> after p t1 \<noteq> None \<and> list_all (\<lambda>x. fst x = CancelPeers) t2 \<and> cancelling p')"

definition follows :: "go_error option proc list \<Rightarrow> ('s, 'w) pool \<Rightarrow> bool" where
  "follows ps P \<longleftrightarrow> length (procs P) = length ps \<and>
     (\<forall>i < length ps. ran (ps ! i) (calls_of i (plog P)) (procs P ! i)) \<and>
     (\<forall>x \<in> set (plog P). fst x < length ps)"

lemma ran_call:
  assumes "ran p t (Call q k)"
  shows "ran p (t @ [(q, r)]) (k r)"
proof (cases "after p t = Some (Call q k)")
  case True
  then show ?thesis by (simp add: ran_def after_append)
next
  case False
  with assms obtain t1 t2 where t: "t = t1 @ t2" "after p t1 \<noteq> None" "list_all (\<lambda>x. fst x = CancelPeers) t2"
    "cancelling (Call q k)" unfolding ran_def by blast
  then have "q = CancelPeers" "cancelling (k r)" by (auto simp: cancelling_def call_unit_def split: node_resp.splits)
  then have "t @ [(q, r)] = t1 @ (t2 @ [(q, r)]) \<and> after p t1 \<noteq> None \<and>
      list_all (\<lambda>x. fst x = CancelPeers) (t2 @ [(q, r)]) \<and> cancelling (k r)"
    using t by simp
  then show ?thesis unfolding ran_def by blast
qed

lemma ran_panic: "ran p t p' \<Longrightarrow> ran p t (recovered n v)"
  unfolding ran_def recovered_def cancelling_def
  by (metis append.right_neutral list.pred_inject(1) option.distinct(1))

lemma node_step_Call:
  assumes "i < length (procs P)" and "procs P ! i = Call q k" and "answer E (cancelled P) q (pstate P) = (r, c, st)"
  shows "node_step E i P = P\<lparr>procs := (procs P)[i := k r], cancelled := c, pstate := st, plog := plog P @ [(i, q, r)]\<rparr>"
  using assms by (simp add: node_step_def)

lemma node_step_cases:
  obtains "node_step E i P = P"
    | q k r c st where "i < length (procs P)" "procs P ! i = Call q k" "answer E (cancelled P) q (pstate P) = (r, c, st)"
       "node_step E i P = P\<lparr>procs := (procs P)[i := k r], cancelled := c, pstate := st, plog := plog P @ [(i, q, r)]\<rparr>"
proof (cases "i < length (procs P) \<and> (\<exists>q k. procs P ! i = Call q k)")
  case True
  then obtain q k where i: "i < length (procs P)" "procs P ! i = Call q k" by blast
  obtain r c st where "answer E (cancelled P) q (pstate P) = (r, c, st)" by (metis prod.exhaust)
  with i node_step_Call that(2) show thesis by metis
next
  case False
  then have "node_step E i P = P" by (auto simp: node_step_def split: proc.splits)
  then show thesis by (rule that(1))
qed

lemma follows_step: "follows ps P \<Longrightarrow> follows ps (pool_step E x P)"
proof (cases x)
  case (NodeStep i)
  assume f: "follows ps P"
  show ?thesis
  proof (cases rule: node_step_cases[of E i P])
    case (2 q k r c st)
    have "ran (ps ! j) (calls_of j (plog P @ [(i, q, r)])) ((procs P)[i := k r] ! j)" if "j < length ps" for j
      using f that 2(1,2) ran_call[of "ps ! j" "calls_of j (plog P)" q k r]
      by (cases "j = i") (auto simp: follows_def)
    with f 2 NodeStep show ?thesis by (auto simp: follows_def)
  qed (use f NodeStep in simp)
next
  case (NodePanic i v)
  assume f: "follows ps P"
  have "ran (ps ! j) (calls_of j (plog P)) ((procs P)[i := recovered (pnodes P ! i) v] ! j)" if "j < length ps" for j
    using f that ran_panic by (cases "j = i") (auto simp: follows_def)
  with f NodePanic show ?thesis by (auto simp: follows_def node_panic_def split: proc.splits)
qed (simp add: follows_def)

lemma follows_run: "follows ps P \<Longrightarrow> follows ps (run_pool E sch P)"
  unfolding run_pool_def by (induction sch arbitrary: P) (auto intro: follows_step)

lemma follows_start:
  "follows (map (nodeGoroutine fuel g a) ns) (start_pool fuel g a ns st)"
  by (simp add: follows_def start_pool_def ran_def)

lemma after_prefix: "after p (t @ u) = Some p' \<Longrightarrow> \<exists>p''. after p t = Some p''"
  by (auto simp: after_append split: option.splits)

lemma ran_prefix:
  assumes "ran p ((t @ [(q, r)]) @ u) p'" and "is_op q"
  shows "\<exists>p''. after p (t @ [(q, r)]) = Some p''"
  using assms(1)[unfolded ran_def]
proof
  assume "\<exists>t1 t2. (t @ [(q, r)]) @ u = t1 @ t2 \<and> after p t1 \<noteq> None \<and> list_all (\<lambda>x. fst x = CancelPeers) t2 \<and> cancelling p'"
  then obtain t1 t2 where e: "(t @ [(q, r)]) @ u = t1 @ t2" and a: "after p t1 \<noteq> None"
    and c: "list_all (\<lambda>x. fst x = CancelPeers) t2" by blast
  show ?thesis
  proof (cases "length t1 \<le> length t")
    case True
    then have "(q, r) = t2 ! (length t - length t1)" "length t - length t1 < length t2"
      using arg_cong[OF e, of "\<lambda>x. x ! length t"] arg_cong[OF e, of length] by (simp_all add: nth_append)
    then have "(q, r) \<in> set t2" by simp
    with c assms(2) show ?thesis by (auto simp: list_all_iff)
  next
    case False
    then have "take (Suc (length t)) t1 = t @ [(q, r)]"
      using arg_cong[OF e, of "take (Suc (length t))"] by simp
    then have "t1 = (t @ [(q, r)]) @ drop (Suc (length t)) t1" by (metis append_take_drop_id)
    with a after_prefix[of p "t @ [(q, r)]"] show ?thesis by (metis not_None_eq)
  qed
qed (rule after_prefix)

lemma nodeGoroutine_op:
  assumes "after (nodeGoroutine fuel g a n) (t @ [(q, r)]) = Some p" and "is_op q"
  shows "\<exists>p'. after (reconcileNode fuel g n a) (t @ [(q, r)]) = Some p'"
  using assms(1)[unfolded nodeGoroutine_def]
proof (cases rule: after_pbindE)
  case (2 t1 t2 x)
  have "ops_in t2 = []"
  proof (cases x)
    case (Some e)
    with 2(3) have "after (call_unit CancelPeers (Return (Some (Wrap (errorf [''failed to reconcile node '', n]) e)))) t2 = Some p"
      by simp
    then show ?thesis by (cases rule: call_unit_trace) auto
  qed (use 2(3) in simp)
  then have "t2 = []" using 2(1) assms(2) by (cases t2 rule: rev_cases) auto
  with 2 show ?thesis by auto
qed blast

lemma run_pool_call:
  assumes "plog (run_pool E sch (start_pool fuel g a ns st)) = l @ (i, q, r) # m" and "is_op q"
  shows "i < length ns \<and> (\<exists>p. after (reconcileNode fuel g (ns ! i) a) (calls_of i l @ [(q, r)]) = Some p)"
proof -
  let ?P = "run_pool E sch (start_pool fuel g a ns st)"
  have f: "follows (map (nodeGoroutine fuel g a) ns) ?P" by (rule follows_run[OF follows_start])
  then have i: "i < length ns" using assms(1) by (auto simp: follows_def)
  with f have "ran (nodeGoroutine fuel g a (ns ! i)) (calls_of i (plog ?P)) (procs ?P ! i)"
    by (auto simp: follows_def)
  moreover have "calls_of i (plog ?P) = (calls_of i l @ [(q, r)]) @ calls_of i m"
    unfolding assms(1) by (simp add: calls_of_def)
  ultimately obtain p where "after (nodeGoroutine fuel g a (ns ! i)) (calls_of i l @ [(q, r)]) = Some p"
    using ran_prefix[OF _ assms(2)] by metis
  with i nodeGoroutine_op[OF _ assms(2)] show ?thesis by blast
qed

lemma restore_trace_of_pool:
  assumes "plog (run_pool E sch (start_pool fuel g a ns st)) = l @ (i, AgentRestore n j g' c, r) # m"
  shows "i < length ns \<and> n = ns ! i \<and> g' = g \<and> j = a \<and> a \<noteq> [] \<and>
    (\<exists>job. (GetJob g a, RJob (Inr job)) \<in> set (calls_of i l) \<and> ctx_at (contextState job) n = STATE_SAVED) \<and>
    (\<exists>js. calls_of i l \<noteq> [] \<and> hd (calls_of i l) = (ListJobs g, RJobs (Inr js)) \<and> parked_all g n a js (calls_of i l))"
proof -
  from run_pool_call[OF assms] obtain p where i: "i < length ns"
    and p: "after (reconcileNode fuel g (ns ! i) a) (calls_of i l @ [(AgentRestore n j g' c, r)]) = Some p" by auto
  from restore_trace[OF p] i show ?thesis by auto
qed

text \<open>C3: handover safety. While a group is reconciled, with the passes of its nodes interleaved in any
  way with each other and with other threads, whatever the agents answer and whichever passes panic: a restore is
  requested only on a node of the group, only for the active job, only after the context of the
  active job on that node was read as SAVED, and only after every other job that the pass found
  running on that node was snapshotted there: the snapshot was triggered, a later poll reported
  it complete and the node's state was read again; no other job was found in transition
  there.\<close>

theorem restore_only_after_parking:
  assumes "plog (run_pool E sch (start_pool fuel g a ns st)) = l @ (i, AgentRestore n j g' c, r) # m"
  shows "i < length ns \<and> n = ns ! i \<and> g' = g \<and> j = a \<and> a \<noteq> [] \<and>
    (\<exists>job. (GetJob g a, RJob (Inr job)) \<in> set (calls_of i l) \<and> ctx_at (contextState job) n = STATE_SAVED) \<and>
    (\<exists>js. calls_of i l \<noteq> [] \<and> hd (calls_of i l) = (ListJobs g, RJobs (Inr js)) \<and> parked_all g n a js (calls_of i l))"
  using assms by (rule restore_trace_of_pool)

text \<open>A group on node \<open>n1\<close> whose agents finish every operation at once; job \<open>b\<close> runs, \<open>a\<close> is saved.\<close>

definition handover_state :: "(mem_lock_store, int) orch" where
  "handover_state = held_state\<lparr>jobs := js_Put (handover_jobs ! 0) (js_Put (handover_jobs ! 1) [])\<rparr>"

theorem restore_only_after_parking_witness:
  "\<exists>l r. plog (run_pool idle_env (replicate 12 (NodeStep 0)) (start_pool 1 ''g'' ''a'' [''n1''] handover_state)) =
      l @ [(0, AgentRestore ''n1'' ''a'' ''g'' None, r)] @ drop (length l + 1)
        (plog (run_pool idle_env (replicate 12 (NodeStep 0)) (start_pool 1 ''g'' ''a'' [''n1''] handover_state))) \<and>
     (\<exists>js. hd (calls_of 0 l) = (ListJobs ''g'', RJobs (Inr js)) \<and> parked_all ''g'' ''n1'' ''a'' js (calls_of 0 l))"
proof -
  let ?L = "plog (run_pool idle_env (replicate 12 (NodeStep 0)) (start_pool 1 ''g'' ''a'' [''n1''] handover_state))"
  have "?L ! 9 = (0, AgentRestore ''n1'' ''a'' ''g'' None, ROpId (Inr ''op''))" and n: "9 < length ?L" by code_simp+
  then have L: "?L = take 9 ?L @ (0, AgentRestore ''n1'' ''a'' ''g'' None, ROpId (Inr ''op'')) # drop 10 ?L"
    using id_take_nth_drop[OF n] by simp
  from restore_only_after_parking[OF L] have
    "\<exists>js. hd (calls_of 0 (take 9 ?L)) = (ListJobs ''g'', RJobs (Inr js)) \<and> parked_all ''g'' ''n1'' ''a'' js (calls_of 0 (take 9 ?L))"
    by auto
  moreover have "length (take 9 ?L) + 1 = 10" using n by simp
  ultimately show ?thesis using L by (metis append_Cons append_Nil)
qed

subsection \<open>The work item\<close>

text \<open>
  every group taken from the work queue is handed back: when its reconciliation ended with an
  error, it is put on the queue again with the rate limit and marked done; when it ended without
  error, its rate limit is reset and it is marked done; the worker goes on in both cases and
  stops only when the queue was shut down.\<close>

theorem work_item_is_handed_back:
  assumes "wq_Get (workqueue E) (world st) = Some ((g, sd), w)"
  shows "processNextWorkItem E fuel sch st =
    (if sd then (Some False, st\<lparr>world := w\<rparr>)
     else (case reconcileGroup E fuel sch g (st\<lparr>world := w\<rparr>) of
       (None, st1) \<Rightarrow> (None, st1)
     | (Some r, st1) \<Rightarrow>
         (Some True, st1\<lparr>world := wq_Done (workqueue E) g
            ((if r = None then wq_Forget (workqueue E) g else wq_AddRateLimited (workqueue E) g) (world st1))\<rparr>)))"
  using assms by (auto simp: processNextWorkItem_def hand_back_def split: prod.splits option.splits)

theorem work_item_is_handed_back_witness:
  "\<exists>st1. processNextWorkItem idle_env 1 [] held_state = (Some True, st1)"
proof -
  have q: "wq_Get (workqueue idle_env) (world held_state) = Some ((''g'', False), 0)" by code_simp
  have "(case fst (reconcileGroup idle_env 1 [] ''g'' (held_state\<lparr>world := 0\<rparr>)) of Some (Some _) \<Rightarrow> True | _ \<Rightarrow> False)"
    by code_simp
  then obtain e st1 where r: "reconcileGroup idle_env 1 [] ''g'' (held_state\<lparr>world := 0\<rparr>) = (Some (Some e), st1)"
    by (cases "reconcileGroup idle_env 1 [] ''g'' (held_state\<lparr>world := 0\<rparr>)") (auto split: option.splits)
  from work_item_is_handed_back[OF q, of 1 "[]"] show ?thesis unfolding r by simp
qed



subsection \<open>Frames\<close>

lemma answer_frame:
  assumes "answer E c q st = (r, c', st')"
  shows "groups st' = groups st \<and> locks st' = locks st \<and> (js_inv (jobs st) \<longrightarrow> js_inv (jobs st'))"
  using assms by (cases q) (auto split: prod.splits dest: observeNodeJobContext_frame)

lemma node_step_frame:
  "groups (pstate (node_step E i P)) = groups (pstate P) \<and> locks (pstate (node_step E i P)) = locks (pstate P) \<and>
   (js_inv (jobs (pstate P)) \<longrightarrow> js_inv (jobs (pstate (node_step E i P))))"
  by (cases rule: node_step_cases[of E i P]) (auto dest: answer_frame)

lemma waitForGrantSettlement_frame:
  assumes "waitForGrantSettlement E g st = (r, st')"
  shows "groups st' = groups st \<and> jobs st' = jobs st \<and> locks st' = locks st"
proof -
  obtain entry st1 where en: "settle_entry E (gid g) (activeJob (spec g)) st = (entry, st1)" by fastforce
  obtain t st2 where n: "Now E st1 = (t, st2)" by fastforce
  have "groups st2 = groups st" "jobs st2 = jobs st" "locks st2 = locks st"
    using Now_frame[of E st1] n settle_entry_correct[OF en] by simp_all
  with assms en n show ?thesis
    by (auto simp: waitForGrantSettlement_def clearSettle_def Let_def split: if_splits sum.splits)
qed

lemma tryDeduceActiveJob_frame:
  assumes "tryDeduceActiveJob js g = (r, g')"
  shows "gid g' = gid g \<and> lockingJob (spec g') = lockingJob (spec g) \<and> (spec_inv (spec g) \<longrightarrow> spec_inv (spec g'))"
  using assms
  by (auto simp: tryDeduceActiveJob_def spec_inv_def SetActiveJob_def split: if_splits sum.splits option.splits)

lemma updateGroupStatus_frame:
  "updateGroupStatus now js g = (r, g') \<Longrightarrow> gid g' = gid g \<and> spec g' = spec g"
  by (auto simp: updateGroupStatus_def Let_def split: sum.splits if_splits)

end
