(* ===== verification/Orch_Server.thy ===== *)
theory Orch_Server
  imports Reconcile
begin

text \<open>
  The orchestrator's gRPC server (\<^verbatim>\<open>server/server.go\<close>, \<^verbatim>\<open>server/backend_config.go\<close>):
  Acquire, Yield, ListGroups, GetGroupStatus and the client-supplied backend configurations.
  A handler is one state transformer, except Acquire, which polls: its loop takes the list of
  what happens at each turn of its \<^verbatim>\<open>select\<close>.
\<close>

subsection \<open>Backend configurations\<close>

fun empty_at :: "nat \<Rightarrow> string list \<Rightarrow> nat option" where
  "empty_at i [] = None"
| "empty_at i (x # xs) = (if x = [] then Some i else empty_at (Suc i) xs)"

definition validateSuspendMode :: "int \<Rightarrow> go_error option" where
  "validateSuspendMode mode =
     (case SuspendMode_name mode of
        None \<Rightarrow> Some (Text ''mode has unknown value'')
      | Some _ \<Rightarrow> None)"

definition validateTags :: "string list \<Rightarrow> go_error option" where
  "validateTags tags =
     (case empty_at 0 tags of
        Some i \<Rightarrow> Some (Text ''tags must not be empty'')
      | None \<Rightarrow> None)"

definition validateAppEndpoint :: "AppEndpointBackend \<Rightarrow> go_error option" where
  "validateAppEndpoint cfg =
     (if App_name (jae_app cfg) = None then Some (Text ''app_endpoint.app has unknown value'')
      else if jae_app cfg = APP_UNSPECIFIED then Some (Text ''app_endpoint.app must be specified'')
      else if length (jae_endpoints cfg) = 0
        then Some (Text ''app_endpoint.endpoints must contain at least one endpoint'')
      else
        (case empty_at 0 (jae_endpoints cfg) of
           Some i \<Rightarrow> Some (Text ''app_endpoint.endpoints must not be empty'')
         | None \<Rightarrow>
             (case validateSuspendMode (jae_mode cfg) of
                Some err \<Rightarrow> Some (Wrap ''app_endpoint.'' err)
              | None \<Rightarrow>
                  (case validateTags (jae_tags cfg) of
                     Some err \<Rightarrow> Some (Wrap ''app_endpoint.'' err)
                   | None \<Rightarrow> None))))"

definition validateAppChannel :: "AppChannelBackend \<Rightarrow> go_error option" where
  "validateAppChannel cfg =
     (case validateSuspendMode (jac_mode cfg) of
        Some err \<Rightarrow> Some (Wrap ''app_channel.'' err)
      | None \<Rightarrow>
          (case validateTags (jac_tags cfg) of
             Some err \<Rightarrow> Some (Wrap ''app_channel.'' err)
           | None \<Rightarrow> None))"

fun ValidateJobBackendConfig :: "JobBackendConfig option \<Rightarrow> go_error option" where
  "ValidateJobBackendConfig None = None"
| "ValidateJobBackendConfig (Some JobNoBackend) =
     Some (Text ''backend_config must select a backend (cuda, tpu, app_endpoint or app_channel)'')"
| "ValidateJobBackendConfig (Some JobCuda) = None"
| "ValidateJobBackendConfig (Some JobTpu) = None"
| "ValidateJobBackendConfig (Some (JobAppEndpoint c)) = validateAppEndpoint c"
| "ValidateJobBackendConfig (Some (JobAppChannel c)) = validateAppChannel c"

fun ToAgentBackendConfig :: "JobBackendConfig option \<Rightarrow> BackendConfig option" where
  "ToAgentBackendConfig None = None"
| "ToAgentBackendConfig (Some JobNoBackend) = None"
| "ToAgentBackendConfig (Some JobCuda) = Some (Cuda None)"
| "ToAgentBackendConfig (Some JobTpu) = Some (Tpu None)"
| "ToAgentBackendConfig (Some (JobAppEndpoint src)) =
     Some (AppEndpoint \<lparr>ae_app = jae_app src, ae_endpoints = jae_endpoints src, ae_mode = jae_mode src,
        ae_tags = jae_tags src\<rparr>)"
| "ToAgentBackendConfig (Some (JobAppChannel src)) =
     Some (AppChannel \<lparr>ac_mode = jac_mode src, ac_tags = jac_tags src\<rparr>)"

fun AgentBackendName :: "BackendConfig option \<Rightarrow> string" where
  "AgentBackendName (Some (Cuda _)) = ''cuda''"
| "AgentBackendName (Some (Tpu _)) = ''tpu''"
| "AgentBackendName (Some (AppEndpoint _)) = ''app_endpoint''"
| "AgentBackendName (Some (AppChannel _)) = ''app_channel''"
| "AgentBackendName (Some (DirectMemory _)) = ''direct_memory''"
| "AgentBackendName (Some (MemoryRegions _)) = ''memory_regions''"
| "AgentBackendName (Some NoBackend) = ''default''"
| "AgentBackendName None = ''default''"

text \<open>The outcome of recording a configuration: the job it was recorded on and the value before.\<close>

type_synonym appliedBackendConfig = "(string \<times> string \<times> BackendConfig option) option"

definition applyBackendConfig ::
  "string \<Rightarrow> string \<Rightarrow> JobBackendConfig option \<Rightarrow> job_store \<Rightarrow> (go_error + appliedBackendConfig) \<times> job_store" where
  "applyBackendConfig groupID jobID requested js =
     (case requested of
        None \<Rightarrow> (Inr None, js)
      | Some _ \<Rightarrow>
          (case js_Get groupID jobID js of
             Inl err \<Rightarrow>
               if errors_is err ErrNotFound then (Inr None, js)
               else (Inl (Wrap (errorf [''failed to get job '', jobID]) err), js)
           | Inr job \<Rightarrow>
               (Inr (Some (groupID, jobID, backendConfig job)),
                js_modify groupID jobID (SetBackendConfig (ToAgentBackendConfig requested)) js)))"

definition rollback :: "appliedBackendConfig \<Rightarrow> job_store \<Rightarrow> job_store" where
  "rollback a js =
     (case a of
        None \<Rightarrow> js
      | Some (groupID, jobID, previous) \<Rightarrow> js_modify groupID jobID (SetBackendConfig previous) js)"

subsection \<open>Acquire\<close>

record AcquireResponse =
  ar_success :: bool
  ar_context_restored :: bool
  ar_waited_ms :: int

definition EnqueueWork :: "('s, 'w) env \<Rightarrow> string \<Rightarrow> ('s, 'w) orch \<Rightarrow> ('s, 'w) orch" where
  "EnqueueWork E groupID st = st\<lparr>world := wq_Add (workqueue E) groupID (world st)\<rparr>"

definition isGroupFaulted :: "string \<Rightarrow> job_store \<Rightarrow> bool" where
  "isGroupFaulted groupID js =
     list_ex (\<lambda>j. list_ex (\<lambda>x. snd x = STATE_FAULTED) (contextState j)) (ListByGroup groupID js)"

definition defaultCheckAcquire ::
  "('s, 'w) env \<Rightarrow> string \<Rightarrow> string \<Rightarrow> int \<Rightarrow> ('s, 'w) orch \<Rightarrow>
     (go_error + AcquireResponse) option \<times> ('s, 'w) orch" where
  "defaultCheckAcquire E groupID jobID startTime st =
     (case gs_Get groupID (groups st) of
        Inl err \<Rightarrow> (Some (Inl (Status Code_Internal ''failed to get group'')), st)
      | Inr g \<Rightarrow>
          if isGroupFaulted groupID (jobs st)
          then (Some (Inl (Status Code_Unavailable (errorf [''group '', groupID, '' is faulted'']))), st)
          else if lockingJob (spec g) = jobID \<and> loadedJob (status g) = jobID then
            (case Now E st of (t1, st1) \<Rightarrow>
               let st2 = st1\<lparr>meters := (meters st1)\<lparr>AcquireWaitDuration :=
                     AcquireWaitDuration (meters st1) @ [(groupID, t1 - startTime)]\<rparr>\<rparr>
               in case Now E st2 of (t2, st3) \<Rightarrow>
                    (Some (Inr \<lparr>ar_success = True, ar_context_restored = True,
                                ar_waited_ms = (t2 - startTime) div 1000000\<rparr>), st3))
          else (None, st))"

text \<open>The part of Acquire before its loop: find the group and queue the job.\<close>

definition acquire_request ::
  "('s, 'w) env \<Rightarrow> string \<Rightarrow> string \<Rightarrow> ('s, 'w) orch \<Rightarrow> (go_error + int) \<times> ('s, 'w) orch" where
  "acquire_request E groupID jobID st =
     (case Now E st of (startTime, st0) \<Rightarrow>
        (case gs_Get groupID (groups st0) of
           Inl err \<Rightarrow>
             if errors_is err ErrNotFound
             then (Inl (Status Code_NotFound (errorf [''group '', groupID, '' not found''])), st0)
             else (Inl (Status Code_Internal ''failed to get group''), st0)
         | Inr g \<Rightarrow>
             (case Now E st0 of (now, st1) \<Rightarrow>
                (Inr startTime,
                 EnqueueWork E groupID
                   (with_group groupID (\<lambda>g. set_spec (RequestLock now jobID (spec g)) g) st1)))))"

text \<open>
  A turn of the loop: what other threads did since the last one, and whether the context was
  done (with its error) or the ticker fired. The loop still waits when the turns are used up.
\<close>

type_synonym ('s, 'w) acquire_turn = "(('s, 'w) orch \<Rightarrow> ('s, 'w) orch) \<times> go_error option"

definition FromContextError :: "go_error \<Rightarrow> go_error" where
  "FromContextError err =
     Status (if errors_is err CtxDeadlineExceeded then Code_DeadlineExceeded else Code_Canceled) ''context error''"

fun acquire_loop ::
  "('s, 'w) env \<Rightarrow> string \<Rightarrow> string \<Rightarrow> int \<Rightarrow> ('s, 'w) acquire_turn list \<Rightarrow> ('s, 'w) orch \<Rightarrow>
     (go_error + AcquireResponse) option \<times> ('s, 'w) orch" where
  "acquire_loop E groupID jobID startTime [] st = (None, st)"
| "acquire_loop E groupID jobID startTime ((others, done) # turns) st =
     (case done of
        Some err \<Rightarrow> (Some (Inl (FromContextError err)), others st)
      | None \<Rightarrow>
          (case defaultCheckAcquire E groupID jobID startTime (others st) of
             (Some r, st') \<Rightarrow> (Some r, st')
           | (None, st') \<Rightarrow> acquire_loop E groupID jobID startTime turns st'))"

definition Acquire ::
  "('s, 'w) env \<Rightarrow> string \<Rightarrow> string \<Rightarrow> ('s, 'w) acquire_turn list \<Rightarrow> ('s, 'w) orch \<Rightarrow>
     (go_error + AcquireResponse) option \<times> ('s, 'w) orch" where
  "Acquire E groupID jobID turns st =
     (case acquire_request E groupID jobID st of
        (Inl err, st1) \<Rightarrow> (Some (Inl err), st1)
      | (Inr startTime, st1) \<Rightarrow> acquire_loop E groupID jobID startTime turns st1)"

subsection \<open>Yield\<close>

record YieldResponse =
  yr_success :: bool
  yr_pending_waiters :: int
  yr_snapshot_deferred :: bool

definition Yield ::
  "('s, 'w) env \<Rightarrow> string \<Rightarrow> string \<Rightarrow> JobBackendConfig option \<Rightarrow> ('s, 'w) orch \<Rightarrow>
     (go_error + YieldResponse) \<times> ('s, 'w) orch" where
  "Yield E groupID jobID cfg st =
     (case ValidateJobBackendConfig cfg of
        Some err \<Rightarrow> (Inl (Status Code_InvalidArgument ''invalid backend_config''), st)
      | None \<Rightarrow>
     (case gs_Get groupID (groups st) of
        Inl err \<Rightarrow>
          if errors_is err ErrNotFound
          then (Inl (Status Code_NotFound (errorf [''group '', groupID, '' not found''])), st)
          else (Inl (Status Code_Internal ''failed to get group''), st)
      | Inr g \<Rightarrow>
          let snap = Snapshot g in
          (case applyBackendConfig groupID jobID cfg (jobs st) of
             (Inl err, js) \<Rightarrow> (Inl (Status Code_Internal ''failed to record backend config''), st\<lparr>jobs := js\<rparr>)
           | (Inr applied, js) \<Rightarrow>
               (case spec_Yield (lockStore E) (gid g) jobID (spec g) (locks st) of
                  (Some err, sp, s) \<Rightarrow>
                    let st1 = (with_group groupID (set_spec sp) st)\<lparr>jobs := rollback applied js, locks := s\<rparr>
                    in if errors_is err ErrNotLockHolder
                       then (Inl (Status Code_PermissionDenied
                               (errorf [''job '', jobID, '' does not hold lock for group '', groupID])), st1)
                       else (Inl (Status Code_Internal ''failed to yield''), st1)
                | (None, sp, s) \<Rightarrow>
                    let st1 = EnqueueWork E groupID
                          ((with_group groupID (set_spec sp) st)\<lparr>jobs := js, locks := s\<rparr>);
                        numWaiters = snap_WaiterQueueDepth snap;
                        st2 = (if numWaiters = 0
                               then st1\<lparr>meters := (meters st1)\<lparr>DeferredSnapshotsTotal :=
                                      counter_inc groupID (DeferredSnapshotsTotal (meters st1))\<rparr>\<rparr>
                               else st1)
                    in (Inr \<lparr>yr_success = True, yr_pending_waiters = int numWaiters,
                             yr_snapshot_deferred = (numWaiters = 0)\<rparr>, st2)))))"

subsection \<open>Queries\<close>

definition ListGroups :: "('s, 'w) orch \<Rightarrow> string list" where
  "ListGroups st = map gid (gs_List (groups st))"

record GroupStatusMsg =
  gm_group_id :: string
  gm_state :: GroupState
  gm_state_timestamp :: int
  gm_locking_job :: string
  gm_active_job :: string
  gm_waiter_queue_depth :: int
  gm_loaded_job :: string

record SnapshotAgentJobState =
  aj_agent :: string
  aj_job_state :: ContextState
  aj_job_id :: string

definition GetGroupStatus ::
  "string \<Rightarrow> ('s, 'w) orch \<Rightarrow> go_error + GroupStatusMsg \<times> SnapshotAgentJobState list" where
  "GetGroupStatus groupID st =
     (case gs_Get groupID (groups st) of
        Inl err \<Rightarrow>
          if errors_is err ErrNotFound
          then Inl (Status Code_NotFound (errorf [''group '', groupID, '' not found'']))
          else Inl (Status Code_Internal ''failed to get group'')
      | Inr g \<Rightarrow>
          let snap = Snapshot g in
          if snap_State snap = GROUP_STATE_UNKNOWN
          then Inl (Status Code_Unavailable (errorf [''group '', groupID, '' state is unknown'']))
          else
            Inr (\<lparr>gm_group_id = snap_ID snap, gm_state = snap_State snap,
                  gm_state_timestamp = snap_StateTimestamp snap, gm_locking_job = snap_LockingJob snap,
                  gm_active_job = snap_ActiveJob snap, gm_waiter_queue_depth = int (snap_WaiterQueueDepth snap),
                  gm_loaded_job = snap_LoadedJob snap\<rparr>,
                 concat (map (\<lambda>j. map (\<lambda>x. \<lparr>aj_agent = fst x, aj_job_state = snd x, aj_job_id = j_jobID j\<rparr>)
                                 (contextState j)) (ListByGroup (gid g) (jobs st)))))"

subsection \<open>Properties of the configurations\<close>

text \<open>
  a backend configuration that passes validation is translated to an agent configuration without
  loss: it selects a backend by name, it never names processes, and no other valid configuration
  translates to the same one.\<close>

theorem validated_config_translates_faithfully:
  assumes "ValidateJobBackendConfig (Some c) = None"
  shows "\<exists>b. ToAgentBackendConfig (Some c) = Some b \<and> AgentBackendName (Some b) \<noteq> ''default'' \<and>
    b \<notin> range (Cuda \<circ> Some) \<union> range (Tpu \<circ> Some) \<and>
    (\<forall>c'. ValidateJobBackendConfig (Some c') = None \<and> ToAgentBackendConfig (Some c') = Some b \<longrightarrow> c' = c)"
proof (cases c)
  case JobNoBackend
  with assms show ?thesis by simp
next
  case JobCuda
  have "c' = JobCuda" if "ToAgentBackendConfig (Some c') = Some (Cuda None)" for c' using that by (cases c') auto
  with JobCuda show ?thesis by auto
next
  case JobTpu
  have "c' = JobTpu" if "ToAgentBackendConfig (Some c') = Some (Tpu None)" for c' using that by (cases c') auto
  with JobTpu show ?thesis by auto
next
  case (JobAppEndpoint x)
  have "c' = c" if "ToAgentBackendConfig (Some c') = ToAgentBackendConfig (Some c)" for c'
    using that JobAppEndpoint by (cases c') (auto intro: AppEndpointBackend.equality)
  with JobAppEndpoint show ?thesis by auto
next
  case (JobAppChannel x)
  have "c' = c" if "ToAgentBackendConfig (Some c') = ToAgentBackendConfig (Some c)" for c'
    using that JobAppChannel by (cases c') (auto intro: AppChannelBackend.equality)
  with JobAppChannel show ?thesis by auto
qed

theorem validated_config_translates_faithfully_witness:
  "let c = JobAppEndpoint \<lparr>jae_app = 1, jae_endpoints = [''http://x''], jae_mode = 0, jae_tags = []\<rparr>
   in ValidateJobBackendConfig (Some c) = None \<and>
      (\<exists>b. ToAgentBackendConfig (Some c) = Some b \<and> AgentBackendName (Some b) \<noteq> ''default'')"
proof -
  let ?c = "JobAppEndpoint \<lparr>jae_app = 1, jae_endpoints = [''http://x''], jae_mode = 0, jae_tags = []\<rparr>"
  have v: "ValidateJobBackendConfig (Some ?c) = None" by code_simp
  from validated_config_translates_faithfully[OF v] v show ?thesis by (auto simp: Let_def)
qed

lemma empty_at_None_iff: "empty_at i xs = None \<longleftrightarrow> [] \<notin> set xs"
  by (induction xs arbitrary: i) auto

text \<open>
  validation accepts exactly the well-formed configurations: none at all, CUDA or TPU, an
  endpoint of a known and specified application with at least one endpoint, no empty endpoint,
  a known suspend mode and no empty tag, or a channel with a known suspend mode and no empty
  tag.\<close>

theorem validation_accepts_exactly:
  "ValidateJobBackendConfig cfg = None \<longleftrightarrow>
     (case cfg of
        None \<Rightarrow> True
      | Some JobNoBackend \<Rightarrow> False
      | Some JobCuda \<Rightarrow> True
      | Some JobTpu \<Rightarrow> True
      | Some (JobAppEndpoint c) \<Rightarrow> jae_app c \<in> {APP_VLLM, APP_SGLANG} \<and> jae_endpoints c \<noteq> [] \<and>
          [] \<notin> set (jae_endpoints c) \<and> jae_mode c \<in> {0, 1, 2} \<and> [] \<notin> set (jae_tags c)
      | Some (JobAppChannel c) \<Rightarrow> jac_mode c \<in> {0, 1, 2} \<and> [] \<notin> set (jac_tags c))"
proof -
  have m: "validateSuspendMode m = None \<longleftrightarrow> m \<in> {0, 1, 2}" for m
    by (auto simp: validateSuspendMode_def enum_defs split: if_splits)
  have t: "validateTags ts = None \<longleftrightarrow> [] \<notin> set ts" for ts
    using empty_at_None_iff[of 0 ts] by (auto simp: validateTags_def split: option.splits)
  have a: "App_name a \<noteq> None \<and> a \<noteq> APP_UNSPECIFIED \<longleftrightarrow> a \<in> {APP_VLLM, APP_SGLANG}" for a
    by (auto simp: enum_defs split: if_splits)
  have e: "validateAppEndpoint c = None \<longleftrightarrow> jae_app c \<in> {APP_VLLM, APP_SGLANG} \<and>
      jae_endpoints c \<noteq> [] \<and> empty_at 0 (jae_endpoints c) = None \<and>
      validateSuspendMode (jae_mode c) = None \<and> validateTags (jae_tags c) = None" for c
    unfolding a[symmetric] by (auto simp: validateAppEndpoint_def split: option.splits)
  have h: "validateAppChannel c = None \<longleftrightarrow>
      validateSuspendMode (jac_mode c) = None \<and> validateTags (jac_tags c) = None" for c
    by (auto simp: validateAppChannel_def split: option.splits)
  show ?thesis
    by (cases cfg) (simp_all add: e h m t empty_at_None_iff split: JobBackendConfig.splits)
qed

subsection \<open>Properties of Yield\<close>

lemma map_of_js_modify:
  "map_of (js_modify g i f js) k =
     (if k = makeJobKey g i then map_option f (map_of js k) else map_of js k)"
  by (simp add: js_modify_def split: option.splits)

lemma applyBackendConfig_rollback:
  assumes "applyBackendConfig g i cfg js = (Inr a, js')"
  shows "map_of (rollback a js') = map_of js"
  using assms
  by (auto simp: applyBackendConfig_def rollback_def js_Get_def map_of_js_modify fun_eq_iff SetBackendConfig_def
      map_option_case split: option.splits sum.splits if_splits)

lemma applyBackendConfig_ok: "\<exists>a. fst (applyBackendConfig g i cfg js) = Inr a"
  by (cases cfg; cases "js_Get g i js") (auto simp: applyBackendConfig_def go_errors dest: js_Get_Inl)

lemma spec_Yield_refused:
  assumes "lock_store ops holder" and "holder s g = k" and "k \<noteq> []" and "k \<noteq> j"
  shows "\<exists>e s'. spec_Yield (Some ops) g j sp s = (Some e, sp, s') \<and> holder s' = holder s"
proof -
  obtain r sp' s' where y: "spec_unlock (Some ops) g j sp s = (r, sp', s')" by (metis prod.exhaust)
  from lock_store.spec_unlock_holder[OF assms(1) y] assms(2-4) obtain e where "r = Some e" "holder s' = holder s"
    by (cases r) auto
  with y show ?thesis by (auto simp: spec_Yield_def elim: spec_unlock_cases)
qed

text \<open>
  a yield from a job that does not hold the lock is refused and changes nothing: the group, its
  queue and its lock holder stay, the recorded lock stays, and every job keeps the backend
  configuration its saved context will be restored with.\<close>

theorem refused_yield_changes_nothing:
  assumes "lock_store ops holder" and "lockStore E = Some ops" and "orch_inv st"
    and "holder (locks st) g = k" and "k \<noteq> []" and "k \<noteq> j" and "Yield E g j cfg st = (r, st')"
  shows "isl r \<and> map_of (groups st') = map_of (groups st) \<and> map_of (jobs st') = map_of (jobs st) \<and>
    holder (locks st') = holder (locks st)"
proof (cases "ValidateJobBackendConfig cfg = None \<and> (\<exists>grp. gs_Get g (groups st) = Inr grp)")
  case True
  then obtain grp where v: "ValidateJobBackendConfig cfg = None" "gs_Get g (groups st) = Inr grp" by blast
  have grp: "map_of (groups st) g = Some grp" using v by (simp add: gs_Get_Inr_iff)
  then have id: "gid grp = g" using gs_inv_group assms(3) unfolding orch_inv_def by blast
  obtain a js where a: "applyBackendConfig g j cfg (jobs st) = (Inr a, js)"
    using applyBackendConfig_ok[of g j cfg "jobs st"] by (cases "applyBackendConfig g j cfg (jobs st)") auto
  obtain e s' where y: "spec_Yield (Some ops) g j (spec grp) (locks st) = (Some e, spec grp, s')"
    and h: "holder s' = holder (locks st)" using spec_Yield_refused[OF assms(1,4-6)] by metis
  have same: "map_of (gs_modify g (set_spec (spec grp)) (groups st)) = map_of (groups st)"
    using grp by (auto simp: fun_eq_iff set_spec_def)
  show ?thesis
    using assms(2,7) v a y h id same applyBackendConfig_rollback[OF a]
    by (auto simp: Yield_def Let_def with_group_def split: if_splits)
qed (use assms(7) in \<open>auto simp: Yield_def split: option.splits sum.splits if_splits\<close>)

theorem refused_yield_changes_nothing_witness:
  "case Yield idle_env ''g'' ''b'' (Some JobCuda) held_state of (r, st') \<Rightarrow>
     isl r \<and> map_of (jobs st') = map_of (jobs held_state) \<and> get_str (locks st') = get_str (locks held_state)"
proof -
  have ls: "lockStore idle_env = Some MemLockStore" by (simp add: idle_env_def)
  have h: "get_str (locks held_state) ''g'' = ''a''" by code_simp
  obtain r st' where y: "Yield idle_env ''g'' ''b'' (Some JobCuda) held_state = (r, st')" by fastforce
  from refused_yield_changes_nothing[OF mem.lock_store_axioms ls held_state_inv h _ _ y] y show ?thesis by simp
qed

subsection \<open>Properties of Acquire\<close>

lemma defaultCheckAcquire_success:
  assumes "defaultCheckAcquire E g j t0 st = (Some (Inr resp), st')"
  shows "groups st' = groups st \<and> jobs st' = jobs st \<and> locks st' = locks st \<and> ar_success resp \<and>
    \<not> isGroupFaulted g (jobs st) \<and>
    (\<exists>grp. gs_Get g (groups st) = Inr grp \<and> lockingJob (spec grp) = j \<and> loadedJob (status grp) = j)"
proof -
  obtain t1 st1 where n1: "Now E st = (t1, st1)" by fastforce
  let ?st2 = "st1\<lparr>meters := (meters st1)\<lparr>AcquireWaitDuration := AcquireWaitDuration (meters st1) @ [(g, t1 - t0)]\<rparr>\<rparr>"
  obtain t2 st3 where n2: "Now E ?st2 = (t2, st3)" by fastforce
  have "groups st3 = groups st" "jobs st3 = jobs st" "locks st3 = locks st"
    using Now_frameD[OF n1] Now_frameD[OF n2] by simp_all
  with assms n1 n2 show ?thesis
    by (auto simp: defaultCheckAcquire_def Let_def split: sum.splits if_splits)
qed

lemma acquire_loop_success:
  "acquire_loop E g j t0 turns st = (Some (Inr resp), st') \<Longrightarrow>
     \<exists>st0. defaultCheckAcquire E g j t0 st0 = (Some (Inr resp), st')"
proof (induction turns arbitrary: st)
  case (Cons x turns)
  obtain others d where x: "x = (others, d)" by (cases x)
  obtain c st1 where c: "defaultCheckAcquire E g j t0 (others st) = (c, st1)" by fastforce
  with Cons x show ?case by (cases d; cases c) auto
qed simp





text \<open>
  An Acquire with an empty job identifier is granted at once on a group that nobody holds and on
  which nothing is loaded, although no lock was taken: the empty identifier is also how the
  group says that it is free.\<close>

theorem empty_job_acquires_free_group:
  assumes "gs_Get g (groups st) = Inr grp" and "lockingJob (spec grp) = []" and "loadedJob (status grp) = []"
    and "\<not> isGroupFaulted g (jobs st)"
  shows "\<exists>resp st'. defaultCheckAcquire E g [] t0 st = (Some (Inr resp), st') \<and> ar_success resp"
  using assms by (auto simp: defaultCheckAcquire_def Let_def split: prod.splits)

theorem empty_job_acquires_free_group_witness:
  "let grp = \<lparr>gid = ''g'', spec = \<lparr>lockingJob = [], queue = NewWaitingJobQueue, activeJob = []\<rparr>,
              status = \<lparr>nodes = [], gstate = GROUP_STATE_IDLE, stateTimestamp = 0, loadedJob = []\<rparr>\<rparr>;
       st = held_state\<lparr>groups := [(''g'', grp)]\<rparr>
   in \<exists>resp st'. defaultCheckAcquire idle_env ''g'' [] 0 st = (Some (Inr resp), st') \<and> ar_success resp"
  unfolding Let_def by (rule empty_job_acquires_free_group[OF _ _ _]) code_simp+

end
