(* ===== verification/Lock_Safety.thy ===== *)
theory Lock_Safety
  imports Orch_Server
begin

text \<open>
  Mutual exclusion of the whole orchestrator. A system state is the orchestrator's state
  together with the set \<open>held\<close> of pairs (group, job) for which an Acquire reported
  success and that were not given up since. Its steps are the atomic parts of the handlers and
  of the reconciliation, in any order and for any groups and jobs, changes of the outside
  world, and a crash of the process followed by a restart on the recorded locks. The held pairs
  survive a crash: the jobs do not know about it.
\<close>

text \<open>
  A lock store whose failing release has no effect. An in-memory store has none; for a remote
  store this excludes a release that is carried out although its answer is lost.
\<close>

locale strict_lock_store = lock_store ops holder
  for ops :: "'s lock_ops" and holder :: "'s \<Rightarrow> string \<Rightarrow> string" +
  assumes unlock_strict: "ls_Unlock ops g j s = (Some e, s') \<Longrightarrow> holder s' = holder s"
begin

definition in_sync :: "string \<Rightarrow> group_spec \<Rightarrow> 's \<Rightarrow> bool" where
  "in_sync g sp s \<longleftrightarrow> lockingJob sp \<noteq> [] \<longrightarrow> holder s g = lockingJob sp"

lemma sync_unlock:
  assumes "in_sync g sp s" and "spec_unlock (Some ops) g j sp s = (r, sp', s')"
  shows "in_sync g sp' s' \<and> (\<forall>h. h \<noteq> g \<longrightarrow> holder s' h = holder s h) \<and>
    (\<forall>k. k \<noteq> [] \<and> k \<noteq> j \<and> holder s g = k \<longrightarrow> holder s' g = k \<and> lockingJob sp' = lockingJob sp)"
proof (cases r)
  case None
  with spec_unlock_holder[OF assms(2)] have "holder s g \<in> {[], j}" "holder s' = (holder s)(g := [])" by simp_all
  with None assms(2) show ?thesis by (auto simp: in_sync_def elim: spec_unlock_cases)
next
  case (Some e)
  with assms(2) have "holder s' = holder s"
    by (auto simp: spec_unlock_def split: prod.splits option.splits dest: unlock_strict)
  with Some assms show ?thesis by (auto simp: in_sync_def elim: spec_unlock_cases)
qed

lemma sync_promote:
  assumes "in_sync g sp s" and "TryPromote (Some ops) g sp s = (r, sp', s')"
  shows "in_sync g sp' s' \<and> (\<forall>h. h \<noteq> g \<longrightarrow> holder s' h = holder s h) \<and>
    (\<forall>k. k \<noteq> [] \<and> holder s g = k \<longrightarrow> holder s' g = k \<and> (lockingJob sp = k \<longrightarrow> lockingJob sp' = k))"
proof (cases "lockingJob sp = [] \<and> waiting (queue sp) \<noteq> []")
  case False
  with assms show ?thesis by (auto simp: TryPromote_def Peek_waiting split: if_splits list.splits)
next
  case True
  then obtain j js where w: "waiting (queue sp) = j # js" by (auto simp: neq_Nil_conv)
  obtain r1 sp1 s1 where l: "spec_lock (Some ops) g j sp s = (r1, sp1, s1)" by (metis prod.exhaust)
  note h = spec_lock_holder[OF l]
  have "s' = s1" "sp' = (if r1 = None then sp1\<lparr>queue := snd (Dequeue (queue sp1))\<rparr> else sp1)"
    using assms(2) True w l by (auto simp: TryPromote_def Peek_waiting split: option.splits)
  moreover have "lockingJob sp1 = (if r1 = None then j else [])" using l True by (auto elim: spec_lock_cases)
  ultimately show ?thesis using h True by (cases r1) (auto simp: in_sync_def)
qed

end

interpretation mem_strict: strict_lock_store MemLockStore get_str
  by unfold_locales (auto simp: MemLockStore_def mem_Unlock_def Let_def split: if_splits)

subsection \<open>The system\<close>

type_synonym ('s, 'w) sys = "('s, 'w) orch \<times> (string \<times> string) set"

inductive sys_step :: "('s, 'w) env \<Rightarrow> ('s, 'w) sys \<Rightarrow> ('s, 'w) sys \<Rightarrow> bool" for E where
  acquire: "acquire_request E g j st = (r, st') \<Longrightarrow> sys_step E (st, H) (st', H)"
| granted: "defaultCheckAcquire E g j t st = (Some (Inr resp), st') \<Longrightarrow> j \<noteq> [] \<Longrightarrow>
     sys_step E (st, H) (st', insert (g, j) H)"
| polled: "defaultCheckAcquire E g j t st = (r, st') \<Longrightarrow> \<not> (\<exists>resp. r = Some (Inr resp)) \<Longrightarrow>
     sys_step E (st, H) (st', H)"
| yield: "Yield E g j cfg st = (r, st') \<Longrightarrow> sys_step E (st, H) (st', H - {(g, j)})"
| nodes: "updateGroupNodes E g ns st = (r, st') \<Longrightarrow> sys_step E (st, H) (st', H)"
| pods: "updateJobsAndPods g ps (jobs st) = (r, js) \<Longrightarrow> sys_step E (st, H) (st\<lparr>jobs := js\<rparr>, H)"
| cleanup: "cleanupGroup E g st = (r, st') \<Longrightarrow> sys_step E (st, H) (st', H - {g} \<times> UNIV)"
| observe: "ObserveJobContext E g st = (r, st') \<Longrightarrow> sys_step E (st, H) (st', H)"
| deduce: "deduceActive g st = (r, st') \<Longrightarrow> sys_step E (st, H) (st', H)"
| settle: "settle E g st = (r, st') \<Longrightarrow> sys_step E (st, H) (st', H)"
| promote: "promote E g st = (r, st') \<Longrightarrow> sys_step E (st, H) (st', H)"
| pass: "answer E c q st = (r, c', st') \<Longrightarrow> sys_step E (st, H) (st', H)"
| publish: "publish E g st = (r, st') \<Longrightarrow> sys_step E (st, H) (st', H)"
| environment: "sys_step E (st, H) (st\<lparr>world := w\<rparr>, H)"
| crash: "sys_step E (st, H) (orch_start (locks st) (world st), H)"

inductive_cases sys_stepE: "sys_step E (st, H) (st', H')"

inductive sys_reach :: "('s, 'w) env \<Rightarrow> ('s, 'w) sys \<Rightarrow> bool" for E where
  start: "sys_reach E (orch_start s w, {})"
| step: "sys_reach E x \<Longrightarrow> sys_step E x y \<Longrightarrow> sys_reach E y"

subsection \<open>The invariant\<close>

context strict_lock_store
begin

definition safe :: "('s, 'w) sys \<Rightarrow> bool" where
  "safe x \<longleftrightarrow> gs_inv (groups (fst x)) \<and>
     (\<forall>g grp. map_of (groups (fst x)) g = Some grp \<longrightarrow> in_sync g (spec grp) (locks (fst x))) \<and>
     (\<forall>g j. (g, j) \<in> snd x \<longrightarrow> j \<noteq> [] \<and> holder (locks (fst x)) g = j \<and>
        (\<forall>grp. map_of (groups (fst x)) g = Some grp \<longrightarrow> lockingJob (spec grp) = j))"

lemma safe_held:
  "safe (st, H) \<Longrightarrow> (g, j) \<in> H \<Longrightarrow> j \<noteq> [] \<and> holder (locks st) g = j"
  by (simp add: safe_def)

lemma safe_gs_inv: "safe (st, H) \<Longrightarrow> gs_inv (groups st)"
  by (simp add: safe_def)

text \<open>Steps that leave every lock as it is: a group keeps its lock holder or takes the recorded one.\<close>

lemma safe_frame:
  assumes "safe (st, H)" and "gs_inv (groups st')" and "holder (locks st') = holder (locks st)"
    and "\<And>h grp'. map_of (groups st') h = Some grp' \<Longrightarrow>
      (\<exists>grp. map_of (groups st) h = Some grp \<and> lockingJob (spec grp') = lockingJob (spec grp)) \<or>
      lockingJob (spec grp') = holder (locks st) h"
  shows "safe (st', H)"
  unfolding safe_def fst_conv snd_conv
proof (intro conjI allI impI)
  show "gs_inv (groups st')" by (rule assms(2))
  fix h grp' assume g: "map_of (groups st') h = Some grp'"
  from assms(4)[OF g] assms(1,3) show "in_sync h (spec grp') (locks st')"
    by (auto simp: safe_def in_sync_def)
next
  fix g j assume h: "(g, j) \<in> H"
  with assms(1,3) show "j \<noteq> []" "holder (locks st') g = j" by (auto simp: safe_def)
  fix grp' assume g: "map_of (groups st') g = Some grp'"
  from assms(4)[OF g] assms(1) h show "lockingJob (spec grp') = j" by (auto simp: safe_def)
qed

lemma safe_same:
  assumes "safe (st, H)" and "groups st' = groups st" and "locks st' = locks st"
  shows "safe (st', H)"
  by (rule safe_frame[OF assms(1)]) (use assms safe_gs_inv in auto)

text \<open>Steps that run a lock operation on one group.\<close>

lemma safe_spec:
  assumes "safe (st, H)" and "map_of (groups st) g = Some grp" and "spec_inv sp"
    and "groups st' = gs_modify g (set_spec sp) (groups st)" and "in_sync g sp (locks st')"
    and "\<And>h. h \<noteq> g \<Longrightarrow> holder (locks st') h = holder (locks st) h"
    and "H' \<subseteq> H" and "\<And>j. (g, j) \<in> H' \<Longrightarrow> holder (locks st') g = j \<and> lockingJob sp = j"
  shows "safe (st', H')"
  unfolding safe_def fst_conv snd_conv
proof (intro conjI allI impI)
  show "gs_inv (groups st')"
    unfolding assms(4) by (rule gs_inv_modify[OF safe_gs_inv[OF assms(1)]]) (simp add: assms(3))
  fix h grp' assume m: "map_of (groups st') h = Some grp'"
  show "in_sync h (spec grp') (locks st')"
  proof (cases "h = g")
    case True
    with m assms(2,4,5) show ?thesis by auto
  next
    case False
    with m assms(1,4,6) show ?thesis by (simp add: safe_def in_sync_def)
  qed
next
  fix h j assume h: "(h, j) \<in> H'"
  with assms(7) have H: "(h, j) \<in> H" by blast
  then show "j \<noteq> []" using assms(1) by (auto simp: safe_def)
  show "holder (locks st') h = j"
    using h H assms(1,6,8) by (cases "h = g") (auto simp: safe_def)
  fix grp' assume "map_of (groups st') h = Some grp'"
  then show "lockingJob (spec grp') = j"
    using h H assms(1,2,4,8) by (cases "h = g") (auto simp: safe_def)
qed

lemma safe_promote:
  assumes "safe (st, H)" and "lockStore E = Some ops" and "promote E g st = (r, st')"
  shows "safe (st', H)"
proof (cases "map_of (groups st) g")
  case (Some grp)
  have id: "gid grp = g" and inv: "spec_inv (spec grp)" using gs_inv_group[OF safe_gs_inv[OF assms(1)] Some] by auto
  obtain r1 sp s where p: "TryPromote (Some ops) g (spec grp) (locks st) = (r1, sp, s)" by (metis prod.exhaust)
  have "in_sync g (spec grp) (locks st)" using assms(1) Some by (simp add: safe_def)
  note sp = sync_promote[OF this p]
  have st': "st' = (with_group g (set_spec sp) st)\<lparr>locks := s\<rparr>"
    using assms(2,3) Some p id by (simp add: promote_def)
  show ?thesis
  proof (rule safe_spec[OF assms(1) Some TryPromote_inv[OF inv p]])
    fix j assume "(g, j) \<in> H"
    with assms(1) Some sp show "holder (locks st') g = j \<and> lockingJob sp = j" by (auto simp: safe_def st')
  qed (use sp in \<open>simp_all add: st'\<close>)
qed (use assms in \<open>simp add: promote_def\<close>)

lemma safe_yield:
  assumes "safe (st, H)" and "lockStore E = Some ops" and "Yield E g j cfg st = (r, st')"
  shows "safe (st', H - {(g, j)})"
proof -
  have mono: "safe (s, H') \<Longrightarrow> H'' \<subseteq> H' \<Longrightarrow> safe (s, H'')" for s :: "('s, 'b) orch" and H' H''
    unfolding safe_def fst_conv snd_conv by blast
  show ?thesis
  proof (cases "ValidateJobBackendConfig cfg = None \<and> (\<exists>grp. gs_Get g (groups st) = Inr grp)")
    case True
    then obtain grp where v: "ValidateJobBackendConfig cfg = None" "gs_Get g (groups st) = Inr grp" by blast
    then have m: "map_of (groups st) g = Some grp" by (simp add: gs_Get_Inr_iff)
    have id: "gid grp = g" and inv: "spec_inv (spec grp)" using gs_inv_group[OF safe_gs_inv[OF assms(1)] m] by auto
    obtain a js where a: "applyBackendConfig g j cfg (jobs st) = (Inr a, js)"
      using applyBackendConfig_ok[of g j cfg "jobs st"] by (cases "applyBackendConfig g j cfg (jobs st)") auto
    obtain r1 sp s where u: "spec_unlock (Some ops) g j (spec grp) (locks st) = (r1, sp, s)" by (metis prod.exhaust)
    have st': "groups st' = gs_modify g (set_spec sp) (groups st)" "locks st' = s"
      using assms(2,3) v a u id
      by (atomize(full), cases r1) (auto simp: Yield_def spec_Yield_def Let_def EnqueueWork_def split: if_splits)
    have "in_sync g (spec grp) (locks st)" using assms(1) m by (simp add: safe_def)
    note sp = sync_unlock[OF this u]
    show ?thesis
    proof (rule safe_spec[OF assms(1) m spec_unlock_inv[OF inv u] st'(1)])
      fix k assume "(g, k) \<in> H - {(g, j)}"
      with assms(1) m sp show "holder (locks st') g = k \<and> lockingJob sp = k" by (auto simp: safe_def st')
    qed (use sp st' in auto)
  next
    case False
    then have "st' = st" using assms(3) by (auto simp: Yield_def split: option.splits sum.splits if_splits)
    with assms(1) mono show ?thesis by blast
  qed
qed

lemma safe_nodes:
  assumes "safe (st, H)" and "lockStore E = Some ops" and "updateGroupNodes E g ns st = (r, st')"
  shows "safe (st', H)"
proof -
  obtain now st0 where n: "Now E st = (now, st0)" by fastforce
  note st0 = Now_frameD[OF n]
  obtain c gs s where c: "GetOrCreate (Some ops) now g (groups st) (locks st) = (c, gs, s)" by (metis prod.exhaust)
  have gs: "gs_inv gs" by (rule GetOrCreate_inv[OF safe_gs_inv[OF assms(1)] c])
  have create: "holder s = holder (locks st) \<and> (\<forall>h grp'. map_of gs h = Some grp' \<longrightarrow>
      map_of (groups st) h = Some grp' \<or> lockingJob (spec grp') = holder (locks st) h)"
  proof (cases "map_of (groups st) g")
    case None
    obtain a s1 where "ls_GetLock ops g (locks st) = (a, s1)" by fastforce
    with c None get_ok[of g "locks st" _ s1] get_err[of g "locks st" _ s1] show ?thesis
      by (cases a) (auto simp: GetOrCreate_def NewGroup_def Let_def split: if_splits)
  qed (use c in \<open>auto simp: GetOrCreate_def\<close>)
  let ?f = "\<lambda>g. g\<lparr>status := SetNodes ns (status g)\<rparr>"
  have st': "locks st' = s" "groups st' = (if isl c then gs else gs_modify g ?f gs)"
    using assms(2,3) n c st0 by (auto simp: updateGroupNodes_def Let_def split: sum.splits)
  show ?thesis
  proof (rule safe_frame[OF assms(1)])
    have "gs_inv (gs_modify g ?f gs)" by (rule gs_inv_modify[OF gs]) (use gs_inv_group[OF gs] in auto)
    with gs show "gs_inv (groups st')" by (simp add: st')
    show "holder (locks st') = holder (locks st)" using create by (simp add: st')
    fix h grp' assume "map_of (groups st') h = Some grp'"
    then obtain grp0 where "map_of gs h = Some grp0" "lockingJob (spec grp') = lockingJob (spec grp0)"
      by (auto simp: st' split: if_splits)
    with create show "(\<exists>grp. map_of (groups st) h = Some grp \<and> lockingJob (spec grp') = lockingJob (spec grp)) \<or>
      lockingJob (spec grp') = holder (locks st) h" by auto
  qed
qed

lemma safe_cleanup:
  assumes "safe (st, H)" and "lockStore E = Some ops" and "cleanupGroup E g st = (r, st')"
  shows "safe (st', H - {g} \<times> UNIV)"
proof -
  obtain r1 gs m s where d: "gs_Delete (Some ops) g (groups st) (meters st) (locks st) = (r1, gs, m, s)"
    by (metis prod.exhaust)
  have st': "groups st' = gs" "locks st' = s"
    using assms(2,3) d by (auto simp: cleanupGroup_def Let_def split: sum.splits)
  have inv: "gs_inv gs" by (rule gs_Delete_inv[OF safe_gs_inv[OF assms(1)] d])
  have fr: "(\<forall>h. h \<noteq> g \<longrightarrow> holder s h = holder (locks st) h \<and> map_of gs h = map_of (groups st) h) \<and>
      (\<forall>grp. map_of gs g = Some grp \<longrightarrow> in_sync g (spec grp) s)"
  proof (cases "map_of (groups st) g")
    case None
    with d show ?thesis by (auto simp: gs_Delete_def)
  next
    case (Some grp)
    have id: "gid grp = g" using gs_inv_group[OF safe_gs_inv[OF assms(1)] Some] by simp
    have sy: "in_sync g (spec grp) (locks st)" using assms(1) Some by (simp add: safe_def)
    obtain r2 sp s2 where u: "spec_Delete (Some ops) g (spec grp) (locks st) = (r2, sp, s2)" by (metis prod.exhaust)
    have sp: "in_sync g sp s2 \<and> (\<forall>h. h \<noteq> g \<longrightarrow> holder s2 h = holder (locks st) h)"
      using u sy sync_unlock[OF sy, of "lockingJob (spec grp)" r2 sp s2] by (auto simp: spec_Delete_def split: if_splits)
    with d u Some id show ?thesis
      by (cases r2) (auto simp: gs_Delete_def group_Delete_def)
  qed
  show ?thesis
    unfolding safe_def fst_conv snd_conv st'
  proof (intro conjI allI impI)
    fix h grp assume m: "map_of gs h = Some grp"
    show "in_sync h (spec grp) s"
      using m fr assms(1) by (cases "h = g") (auto simp: safe_def in_sync_def)
  next
    fix h j assume h: "(h, j) \<in> H - {g} \<times> UNIV"
    with assms(1) show "j \<noteq> []" by (auto simp: safe_def)
    from h assms(1) fr show "holder s h = j" by (auto simp: safe_def)
    fix grp assume "map_of gs h = Some grp"
    with h assms(1) fr show "lockingJob (spec grp) = j" by (auto simp: safe_def)
  qed (rule inv)
qed

lemma safe_acquire:
  assumes "safe (st, H)" and "acquire_request E g j st = (r, st')"
  shows "safe (st', H)"
proof -
  obtain t0 st0 where n0: "Now E st = (t0, st0)" by fastforce
  obtain t1 st1 where n1: "Now E st0 = (t1, st1)" by fastforce
  note f = Now_frameD[OF n0] Now_frameD[OF n1]
  let ?f = "\<lambda>g. set_spec (RequestLock t1 j (spec g)) g"
  have st': "locks st' = locks st" "groups st' = groups st \<or> groups st' = gs_modify g ?f (groups st)"
    using assms(2) n0 n1 f by (auto simp: acquire_request_def EnqueueWork_def split: sum.splits if_splits)
  show ?thesis
  proof (cases "groups st' = groups st")
    case False
    with st' have g: "groups st' = gs_modify g ?f (groups st)" by blast
    show ?thesis
    proof (rule safe_frame[OF assms(1)])
      show "gs_inv (groups st')" unfolding g
        by (rule gs_inv_modify[OF safe_gs_inv[OF assms(1)]])
          (use gs_inv_group[OF safe_gs_inv[OF assms(1)]] RequestLock_inv in simp)
      fix h grp' assume "map_of (groups st') h = Some grp'"
      then show "(\<exists>grp. map_of (groups st) h = Some grp \<and> lockingJob (spec grp') = lockingJob (spec grp)) \<or>
        lockingJob (spec grp') = holder (locks st) h"
        by (auto simp: g RequestLock_def split: if_splits)
    qed (simp add: st')
  qed (use st' safe_same[OF assms(1)] in auto)
qed

lemma safe_check:
  assumes "safe (st, H)" and "defaultCheckAcquire E g j t st = (r, st')"
  shows "safe (st', H)"
proof -
  have "groups st' = groups st \<and> locks st' = locks st"
  proof (cases "\<exists>resp. r = Some (Inr resp)")
    case True
    with assms(2) defaultCheckAcquire_success show ?thesis by blast
  qed (use assms(2) in \<open>auto simp: defaultCheckAcquire_def Let_def split: sum.splits if_splits prod.splits\<close>)
  with safe_same[OF assms(1)] show ?thesis by blast
qed

lemma safe_granted:
  assumes "safe (st, H)" and "defaultCheckAcquire E g j t st = (Some (Inr resp), st')" and "j \<noteq> []"
  shows "safe (st', insert (g, j) H)"
proof -
  note ok = defaultCheckAcquire_success[OF assms(2)]
  then obtain grp where g: "map_of (groups st) g = Some grp" "lockingJob (spec grp) = j" by (auto simp: gs_Get_Inr_iff)
  with assms(1,3) have "holder (locks st) g = j" by (auto simp: safe_def in_sync_def)
  with g ok assms(1,3) show ?thesis by (auto simp: safe_def)
qed

lemma safe_replace:
  assumes "safe (st, H)" and "map_of (groups st) g = Some grp" and "gid grp' = gid grp"
    and "lockingJob (spec grp') = lockingJob (spec grp)" and "spec_inv (spec grp) \<longrightarrow> spec_inv (spec grp')"
    and "groups st' = gs_modify g (\<lambda>_. grp') (groups st)" and "locks st' = locks st"
  shows "safe (st', H)"
proof (rule safe_frame[OF assms(1)])
  show "gs_inv (groups st')" unfolding assms(6)
    by (rule gs_inv_modify[OF safe_gs_inv[OF assms(1)]])
      (use gs_inv_group[OF safe_gs_inv[OF assms(1)]] assms(2,3,5) in auto)
  fix h g' assume "map_of (groups st') h = Some g'"
  then show "(\<exists>grp. map_of (groups st) h = Some grp \<and> lockingJob (spec g') = lockingJob (spec grp)) \<or>
        lockingJob (spec g') = holder (locks st) h"
    using assms(2,4) by (auto simp: assms(6) split: if_splits)
qed (simp add: assms(7))

lemma safe_deduce:
  assumes "safe (st, H)" and "deduceActive g st = (r, st')"
  shows "safe (st', H)"
proof (cases "map_of (groups st) g")
  case (Some grp)
  obtain r1 grp' where d: "tryDeduceActiveJob (jobs st) grp = (r1, grp')" by fastforce
  with Some assms(2) have "st' = with_group g (\<lambda>_. grp') st" by (simp add: deduceActive_def)
  with tryDeduceActiveJob_frame[OF d] show ?thesis by (intro safe_replace[OF assms(1) Some, of grp']) auto
qed (use assms in \<open>simp add: deduceActive_def\<close>)

lemma safe_publish:
  assumes "safe (st, H)" and "publish E g st = (r, st')"
  shows "safe (st', H)"
proof -
  obtain now st1 where n: "Now E st = (now, st1)" by fastforce
  note f = Now_frameD[OF n]
  show ?thesis
  proof (cases "map_of (groups st) g")
    case None
    with assms(2) n f have "groups st' = groups st" "locks st' = locks st" by (auto simp: publish_def)
    then show ?thesis by (rule safe_same[OF assms(1)])
  next
    case (Some grp)
    obtain r1 grp' where u: "updateGroupStatus now (jobs st1) grp = (r1, grp')" by fastforce
    note fr = updateGroupStatus_frame[OF u]
    show ?thesis
    proof (cases r1)
      case None
      with Some assms(2) n f u have "groups st' = gs_modify g (\<lambda>_. grp') (groups st)" "locks st' = locks st"
        by (auto simp: publish_def Let_def)
      with fr show ?thesis by (intro safe_replace[OF assms(1) Some, of grp']) auto
    next
      case (Some e)
      with \<open>map_of (groups st) g = _\<close> assms(2) n f u have "groups st' = groups st" "locks st' = locks st"
        by (auto simp: publish_def)
      then show ?thesis by (rule safe_same[OF assms(1)])
    qed
  qed
qed

lemma safe_step:
  assumes "sys_step E x y" and "safe x" and "lockStore E = Some ops"
  shows "safe y"
  using assms
proof (induction rule: sys_step.induct)
  case (settle g st r st' H)
  have "groups st' = groups st \<and> locks st' = locks st"
    using settle.hyps waitForGrantSettlement_frame by (fastforce simp: settle_def split: option.splits)
  with settle.prems(1) safe_same show ?case by blast
next
  case (crash st H)
  show ?case by (rule safe_frame[OF crash.prems(1)]) (simp_all add: orch_start_def gs_inv_Nil)
next
  case (observe g st r st' H)
  with ObserveJobContext_frame safe_same show ?case by blast
next
  case (pass c q st r c' st' H)
  with answer_frame safe_same show ?case by blast
qed (auto intro: safe_acquire safe_granted safe_check safe_yield safe_nodes safe_cleanup safe_deduce safe_promote
      safe_publish elim: safe_same)

lemma safe_reach: "sys_reach E x \<Longrightarrow> lockStore E = Some ops \<Longrightarrow> safe x"
proof (induction rule: sys_reach.induct)
  case (start s w)
  then show ?case by (simp add: safe_def orch_start_def gs_inv_Nil)
next
  case (step x y)
  then show ?case by (blast intro: safe_step)
qed

theorem mutual_exclusion:
  assumes "sys_reach E (st, H)" and "lockStore E = Some ops" and "(g, j) \<in> H"
  shows "j \<noteq> []" and "holder (locks st) g = j"
    and "map_of (groups st) g = Some grp \<Longrightarrow> lockingJob (spec grp) = j"
  using safe_reach[OF assms(1,2)] assms(3) by (auto simp: safe_def)

end


text \<open>A run: the group appears, job \<open>a\<close> asks for it, is promoted, published and granted.\<close>

definition run_seen :: "(mem_lock_store, int) orch" where
  "run_seen = snd (updateGroupNodes idle_env ''g'' [''n1''] (orch_start [] 0))"
definition run_asked :: "(mem_lock_store, int) orch" where
  "run_asked = snd (acquire_request idle_env ''g'' ''a'' run_seen)"
definition run_promoted :: "(mem_lock_store, int) orch" where
  "run_promoted = snd (promote idle_env ''g'' run_asked)"
definition run_published :: "(mem_lock_store, int) orch" where
  "run_published = snd (publish idle_env ''g'' run_promoted)"
definition run_granted :: "(mem_lock_store, int) orch" where
  "run_granted = snd (defaultCheckAcquire idle_env ''g'' ''a'' 0 run_published)"

lemma run_reach: "sys_reach idle_env (run_granted, {(''g'', ''a'')})"
proof -
  have "sys_reach idle_env (run_seen, {})"
    unfolding run_seen_def by (rule step[OF start nodes]) (rule prod.collapse[symmetric])
  then have "sys_reach idle_env (run_asked, {})"
    unfolding run_asked_def by (rule step[OF _ acquire]) (rule prod.collapse[symmetric])
  then have "sys_reach idle_env (run_promoted, {})"
    unfolding run_promoted_def by (rule step[OF _ sys_step.promote]) (rule prod.collapse[symmetric])
  then have p: "sys_reach idle_env (run_published, {})"
    unfolding run_published_def by (rule step[OF _ sys_step.publish]) (rule prod.collapse[symmetric])
  have "case fst (defaultCheckAcquire idle_env ''g'' ''a'' 0 run_published) of Some (Inr _) \<Rightarrow> True | _ \<Rightarrow> False"
    by code_simp
  then obtain resp where "defaultCheckAcquire idle_env ''g'' ''a'' 0 run_published = (Some (Inr resp), run_granted)"
    unfolding run_granted_def by (cases "defaultCheckAcquire idle_env ''g'' ''a'' 0 run_published") (auto split: option.splits sum.splits)
  then have "sys_step idle_env (run_published, {}) (run_granted, insert (''g'', ''a'') {})" by (rule granted) simp
  with p show ?thesis by (rule step)
qed


end
