(* ===== verification/Fifo_Lock.thy ===== *)
theory Fifo_Lock
  imports Lock_Safety
begin

text \<open>
  What a group promises its jobs, independent of queues with an index, recorded locks and failing
  stores: a lock with a first-come, first-served line. The abstract lock is a holder, empty when free,
  and the jobs in line. A call on a group that returns no error is a move of the abstract lock, and
  a call that returns an error leaves it alone.
\<close>

subsection \<open>The abstract lock\<close>

record fifo_lock =
  fl_holder :: string
  fl_line :: "string list"

datatype call = CallRequest int string | CallYield string | CallPromote | CallDeduce string | CallDelete

text \<open>
  The moves: a job that neither holds the lock nor stands in line joins the line at its end; the
  holder, and nobody else, gives the lock back; a free lock goes to the head of the line; a group
  that is removed gives the lock back for its holder.
\<close>

fun fl_move :: "call \<Rightarrow> fifo_lock \<Rightarrow> fifo_lock" where
  "fl_move (CallRequest now j) l =
     (if j = fl_holder l \<or> j \<in> set (fl_line l) then l else l\<lparr>fl_line := fl_line l @ [j]\<rparr>)"
| "fl_move (CallYield j) l = (if j = fl_holder l then l\<lparr>fl_holder := []\<rparr> else l)"
| "fl_move CallPromote l =
     (case fl_line l of
        [] \<Rightarrow> l
      | j # js \<Rightarrow> if fl_holder l = [] then \<lparr>fl_holder = j, fl_line = js\<rparr> else l)"
| "fl_move (CallDeduce j) l = l"
| "fl_move CallDelete l = l\<lparr>fl_holder := []\<rparr>"

subsection \<open>Calls on a group\<close>

text \<open>\<^verbatim>\<open>SetActiveJob\<close> is called only by the deduction, on a group without lock and active job.\<close>

fun call_group :: "'s lock_ops option \<Rightarrow> string \<Rightarrow> call \<Rightarrow> group_spec \<times> 's \<Rightarrow> group_spec \<times> 's" where
  "call_group ls g (CallRequest now j) (sp, s) = (RequestLock now j sp, s)"
| "call_group ls g (CallYield j) (sp, s) = snd (spec_Yield ls g j sp s)"
| "call_group ls g CallPromote (sp, s) = snd (TryPromote ls g sp s)"
| "call_group ls g (CallDeduce j) (sp, s) =
     (if lockingJob sp = [] \<and> activeJob sp = [] then (SetActiveJob j sp, s) else (sp, s))"
| "call_group ls g CallDelete (sp, s) = snd (spec_Delete ls g sp s)"

text \<open>The calls that return no error, and those of a sequence of calls.\<close>

fun call_ok :: "'s lock_ops option \<Rightarrow> string \<Rightarrow> call \<Rightarrow> group_spec \<times> 's \<Rightarrow> bool" where
  "call_ok ls g (CallRequest now j) (sp, s) \<longleftrightarrow> True"
| "call_ok ls g (CallYield j) (sp, s) \<longleftrightarrow> fst (spec_Yield ls g j sp s) = None"
| "call_ok ls g CallPromote (sp, s) \<longleftrightarrow> \<not> isl (fst (TryPromote ls g sp s))"
| "call_ok ls g (CallDeduce j) (sp, s) \<longleftrightarrow> True"
| "call_ok ls g CallDelete (sp, s) \<longleftrightarrow> fst (spec_Delete ls g sp s) = None"

fun succeeded :: "'s lock_ops option \<Rightarrow> string \<Rightarrow> call list \<Rightarrow> group_spec \<times> 's \<Rightarrow> call list" where
  "succeeded ls g [] x = []"
| "succeeded ls g (c # cs) x =
     (if call_ok ls g c x then [c] else []) @ succeeded ls g cs (call_group ls g c x)"

definition abs_lock :: "group_spec \<Rightarrow> fifo_lock" where
  "abs_lock sp = \<lparr>fl_holder = lockingJob sp, fl_line = waiting (queue sp)\<rparr>"

lemma abs_lock_simps [simp]: "fl_holder (abs_lock sp) = lockingJob sp" "fl_line (abs_lock sp) = waiting (queue sp)"
  by (simp_all add: abs_lock_def)

lemma call_group_step: "spec_step ls g x (call_group ls g c x) \<or> call_group ls g c x = x"
proof (cases x)
  case (Pair sp s)
  show ?thesis
  proof (cases c)
    case (CallRequest now j)
    then show ?thesis using Pair by (simp add: spec_step.request)
  next
    case (CallYield j)
    then show ?thesis using Pair spec_step.yield[of ls g j sp s] by (cases "spec_Yield ls g j sp s") simp
  next
    case CallPromote
    then show ?thesis using Pair spec_step.promote[of ls g sp s] by (cases "TryPromote ls g sp s") simp
  next
    case (CallDeduce j)
    then show ?thesis using Pair by (simp add: spec_step.deduce)
  next
    case CallDelete
    then show ?thesis using Pair spec_step.delete[of ls g sp s] by (cases "spec_Delete ls g sp s") simp
  qed
qed

lemma call_group_inv: "spec_inv (fst x) \<Longrightarrow> spec_inv (fst (call_group ls g c x))"
  using call_group_step[of ls g x c] spec_step_inv by metis

subsection \<open>Refinement\<close>

lemma refines_request:
  assumes "spec_inv sp"
  shows "abs_lock (RequestLock now j sp) = fl_move (CallRequest now j) (abs_lock sp)"
  using assms by (auto simp: RequestLock_def abs_lock_def spec_inv_def waiting_Enqueue)

lemma refines_promote:
  assumes "spec_inv sp" and "TryPromote ls g sp s = (r, sp', s')"
  shows "abs_lock sp' = (if isl r then abs_lock sp else fl_move CallPromote (abs_lock sp))"
  using assms(2)
  by (cases rule: TryPromote_cases)
    (use assms(1) in \<open>auto simp: abs_lock_def spec_inv_def waiting_Dequeue split: list.splits\<close>)

context strict_lock_store
begin

lemma refines_unlock:
  assumes "in_sync g sp s" and "spec_unlock (Some ops) g j sp s = (r, sp', s')"
  shows "abs_lock sp' = (if r = None then fl_move (CallYield j) (abs_lock sp) else abs_lock sp)"
  using assms(2)
proof (cases rule: spec_unlock_cases)
  case 1
  then have "holder s g \<in> {[], j}" using spec_unlock_holder[OF assms(2)] by simp
  then show ?thesis using 1 assms(1) by (auto simp: in_sync_def abs_lock_def)
qed simp

lemma call_in_sync:
  assumes "in_sync g (fst x) (snd x)"
  shows "in_sync g (fst (call_group (Some ops) g c x)) (snd (call_group (Some ops) g c x))"
proof (cases x)
  case (Pair sp s)
  have u: "in_sync g (fst (snd (spec_unlock (Some ops) g j sp s))) (snd (snd (spec_unlock (Some ops) g j sp s)))" for j
    using sync_unlock[of g sp s j] assms Pair by (cases "spec_unlock (Some ops) g j sp s") simp
  show ?thesis
  proof (cases c)
    case CallPromote
    then show ?thesis using Pair assms sync_promote[of g sp s] by (cases "TryPromote (Some ops) g sp s") simp
  qed (use Pair assms u in \<open>auto simp: spec_Yield_def spec_Delete_def RequestLock_def SetActiveJob_def in_sync_def\<close>)
qed

lemma call_refines:
  assumes "spec_inv (fst x)" and "in_sync g (fst x) (snd x)"
  shows "abs_lock (fst (call_group (Some ops) g c x)) =
    (if call_ok (Some ops) g c x then fl_move c (abs_lock (fst x)) else abs_lock (fst x))"
proof (cases x)
  case (Pair sp s)
  have u: "abs_lock (fst (snd (spec_unlock (Some ops) g j sp s))) =
      (if fst (spec_unlock (Some ops) g j sp s) = None then fl_move (CallYield j) (abs_lock sp) else abs_lock sp)" for j
    using refines_unlock[of g sp s j] assms Pair by (cases "spec_unlock (Some ops) g j sp s") simp
  show ?thesis
  proof (cases c)
    case (CallRequest now j)
    then show ?thesis using refines_request[of sp now j] assms Pair by simp
  next
    case (CallYield j)
    then show ?thesis using u[of j] Pair by (auto simp: spec_Yield_def)
  next
    case CallPromote
    then show ?thesis using refines_promote[of sp "Some ops" g s] assms Pair by (cases "TryPromote (Some ops) g sp s") simp
  next
    case (CallDeduce j)
    then show ?thesis using Pair by (simp add: SetActiveJob_def abs_lock_def)
  next
    case CallDelete
    then show ?thesis using u[of "lockingJob sp"] Pair by (auto simp: spec_Delete_def)
  qed
qed

lemma calls_refine:
  assumes "spec_inv (fst x)" and "in_sync g (fst x) (snd x)"
  shows "abs_lock (fst (fold (call_group (Some ops) g) cs x)) = fold fl_move (succeeded (Some ops) g cs x) (abs_lock (fst x))"
  using assms
proof (induction cs arbitrary: x)
  case (Cons c cs)
  let ?y = "call_group (Some ops) g c x"
  have "abs_lock (fst (fold (call_group (Some ops) g) cs ?y)) = fold fl_move (succeeded (Some ops) g cs ?y) (abs_lock (fst ?y))"
    using Cons.IH[of ?y] Cons.prems call_group_inv call_in_sync by blast
  then show ?case using call_refines[OF Cons.prems, of c] by simp
qed simp

end

text \<open>C5:
  A group is a lock with a first-come, first-served line. On a lock store that keeps its contract,
  every sequence of calls on a group runs exactly like the sequence of the moves of the abstract lock
  for those calls that returned no error: a job joins the line at its end and at most once, the lock
  goes from free to the head of the line only, nobody but its holder gives it back, short of the
  removal of the group, and a call that returned an error changed nothing.
\<close>

theorem group_refines_fifo_lock:
  assumes "strict_lock_store ops holder" and "spec_inv sp" and "lockingJob sp \<noteq> [] \<Longrightarrow> holder s g = lockingJob sp"
  shows "abs_lock (fst (fold (call_group (Some ops) g) cs (sp, s))) =
    fold fl_move (succeeded (Some ops) g cs (sp, s)) (abs_lock sp)"
  using strict_lock_store.calls_refine[OF assms(1), of "(sp, s)" g cs] assms(2,3)
  by (simp add: strict_lock_store.in_sync_def[OF assms(1)])

text \<open>
  Two jobs ask, the first is promoted; the second cannot give the lock back, the first can; the
  second is promoted.
\<close>

definition demo_calls :: "call list" where
  "demo_calls =
     [CallRequest 1 ''a'', CallRequest 2 ''b'', CallPromote, CallYield ''b'', CallPromote, CallYield ''a'', CallPromote]"

abbreviation "fresh_spec \<equiv> \<lparr>lockingJob = [], queue = NewWaitingJobQueue, activeJob = []\<rparr>"

lemma fresh_spec_inv: "spec_inv fresh_spec"
  by (simp add: spec_inv_def wjq.inv_empty)

theorem group_refines_fifo_lock_witness:
  "succeeded (Some MemLockStore) ''g'' demo_calls (fresh_spec, []) =
     [CallRequest 1 ''a'', CallRequest 2 ''b'', CallPromote, CallPromote, CallYield ''a'', CallPromote] \<and>
   abs_lock (fst (fold (call_group (Some MemLockStore) ''g'') demo_calls (fresh_spec, []))) = \<lparr>fl_holder = ''b'', fl_line = []\<rparr>"
proof -
  have "succeeded (Some MemLockStore) ''g'' demo_calls (fresh_spec, []) =
     [CallRequest 1 ''a'', CallRequest 2 ''b'', CallPromote, CallPromote, CallYield ''a'', CallPromote]"
    by code_simp
  moreover have "fold fl_move [CallRequest 1 ''a'', CallRequest 2 ''b'', CallPromote, CallPromote, CallYield ''a'', CallPromote]
     (abs_lock fresh_spec) = \<lparr>fl_holder = ''b'', fl_line = []\<rparr>"
    by code_simp
  moreover note group_refines_fifo_lock[OF mem_strict.strict_lock_store_axioms fresh_spec_inv, of "[]" "''g''" demo_calls]
  ultimately show ?thesis by simp
qed

subsection \<open>No overtaking\<close>

text \<open>The job a call puts into the line, and the job it grants the lock.\<close>

definition joins :: "call \<Rightarrow> group_spec \<times> 's \<Rightarrow> string list" where
  "joins c x =
     (case c of
        CallRequest now j \<Rightarrow> if lockingJob (fst x) = j \<or> j \<in> set (waiting (queue (fst x))) then [] else [j]
      | _ \<Rightarrow> [])"

definition granted_by :: "'s lock_ops option \<Rightarrow> string \<Rightarrow> call \<Rightarrow> group_spec \<times> 's \<Rightarrow> string list" where
  "granted_by ls g c x =
     (case c of
        CallPromote \<Rightarrow>
          (case TryPromote ls g (fst x) (snd x) of (Inr True, sp', s') \<Rightarrow> [lockingJob sp'] | _ \<Rightarrow> [])
      | _ \<Rightarrow> [])"

fun all_joins :: "'s lock_ops option \<Rightarrow> string \<Rightarrow> call list \<Rightarrow> group_spec \<times> 's \<Rightarrow> string list" where
  "all_joins ls g [] x = []"
| "all_joins ls g (c # cs) x = joins c x @ all_joins ls g cs (call_group ls g c x)"

fun all_grants :: "'s lock_ops option \<Rightarrow> string \<Rightarrow> call list \<Rightarrow> group_spec \<times> 's \<Rightarrow> string list" where
  "all_grants ls g [] x = []"
| "all_grants ls g (c # cs) x = granted_by ls g c x @ all_grants ls g cs (call_group ls g c x)"

lemma line_balance:
  assumes "spec_inv (fst x)"
  shows "granted_by ls g c x @ waiting (queue (fst (call_group ls g c x))) = waiting (queue (fst x)) @ joins c x"
proof (cases x)
  case (Pair sp s)
  have u: "queue (fst (snd (spec_unlock ls g j sp s))) = queue sp" for j
    by (cases "spec_unlock ls g j sp s") (auto elim: spec_unlock_cases)
  show ?thesis
  proof (cases c)
    case CallPromote
    obtain r sp' s' where t: "TryPromote ls g sp s = (r, sp', s')" by (metis prod.exhaust)
    from t show ?thesis
      by (cases rule: TryPromote_cases)
        (use t CallPromote Pair assms in \<open>auto simp: granted_by_def joins_def spec_inv_def waiting_Dequeue\<close>)
  qed (use Pair assms u in \<open>auto simp: granted_by_def joins_def RequestLock_def SetActiveJob_def spec_Yield_def
      spec_Delete_def spec_inv_def waiting_Enqueue\<close>)
qed

lemma all_grants_balance:
  assumes "spec_inv (fst x)"
  shows "all_grants ls g cs x @ waiting (queue (fst (fold (call_group ls g) cs x))) = waiting (queue (fst x)) @ all_joins ls g cs x"
  using assms
proof (induction cs arbitrary: x)
  case (Cons c cs)
  let ?y = "call_group ls g c x"
  have "all_grants ls g (c # cs) x @ waiting (queue (fst (fold (call_group ls g) (c # cs) x)))
      = granted_by ls g c x @ all_grants ls g cs ?y @ waiting (queue (fst (fold (call_group ls g) cs ?y)))"
    by simp
  also have "\<dots> = (granted_by ls g c x @ waiting (queue (fst ?y))) @ all_joins ls g cs ?y"
    using Cons.IH[OF call_group_inv[OF Cons.prems], of ls g c] by simp
  also have "\<dots> = waiting (queue (fst x)) @ all_joins ls g (c # cs) x"
    using line_balance[OF Cons.prems, of ls g c] by simp
  finally show ?case .
qed simp

text \<open>C12:
  No job overtakes another. Over any sequence of calls on a group, with any lock store and any
  failures, the jobs granted so far, in the order of the grants, followed by the jobs still in line
  are the jobs in line at the start followed by those that asked, in the order in which they asked.
\<close>

theorem grants_follow_requests:
  assumes "spec_inv sp"
  shows "all_grants ls g cs (sp, s) @ waiting (queue (fst (fold (call_group ls g) cs (sp, s)))) =
    waiting (queue sp) @ all_joins ls g cs (sp, s)"
  using all_grants_balance[of "(sp, s)"] assms by simp

theorem grants_follow_requests_witness:
  "all_grants (Some MemLockStore) ''g'' demo_calls (fresh_spec, []) = [''a'', ''b'']"
proof -
  have "waiting (queue (fst (fold (call_group (Some MemLockStore) ''g'') demo_calls (fresh_spec, [])))) = []"
    and "waiting (queue fresh_spec) = []"
    and "all_joins (Some MemLockStore) ''g'' demo_calls (fresh_spec, []) = [''a'', ''b'']"
    by code_simp+
  with grants_follow_requests[OF fresh_spec_inv, of "Some MemLockStore" "''g''" demo_calls "[]"]
  show ?thesis by simp
qed

end
