(* ===== verification/Well_Formed.thy ===== *)
theory Well_Formed
  imports Orch_Server
begin

text \<open>
  The type invariant of the orchestrator's state: every group is stored under its own name with a
  well-formed queue and lock, every job under the key of its own group and name. It holds in every state that
  any sequence of the handlers' and the controller's operations reaches, with any lock
  store, agents and cluster.
\<close>

subsection \<open>The operations\<close>

datatype 'w orch_op =
    OpAcquire string string
  | OpCheck string string int
  | OpYield string string "JobBackendConfig option"
  | OpObserveGroup string
  | OpObserveJobs string
  | OpDeduce string
  | OpSettle string
  | OpPromote string
  | OpNodeCall bool node_req
  | OpPublish string
  | OpResync
  | OpWorld 'w
  | OpRestart

fun run_op :: "('s, 'w) env \<Rightarrow> 'w orch_op \<Rightarrow> ('s, 'w) orch \<Rightarrow> ('s, 'w) orch" where
  "run_op E (OpAcquire g j) st = snd (acquire_request E g j st)"
| "run_op E (OpCheck g j t) st = snd (defaultCheckAcquire E g j t st)"
| "run_op E (OpYield g j cfg) st = snd (Yield E g j cfg st)"
| "run_op E (OpObserveGroup g) st = snd (ObserveGroupState E g st)"
| "run_op E (OpObserveJobs g) st = snd (ObserveJobContext E g st)"
| "run_op E (OpDeduce g) st = snd (deduceActive g st)"
| "run_op E (OpSettle g) st = snd (settle E g st)"
| "run_op E (OpPromote g) st = snd (promote E g st)"
| "run_op E (OpNodeCall c q) st = snd (snd (answer E c q st))"
| "run_op E (OpPublish g) st = snd (publish E g st)"
| "run_op E OpResync st = resync E st"
| "run_op E (OpWorld w) st = st\<lparr>world := w\<rparr>"
| "run_op E OpRestart st = orch_start (locks st) (world st)"

text \<open>The groups that are observed come from label names and values, which have no colon.\<close>

fun plain_op :: "'w orch_op \<Rightarrow> bool" where
  "plain_op (OpObserveGroup g) \<longleftrightarrow> colon_free g"
| "plain_op _ \<longleftrightarrow> True"

subsection \<open>Preservation\<close>

lemma wf_acquire: "orch_inv st \<Longrightarrow> orch_inv (snd (acquire_request E g j st))"
proof -
  assume st: "orch_inv st"
  obtain t st0 where n: "Now E st = (t, st0)" by fastforce
  obtain t' st1 where n': "Now E st0 = (t', st1)" by fastforce
  have f: "groups st0 = groups st" "jobs st0 = jobs st" "groups st1 = groups st" "jobs st1 = jobs st"
    using Now_frame[of E st] Now_frame[of E st0] n n' by simp_all
  have "gs_inv (gs_modify g (\<lambda>g. set_spec (RequestLock t' j (spec g)) g) (groups st))"
    using st by (intro gs_inv_modify) (auto simp: orch_inv_def intro: RequestLock_inv dest: gs_inv_group)
  then show ?thesis
    using st n n' f by (auto simp: acquire_request_def orch_inv_def EnqueueWork_def split: sum.splits)
qed

lemma wf_check: "orch_inv st \<Longrightarrow> orch_inv (snd (defaultCheckAcquire E g j t st))"
  by (rule orch_inv_cong[of st]) (auto simp: defaultCheckAcquire_def Now_def Let_def split: prod.splits sum.splits)

lemma js_inv_config:
  assumes "js_inv js" and "applyBackendConfig g j cfg js = (r, js')"
  shows "js_inv js'" and "r = Inr a \<Longrightarrow> js_inv (rollback a js')"
proof -
  have m: "js_inv (js_modify g j (SetBackendConfig c) js)" if "js_inv js" for g j c js
    using that by (intro js_inv_modify) (simp_all add: SetBackendConfig_def)
  show "js_inv js'" using assms m by (auto simp: applyBackendConfig_def split: option.splits sum.splits if_splits)
  then show "js_inv (rollback a js')" if "r = Inr a" using m by (auto simp: rollback_def split: option.splits)
qed

lemma wf_yield:
  assumes st: "orch_inv st"
  shows "orch_inv (snd (Yield E g j cfg st))"
proof (cases "ValidateJobBackendConfig cfg = None \<and> (\<exists>grp. gs_Get g (groups st) = Inr grp)")
  case True
  then obtain grp where v: "ValidateJobBackendConfig cfg = None" "gs_Get g (groups st) = Inr grp" by blast
  then have m: "map_of (groups st) g = Some grp" by (simp add: gs_Get_Inr_iff)
  obtain a js where a: "applyBackendConfig g j cfg (jobs st) = (a, js)" by fastforce
  obtain r sp s where y: "spec_Yield (lockStore E) (gid grp) j (spec grp) (locks st) = (r, sp, s)" by (metis prod.exhaust)
  have "spec_inv sp"
    using y gs_inv_group[OF _ m] st spec_unlock_inv unfolding spec_Yield_def orch_inv_def by metis
  then have "gs_inv (gs_modify g (set_spec sp) (groups st))"
    using st by (intro gs_inv_modify) (auto simp: orch_inv_def)
  moreover have "js_inv js" "\<And>b. a = Inr b \<Longrightarrow> js_inv (rollback b js)"
    using js_inv_config[OF _ a] st by (auto simp: orch_inv_def)
  ultimately show ?thesis
    using v a y st by (auto simp: Yield_def orch_inv_def Let_def EnqueueWork_def split: sum.splits option.splits)
qed (use st in \<open>auto simp: Yield_def split: option.splits sum.splits\<close>)

lemma wf_group:
  assumes "orch_inv st" and "map_of (groups st) g = Some grp" and "gid grp' = gid grp" and "spec_inv (spec grp')"
    and "groups st' = gs_modify g (\<lambda>_. grp') (groups st)" and "jobs st' = jobs st"
  shows "orch_inv st'"
  using assms gs_inv_modify[of "groups st" g "\<lambda>_. grp'"] by (auto simp: orch_inv_def)

lemma wf_deduce:
  assumes st: "orch_inv st"
  shows "orch_inv (snd (deduceActive g st))"
proof (cases "map_of (groups st) g")
  case (Some grp)
  obtain r grp' where d: "tryDeduceActiveJob (jobs st) grp = (r, grp')" by fastforce
  show ?thesis
    using tryDeduceActiveJob_frame[OF d] gs_inv_group[OF _ Some] st Some d
    by (intro wf_group[OF st Some, of grp']) (auto simp: deduceActive_def orch_inv_def)
qed (use st in \<open>simp add: deduceActive_def\<close>)

lemma wf_settle:
  assumes st: "orch_inv st"
  shows "orch_inv (snd (settle E g st))"
proof (cases "map_of (groups st) g")
  case (Some grp)
  obtain r st' where w: "waitForGrantSettlement E grp st = (r, st')" by fastforce
  with waitForGrantSettlement_frame[OF w] Some st show ?thesis by (auto simp: settle_def intro: orch_inv_cong)
qed (use st in \<open>simp add: settle_def\<close>)

lemma wf_promote:
  assumes st: "orch_inv st"
  shows "orch_inv (snd (promote E g st))"
proof (cases "map_of (groups st) g")
  case (Some grp)
  obtain r sp s where p: "TryPromote (lockStore E) (gid grp) (spec grp) (locks st) = (r, sp, s)" by (metis prod.exhaust)
  have "spec_inv sp" using TryPromote_inv[OF _ p] gs_inv_group[OF _ Some] st by (auto simp: orch_inv_def)
  then have "gs_inv (gs_modify g (set_spec sp) (groups st))" using st by (intro gs_inv_modify) (auto simp: orch_inv_def)
  then show ?thesis using st Some p by (simp add: promote_def orch_inv_def)
qed (use st in \<open>simp add: promote_def\<close>)

lemma wf_publish:
  assumes st: "orch_inv st"
  shows "orch_inv (snd (publish E g st))"
proof -
  obtain t st1 where n: "Now E st = (t, st1)" by fastforce
  have f: "groups st1 = groups st" "jobs st1 = jobs st" using Now_frame[of E st] n by simp_all
  have st1: "orch_inv st1" using st f by (auto intro: orch_inv_cong)
  show ?thesis
  proof (cases "map_of (groups st1) g")
    case (Some grp)
    obtain r grp' where u: "updateGroupStatus t (jobs st1) grp = (r, grp')" by fastforce
    note fr = updateGroupStatus_frame[OF u]
    show ?thesis
    proof (cases r)
      case None
      then show ?thesis
        using n Some u fr gs_inv_group[OF _ Some] st1
        by (intro wf_group[OF st1 Some, of grp']) (auto simp: publish_def Let_def orch_inv_def)
    qed (use n Some u st1 in \<open>simp add: publish_def\<close>)
  qed (use n st1 in \<open>simp add: publish_def\<close>)
qed

lemma run_op_inv:
  assumes "orch_inv st" and "plain_op c"
  shows "orch_inv (run_op E c st)"
proof (cases c)
  case (OpObserveGroup g)
  obtain r st' where "ObserveGroupState E g st = (r, st')" by fastforce
  with OpObserveGroup assms ObserveGroupState_inv[of st g E r st'] show ?thesis by simp
next
  case (OpObserveJobs g)
  obtain r st' where "ObserveJobContext E g st = (r, st')" by fastforce
  with OpObserveJobs assms(1) ObserveJobContext_frame[of E g st r st'] show ?thesis by (simp add: orch_inv_def)
next
  case (OpNodeCall b q)
  obtain r b' st' where "answer E b q st = (r, b', st')" by (metis prod.exhaust)
  with OpNodeCall assms(1) answer_frame[of E b q st r b' st'] show ?thesis by (simp add: orch_inv_def)
next
  case OpResync
  with assms(1) show ?thesis by (auto simp: resync_def intro: orch_inv_cong)
next
  case (OpWorld w)
  with assms(1) show ?thesis by (auto intro: orch_inv_cong)
qed (use assms(1) in \<open>simp_all add: wf_acquire wf_check wf_yield wf_deduce wf_settle wf_promote wf_publish orch_inv_start\<close>)

text \<open>C15:
  The state of the orchestrator is well formed. From a fresh start, through any sequence of requests, observations,
  deductions, settlements, promotions, calls of node passes, publications, resyncs, changes of the world and restarts, with any lock
  store and any agents: every group is stored under its own name; no job waits twice, a
  lock holder does not wait and is the active job of its group; and every job is stored under the key of its own group and name.
\<close>

theorem orchestrator_state_is_well_formed:
  assumes "list_all plain_op cs"
  shows "orch_inv (fold (run_op E) cs (orch_start s w))"
proof -
  have "orch_inv (fold (run_op E) cs st)" if "orch_inv st" "list_all plain_op cs" for st
    using that by (induction cs arbitrary: st) (simp_all add: run_op_inv)
  from this[OF orch_inv_start assms] show ?thesis .
qed

theorem orchestrator_state_is_well_formed_witness:
  "orch_inv (fold (run_op idle_env) [OpObserveGroup ''g'', OpAcquire ''g'' ''a'', OpPromote ''g'', OpRestart] (orch_start [] 0))"
  by (rule orchestrator_state_is_well_formed) code_simp

end
