(* ===== verification/Stale_Load.thy ===== *)
theory Stale_Load
  imports Orch_Server
begin

text \<open>
  A run of the orchestrator on a one-node cluster whose agent can snapshot but not restore. It
  shows that the loaded job the server relies on can be out of date: the status is published
  only at the end of a reconciliation without errors.
\<close>

text \<open>The cluster: the state of each job on node \<open>n1\<close>; both jobs \<open>a\<close> and \<open>b\<close> have a pod there.\<close>

type_synonym cluster = "(string \<times> JobState) list"

definition broken_agents :: "cluster agent_ops" where
  "broken_agents = \<lparr>
     as_GetStatus = (\<lambda>n w. (Inr (map (\<lambda>x. \<lparr>js_job_id = fst x, js_state = snd x\<rparr>) w), w)),
     as_CloseClient = (\<lambda>n w. (None, w)),
     as_Snapshot = (\<lambda>n j g c w. (Inr ''op'', AList.update j JOB_STATE_SAVED w)),
     as_GetOperation = (\<lambda>n i w. (Inr op_complete, w)),
     as_Restore = (\<lambda>n j g c w. (Inl (Status Code_Unavailable ''agent down''), w))\<rparr>"

definition broken_env :: "(mem_lock_store, cluster) env" where
  "broken_env = \<lparr>
     lockStore = Some MemLockStore,
     agents = broken_agents,
     workqueue = \<lparr>wq_Add = (\<lambda>g w. w), wq_AddRateLimited = (\<lambda>g w. w), wq_Forget = (\<lambda>g w. w),
       wq_Done = (\<lambda>g w. w), wq_Get = (\<lambda>w. Some ((''g'', False), w)), wq_ShutDown = (\<lambda>w. w)\<rparr>,
     nodeLister = (\<lambda>k v w. (Inr [\<lparr>node_name = ''n1'', node_labels = []\<rparr>], w)),
     podLister = (\<lambda>k v w. (Inr [\<lparr>pod_uid = ''ua'', pod_labels = Some [(JobLabelKey, ''a'')]\<rparr>,
                                  \<lparr>pod_uid = ''ub'', pod_labels = Some [(JobLabelKey, ''b'')]\<rparr>], w)),
     time_now = (\<lambda>w. (0, w)),
     ctx_done = (\<lambda>c w. (if c then Some (Sentinel CtxCanceled) else None, w)),
     SettleTimeout = 30\<rparr>"

text \<open>The stages of the run, with what the group and the jobs are at each of them.\<close>

definition stage ::
  "string \<Rightarrow> waiting_job list \<Rightarrow> string \<Rightarrow> ContextState \<Rightarrow> JobState \<Rightarrow> metrics \<Rightarrow> (mem_lock_store, cluster) orch" where
  "stage locking ws active ca wa m =
     \<lparr>groups = [(''g'', \<lparr>gid = ''g'',
         spec = \<lparr>lockingJob = locking, queue = \<lparr>wq_jobs = ws, wq_exist = map (\<lambda>w. (JobID w, w)) ws\<rparr>, activeJob = active\<rparr>,
         status = \<lparr>nodes = [''n1''], gstate = GROUP_STATE_LOCKED, stateTimestamp = 0, loadedJob = ''a''\<rparr>\<rparr>)],
      jobs = [(''g:a'', \<lparr>j_jobID = ''a'', j_groupID = ''g'', pods = [''ua''], contextState = [(''n1'', ca)], backendConfig = None\<rparr>),
              (''g:b'', \<lparr>j_jobID = ''b'', j_groupID = ''g'', pods = [''ub''], contextState = [(''n1'', STATE_SAVED)],
                backendConfig = None\<rparr>)],
      locks = (if locking = [] then [] else [(''g'', locking)]),
      settleSince = [], meters = m, world = [(''a'', wa), (''b'', JOB_STATE_SAVED)]\<rparr>"

definition meters_at :: "nat \<Rightarrow> bool \<Rightarrow> metrics" where
  "meters_at n saved = \<lparr>QueueDepth = [(''g'', 0)], DeferredSnapshotsTotal = (if n = 0 then [] else [(''g'', n)]),
     AcquireWaitDuration = [],
     AgentOperationDuration = (if saved then [((''g'', ''a'', ''n1'', ''snapshot''), 3)] else [])\<rparr>"

text \<open>\<open>a\<close> holds the lock and runs; the status was published when it was granted.\<close>

definition sl_granted :: "(mem_lock_store, cluster) orch" where
  "sl_granted = stage ''a'' [] ''a'' STATE_RUNNING JOB_STATE_RUNNING (meters_at 0 False)"

text \<open>\<open>a\<close> yields and \<open>b\<close> asks; the reconciliation parks \<open>a\<close> and fails to restore \<open>b\<close>.\<close>

definition sl_asked :: "(mem_lock_store, cluster) orch" where
  "sl_asked = snd (acquire_request broken_env ''g'' ''b'' (snd (Yield broken_env ''g'' ''a'' None sl_granted)))"

definition steps :: "(mem_lock_store, cluster) sched list" where
  "steps = replicate 12 (NodeStep 0)"

definition sl_failed :: "go_error option option \<times> (mem_lock_store, cluster) orch" where
  "sl_failed = reconcileGroup broken_env 1 steps ''g'' sl_asked"

text \<open>\<open>b\<close> gives up and yields; \<open>a\<close> asks again and is promoted by the next reconciliation.\<close>

definition sl_again :: "(mem_lock_store, cluster) orch" where
  "sl_again = snd (decide broken_env ''g''
     (snd (acquire_request broken_env ''g'' ''a'' (snd (Yield broken_env ''g'' ''b'' None (snd sl_failed))))))"

definition is_granted :: "(go_error + AcquireResponse) option \<times> ('s, 'w) orch \<Rightarrow> bool" where
  "is_granted r = (case fst r of Some (Inr resp) \<Rightarrow> ar_success resp | _ \<Rightarrow> False)"

lemma sl_asked_eq: "sl_asked = stage [] [\<lparr>JobID = ''b'', QueuedSince = 0\<rparr>] ''a'' STATE_RUNNING JOB_STATE_RUNNING (meters_at 1 False)"
  by code_simp

lemma sl_decide_eq:
  "snd (decide broken_env ''g'' (stage [] [\<lparr>JobID = ''b'', QueuedSince = 0\<rparr>] ''a'' STATE_RUNNING JOB_STATE_RUNNING (meters_at 1 False)))
   = stage ''b'' [] ''b'' STATE_RUNNING JOB_STATE_RUNNING (meters_at 1 False)"
  by code_simp

lemma sl_group_eq:
  "fst (decide broken_env ''g'' (stage [] [\<lparr>JobID = ''b'', QueuedSince = 0\<rparr>] ''a'' STATE_RUNNING JOB_STATE_RUNNING (meters_at 1 False)))
   = Inr (the (map_of (groups (stage ''b'' [] ''b'' STATE_RUNNING JOB_STATE_RUNNING (meters_at 1 False))) ''g''))"
  by code_simp

definition sl_pool :: "(mem_lock_store, cluster) pool" where
  "sl_pool = run_pool broken_env steps
     (start_pool 1 ''g'' ''b'' [''n1''] (stage ''b'' [] ''b'' STATE_RUNNING JOB_STATE_RUNNING (meters_at 1 False)))"

lemma sl_pool_state: "pstate sl_pool = stage ''b'' [] ''b'' STATE_SAVED JOB_STATE_SAVED (meters_at 1 True)"
  by code_simp

lemma sl_pool_results:
  "results (procs sl_pool) = Some [Some (Wrap (errorf [''failed to reconcile node '', ''n1''])
     (Wrap (errorf [''failed to trigger '', ''restore'', '' for job '', ''b'', '' on node '', ''n1''])
        (Status Code_Unavailable ''agent down'')))]"
  by code_simp

lemma sl_failed_eq:
  "\<exists>e. sl_failed = (Some (Some e), stage ''b'' [] ''b'' STATE_SAVED JOB_STATE_SAVED (meters_at 1 True))"
proof -
  let ?st = "stage [] [\<lparr>JobID = ''b'', QueuedSince = 0\<rparr>] ''a'' STATE_RUNNING JOB_STATE_RUNNING (meters_at 1 False)"
  let ?st' = "stage ''b'' [] ''b'' STATE_RUNNING JOB_STATE_RUNNING (meters_at 1 False)"
  let ?g = "the (map_of (groups ?st') ''g'')"
  have d: "decide broken_env ''g'' ?st = (Inr ?g, ?st')"
    by (subst prod.collapse[symmetric]) (simp only: sl_group_eq sl_decide_eq)
  have g: "activeJob (spec ?g) = ''b''" "nodes (status ?g) = [''n1'']" by code_simp+
  obtain e where j: "errors_join [Some (Wrap (errorf [''failed to reconcile node '', ''n1''])
     (Wrap (errorf [''failed to trigger '', ''restore'', '' for job '', ''b'', '' on node '', ''n1''])
        (Status Code_Unavailable ''agent down'')))] = Some e"
    using errors_join_None_iff by fastforce
  show ?thesis
    unfolding sl_failed_def sl_asked_eq reconcileGroup_def d prod.case sum.case g Let_def sl_pool_def[symmetric]
      sl_pool_results option.case j sl_pool_state by blast
qed

lemma sl_again_eq: "sl_again = stage ''a'' [] ''a'' STATE_SAVED JOB_STATE_SAVED (meters_at 2 True)"
proof -
  have f: "snd sl_failed = stage ''b'' [] ''b'' STATE_SAVED JOB_STATE_SAVED (meters_at 1 True)"
    using sl_failed_eq by (metis snd_conv)
  show ?thesis unfolding sl_again_def f by code_simp
qed


end
