(* ===== verification/Agent_Store.thy ===== *)
theory Agent_Store
  imports Orch_State Go_Text
begin

text \<open>
  The orchestrator's connection to the agents, \<^verbatim>\<open>GRPCSnapshotAgentStore\<close> of
  \<^verbatim>\<open>store/snapshot_agent_store.go\<close>: one client per node address, and a cache of status
  answers. It implements the interface \<open>agent_ops\<close> the controller is modelled against. The gRPC
  library and the agents behind it are the record \<open>grpc_net\<close>.
\<close>

subsection \<open>Host and port\<close>

definition first_index :: "char \<Rightarrow> string \<Rightarrow> nat option" where
  "first_index c s = (if c \<in> set s then Some (length (takeWhile (\<lambda>x. x \<noteq> c) s)) else None)"

definition last_index :: "char \<Rightarrow> string \<Rightarrow> nat option" where
  "last_index c s =
     (if c \<in> set s then Some (length s - 1 - length (takeWhile (\<lambda>x. x \<noteq> c) (rev s))) else None)"

text \<open>Whether \<^verbatim>\<open>net.SplitHostPort\<close> succeeds.\<close>

definition SplitHostPort_ok :: "string \<Rightarrow> bool" where
  "SplitHostPort_ok hostport =
     (case last_index (CHR '':'') hostport of
        None \<Rightarrow> False
      | Some i \<Rightarrow>
          if take 1 hostport = ''['' then
            (case first_index (CHR '']'') hostport of
               None \<Rightarrow> False
             | Some e \<Rightarrow>
                 e + 1 = i \<and> CHR ''['' \<notin> set (drop 1 hostport) \<and> CHR '']'' \<notin> set (drop (e + 1) hostport))
          else
            CHR '':'' \<notin> set (take i hostport) \<and> CHR ''['' \<notin> set hostport \<and> CHR '']'' \<notin> set hostport)"

definition JoinHostPort :: "string \<Rightarrow> string \<Rightarrow> string" where
  "JoinHostPort host port =
     (if CHR '':'' \<in> set host then ''['' @ host @ '']:'' @ port else host @ '':'' @ port)"

subsection \<open>The store\<close>

record 'n grpc_net =
  net_Dial :: "string \<Rightarrow> 'n \<Rightarrow> go_error option \<times> 'n"
  net_Status :: "string \<Rightarrow> 'n \<Rightarrow> (go_error + JobStatus list) \<times> 'n"
  net_Snapshot :: "string \<Rightarrow> string \<Rightarrow> string \<Rightarrow> BackendConfig option \<Rightarrow> 'n \<Rightarrow> (go_error + string) \<times> 'n"
  net_GetOperation :: "string \<Rightarrow> string \<Rightarrow> 'n \<Rightarrow> (go_error + GetOperationResponse) \<times> 'n"
  net_Restore :: "string \<Rightarrow> string \<Rightarrow> string \<Rightarrow> BackendConfig option \<Rightarrow> 'n \<Rightarrow> (go_error + string) \<times> 'n"
  net_Close :: "string \<Rightarrow> 'n \<Rightarrow> go_error option \<times> 'n"
  net_Now :: "'n \<Rightarrow> int \<times> 'n"

record cacheEntry =
  ce_response :: "JobStatus list"
  ce_timestamp :: int

text \<open>The clients are the addresses with an open connection.\<close>

record grpc_store =
  gr_clients :: "string list"
  gr_cache :: "(string \<times> cacheEntry) list"
  gr_cacheTTL :: int
  gr_defaultPort :: int

type_synonym 'n grpc_world = "grpc_store \<times> 'n"

definition NewGRPCSnapshotAgentStore :: "int \<Rightarrow> int \<Rightarrow> grpc_store" where
  "NewGRPCSnapshotAgentStore ttl defaultPort =
     \<lparr>gr_clients = [], gr_cache = [], gr_cacheTTL = ttl, gr_defaultPort = defaultPort\<rparr>"

definition resolveNodeAddress :: "grpc_store \<Rightarrow> string \<Rightarrow> string" where
  "resolveNodeAddress st nodeName =
     (if SplitHostPort_ok nodeName then nodeName else JoinHostPort nodeName (Itoa (gr_defaultPort st)))"

definition getClient :: "'n grpc_net \<Rightarrow> string \<Rightarrow> 'n grpc_world \<Rightarrow> go_error option \<times> 'n grpc_world" where
  "getClient net address w =
     (if address \<in> set (gr_clients (fst w)) then (None, w)
      else
        (case net_Dial net address (snd w) of
           (Some err, n) \<Rightarrow> (Some (Wrap (errorf [''failed to dial agent at '', address]) err), (fst w, n))
         | (None, n) \<Rightarrow> (None, ((fst w)\<lparr>gr_clients := address # gr_clients (fst w)\<rparr>, n))))"

text \<open>The cached answer, when caching is on and the entry is young enough.\<close>

definition cached_status :: "string \<Rightarrow> int \<Rightarrow> grpc_store \<Rightarrow> JobStatus list option" where
  "cached_status address now st =
     (if 0 < gr_cacheTTL st
      then (case map_of (gr_cache st) address of
              Some entry \<Rightarrow> if now - ce_timestamp entry < gr_cacheTTL st then Some (ce_response entry) else None
            | None \<Rightarrow> None)
      else None)"

definition grpc_GetStatus :: "'n grpc_net \<Rightarrow> string \<Rightarrow> 'n grpc_world \<Rightarrow> (go_error + JobStatus list) \<times> 'n grpc_world" where
  "grpc_GetStatus net nodeName w0 =
     (let address = resolveNodeAddress (fst w0) nodeName in
      case net_Now net (snd w0) of
        (now, n0) \<Rightarrow>
          let w = (fst w0, n0) in
          (case cached_status address now (fst w) of
             Some resp \<Rightarrow> (Inr resp, w)
           | None \<Rightarrow>
               (case getClient net address w of
                  (Some err, w1) \<Rightarrow> (Inl err, w1)
                | (None, w1) \<Rightarrow>
                    (case net_Status net address (snd w1) of
                       (Inl err, n2) \<Rightarrow>
                         (Inl (Wrap (errorf [''failed to get status from agent at '', address]) err), (fst w1, n2))
                     | (Inr resp, n2) \<Rightarrow>
                         if 0 < gr_cacheTTL (fst w1)
                         then (case net_Now net n2 of
                                 (now', n3) \<Rightarrow>
                                   (Inr resp, ((fst w1)\<lparr>gr_cache := AList.update address \<lparr>ce_response = resp, ce_timestamp = now'\<rparr> (gr_cache (fst w1))\<rparr>, n3)))
                         else (Inr resp, (fst w1, n2))))))"

text \<open>The request for an operation goes through the client of the address.\<close>

definition with_client ::
  "'n grpc_net \<Rightarrow> string \<Rightarrow> string list \<Rightarrow> ('n \<Rightarrow> (go_error + 'a) \<times> 'n) \<Rightarrow> 'n grpc_world \<Rightarrow> (go_error + 'a) \<times> 'n grpc_world" where
  "with_client net address what rpc w =
     (case getClient net address w of
        (Some err, w1) \<Rightarrow> (Inl err, w1)
      | (None, w1) \<Rightarrow>
          (case rpc (snd w1) of
             (Inl err, n) \<Rightarrow> (Inl (Wrap (errorf (what @ [address])) err), (fst w1, n))
           | (Inr resp, n) \<Rightarrow> (Inr resp, (fst w1, n))))"

definition grpc_Snapshot ::
  "'n grpc_net \<Rightarrow> string \<Rightarrow> string \<Rightarrow> string \<Rightarrow> BackendConfig option \<Rightarrow> 'n grpc_world \<Rightarrow> (go_error + string) \<times> 'n grpc_world" where
  "grpc_Snapshot net nodeName jobID groupID cfg w =
     (let address = resolveNodeAddress (fst w) nodeName in
      with_client net address [''failed to trigger snapshot on agent at ''] (net_Snapshot net address jobID groupID cfg) w)"

definition grpc_GetOperation ::
  "'n grpc_net \<Rightarrow> string \<Rightarrow> string \<Rightarrow> 'n grpc_world \<Rightarrow> (go_error + GetOperationResponse) \<times> 'n grpc_world" where
  "grpc_GetOperation net nodeName operationID w =
     (let address = resolveNodeAddress (fst w) nodeName in
      with_client net address [''failed to get operation '', operationID, '' from agent at ''] (net_GetOperation net address operationID) w)"

definition grpc_Restore ::
  "'n grpc_net \<Rightarrow> string \<Rightarrow> string \<Rightarrow> string \<Rightarrow> BackendConfig option \<Rightarrow> 'n grpc_world \<Rightarrow> (go_error + string) \<times> 'n grpc_world" where
  "grpc_Restore net nodeName jobID groupID cfg w =
     (let address = resolveNodeAddress (fst w) nodeName in
      with_client net address [''failed to trigger restore for job '', jobID, '' on agent at ''] (net_Restore net address jobID groupID cfg) w)"

definition grpc_CloseClient :: "'n grpc_net \<Rightarrow> string \<Rightarrow> 'n grpc_world \<Rightarrow> go_error option \<times> 'n grpc_world" where
  "grpc_CloseClient net nodeName w =
     (let address = resolveNodeAddress (fst w) nodeName in
      if address \<notin> set (gr_clients (fst w)) then (None, w)
      else
        (case net_Close net address (snd w) of
           (closeErr, n) \<Rightarrow>
             let st = (fst w)\<lparr>gr_clients := removeAll address (gr_clients (fst w)), gr_cache := AList.delete address (gr_cache (fst w))\<rparr> in
             (case closeErr of
                Some err \<Rightarrow> (Some (Wrap (errorf [''failed to close connection for node '', nodeName]) err), (st, n))
              | None \<Rightarrow> (None, (st, n)))))"

definition grpc_agents :: "'n grpc_net \<Rightarrow> ('n grpc_world) agent_ops" where
  "grpc_agents net =
     \<lparr>as_GetStatus = grpc_GetStatus net, as_CloseClient = grpc_CloseClient net, as_Snapshot = grpc_Snapshot net,
      as_GetOperation = grpc_GetOperation net, as_Restore = grpc_Restore net\<rparr>"

subsection \<open>Addresses\<close>

text \<open>Kubernetes node names contain neither colons nor brackets.\<close>

definition plain_host :: "string \<Rightarrow> bool" where
  "plain_host n \<longleftrightarrow> CHR '':'' \<notin> set n \<and> CHR ''['' \<notin> set n \<and> CHR '']'' \<notin> set n"

lemma plain_address: "plain_host n \<Longrightarrow> resolveNodeAddress st n = n @ '':'' @ Itoa (gr_defaultPort st)"
  by (simp add: resolveNodeAddress_def SplitHostPort_ok_def JoinHostPort_def last_index_def plain_host_def)

lemma plain_addresses_distinct:
  assumes "plain_host m" and "plain_host n"
  shows "resolveNodeAddress st m = resolveNodeAddress st n \<longleftrightarrow> m = n"
  using assms by (simp add: plain_address)

lemma last_index_append:
  assumes "c \<notin> set b"
  shows "last_index c (a @ c # b) = Some (length a)"
proof -
  have "takeWhile (\<lambda>x. x \<noteq> c) (rev b @ c # rev a) = rev b"
    using assms by (subst takeWhile_append2) auto
  then show ?thesis by (simp add: last_index_def)
qed

lemma Itoa_plain: "CHR '':'' \<notin> set (Itoa i)" "CHR ''['' \<notin> set (Itoa i)" "CHR '']'' \<notin> set (Itoa i)"
proof -
  have d: "c \<in> set (nat_digits n) \<Longrightarrow> is_digit c" for c n using nat_digits_digits by (auto simp: list_all_iff)
  show "CHR '':'' \<notin> set (Itoa i)" "CHR ''['' \<notin> set (Itoa i)" "CHR '']'' \<notin> set (Itoa i)"
    by (auto simp: Itoa_def is_digit_def dest!: d)
qed

lemma plain_address_splits:
  assumes "plain_host n"
  shows "SplitHostPort_ok (resolveNodeAddress st n)"
proof -
  have "take 1 (n @ '':'' @ Itoa (gr_defaultPort st)) \<noteq> ''[''"
    using assms by (cases n) (auto simp: plain_host_def)
  then show ?thesis
    using assms Itoa_plain[of "gr_defaultPort st"]
    by (simp add: plain_address SplitHostPort_ok_def plain_host_def last_index_append)
qed

subsection \<open>Clients and cache\<close>

text \<open>Every call on the store.\<close>

inductive gr_step :: "'n grpc_net \<Rightarrow> 'n grpc_world \<Rightarrow> 'n grpc_world \<Rightarrow> bool" for net where
  status: "grpc_GetStatus net node w = (r, w') \<Longrightarrow> gr_step net w w'"
| snapshot: "grpc_Snapshot net node j g cfg w = (r, w') \<Longrightarrow> gr_step net w w'"
| operation: "grpc_GetOperation net node i w = (q, w') \<Longrightarrow> gr_step net w w'"
| restore: "grpc_Restore net node j g cfg w = (r, w') \<Longrightarrow> gr_step net w w'"
| close: "grpc_CloseClient net node w = (e, w') \<Longrightarrow> gr_step net w w'"

inductive gr_reach :: "'n grpc_net \<Rightarrow> 'n grpc_world \<Rightarrow> bool" for net where
  start: "gr_reach net (NewGRPCSnapshotAgentStore ttl port, n)"
| step: "gr_reach net w \<Longrightarrow> gr_step net w w' \<Longrightarrow> gr_reach net w'"

text \<open>A cached answer belongs to a node with a client.\<close>

definition cache_ok :: "grpc_store \<Rightarrow> bool" where
  "cache_ok st \<longleftrightarrow> (\<forall>a. map_of (gr_cache st) a \<noteq> None \<longrightarrow> a \<in> set (gr_clients st))"

lemma getClient_frame:
  assumes "getClient net a w = (e, w')"
  shows "gr_cache (fst w') = gr_cache (fst w)" "gr_cacheTTL (fst w') = gr_cacheTTL (fst w)"
    "gr_defaultPort (fst w') = gr_defaultPort (fst w)" "set (gr_clients (fst w)) \<subseteq> set (gr_clients (fst w'))"
    "e = None \<Longrightarrow> a \<in> set (gr_clients (fst w'))"
  using assms by (auto simp: getClient_def split: if_splits prod.splits option.splits)

lemma getClient_ok: "cache_ok (fst w) \<Longrightarrow> getClient net a w = (e, w') \<Longrightarrow> cache_ok (fst w')"
  using getClient_frame[of net a w e w'] by (auto simp: cache_ok_def)

lemma with_client_ok:
  assumes "cache_ok (fst w)" and "with_client net a what rpc w = (r, w')"
  shows "cache_ok (fst w')"
  using assms(2) getClient_ok[OF assms(1), of net a]
  by (auto simp: with_client_def split: prod.splits option.splits sum.splits)

lemma GetStatus_ok:
  assumes "cache_ok (fst w)" and "grpc_GetStatus net node w = (r, w')"
  shows "cache_ok (fst w')"
proof -
  obtain now n0 where n: "net_Now net (snd w) = (now, n0)" by fastforce
  let ?a = "resolveNodeAddress (fst w) node"
  obtain e w1 where g: "getClient net ?a (fst w, n0) = (e, w1)" by (cases "getClient net ?a (fst w, n0)")
  have ok: "cache_ok (fst w1)" by (rule getClient_ok[OF _ g]) (simp add: assms(1))
  from assms g n ok getClient_frame(5)[OF g] show ?thesis
    by (auto simp: grpc_GetStatus_def Let_def cache_ok_def split: option.splits sum.splits prod.splits if_splits)
qed

lemma CloseClient_views:
  assumes "grpc_CloseClient net node w = (e, w')" and "cache_ok (fst w)"
  shows "map_of (gr_cache (fst w')) a = (if a = resolveNodeAddress (fst w) node then None else map_of (gr_cache (fst w)) a)"
    and "set (gr_clients (fst w')) = set (gr_clients (fst w)) - {resolveNodeAddress (fst w) node}"
    and "gr_cacheTTL (fst w') = gr_cacheTTL (fst w)" and "gr_defaultPort (fst w') = gr_defaultPort (fst w)"
  using assms by (auto simp: grpc_CloseClient_def Let_def cache_ok_def split: if_splits prod.splits option.splits)

lemma gr_reach_ok: "gr_reach net w \<Longrightarrow> cache_ok (fst w)"
proof (induction rule: gr_reach.induct)
  case (start ttl port n)
  show ?case by (simp add: cache_ok_def NewGRPCSnapshotAgentStore_def)
next
  case (step w w')
  from step(2,3) show ?case
  proof (cases rule: gr_step.cases)
    case (close node e)
    then show ?thesis using CloseClient_views[OF close step(3)] step(3) by (auto simp: cache_ok_def split: if_splits)
  qed (auto simp: grpc_Snapshot_def grpc_GetOperation_def grpc_Restore_def Let_def intro: with_client_ok GetStatus_ok)
qed

text \<open>
  How old a status answer can be. An answer of the store is the agent's answer to a request
  made in this very call, or a cached one younger than the time to live; without a positive time
  to live it is always the former. In every reachable state, closing the client of a node drops
  its client and its cached answer and leaves those of every other node alone, so that the next
  answer for the node is a fresh one. (Node names contain no colon and no bracket.)\<close>

theorem agent_status_is_recent:
  assumes "gr_reach net w" and "plain_host node" and "plain_host other" and "other \<noteq> node"
    and "grpc_CloseClient net node w = (e, w1)" and "grpc_GetStatus net node w = (Inr resp, w2)"
    and "grpc_GetStatus net node (fst w1, n) = (Inr resp1, w3)"
  shows "((\<exists>m m'. net_Status net (resolveNodeAddress (fst w) node) m = (Inr resp, m')) \<or>
      0 < gr_cacheTTL (fst w) \<and>
      (\<exists>entry. map_of (gr_cache (fst w)) (resolveNodeAddress (fst w) node) = Some entry \<and> resp = ce_response entry \<and>
        fst (net_Now net (snd w)) - ce_timestamp entry < gr_cacheTTL (fst w))) \<and>
    (\<exists>m m'. net_Status net (resolveNodeAddress (fst w) node) m = (Inr resp1, m')) \<and>
    resolveNodeAddress (fst w) node \<notin> set (gr_clients (fst w1)) \<and>
    map_of (gr_cache (fst w1)) (resolveNodeAddress (fst w) other) = map_of (gr_cache (fst w)) (resolveNodeAddress (fst w) other) \<and>
    (resolveNodeAddress (fst w) other \<in> set (gr_clients (fst w1)) \<longleftrightarrow> resolveNodeAddress (fst w) other \<in> set (gr_clients (fst w)))"
proof -
  note ok = gr_reach_ok[OF assms(1)]
  note v = CloseClient_views[OF assms(5) ok]
  have ne: "resolveNodeAddress (fst w) other \<noteq> resolveNodeAddress (fst w) node"
    using plain_addresses_distinct[OF assms(3,2)] assms(4) by simp
  have a: "resolveNodeAddress (fst w1) node = resolveNodeAddress (fst w) node" by (simp add: resolveNodeAddress_def v(4))
  have "cached_status (resolveNodeAddress (fst w) node) t (fst w1) = None" for t by (simp add: cached_status_def v(1))
  then have "\<exists>m m'. net_Status net (resolveNodeAddress (fst w) node) m = (Inr resp1, m')"
    using assms(7) by (auto simp: grpc_GetStatus_def a Let_def split: prod.splits option.splits sum.splits if_splits)
  moreover have "(\<exists>m m'. net_Status net (resolveNodeAddress (fst w) node) m = (Inr resp, m')) \<or>
      0 < gr_cacheTTL (fst w) \<and>
      (\<exists>entry. map_of (gr_cache (fst w)) (resolveNodeAddress (fst w) node) = Some entry \<and> resp = ce_response entry \<and>
        fst (net_Now net (snd w)) - ce_timestamp entry < gr_cacheTTL (fst w))"
    using assms(6) by (auto simp: grpc_GetStatus_def cached_status_def Let_def split: prod.splits option.splits sum.splits if_splits)
  ultimately show ?thesis using v ne by simp
qed

text \<open>A network with a clock that counts its readings.\<close>

definition demo_net :: "int grpc_net" where
  "demo_net = \<lparr>net_Dial = (\<lambda>a n. (None, n)), net_Status = (\<lambda>a n. (Inr [\<lparr>js_job_id = ''j'', js_state = JOB_STATE_IDLE\<rparr>], n)),
     net_Snapshot = (\<lambda>a j g c n. (Inr ''op'', n)), net_GetOperation = (\<lambda>a i n. (Inl (Text []), n)),
     net_Restore = (\<lambda>a j g c n. (Inr ''op'', n)), net_Close = (\<lambda>a n. (None, n)), net_Now = (\<lambda>n. (n, n + 1))\<rparr>"

definition demo_store :: "int grpc_world" where
  "demo_store = snd (grpc_GetStatus demo_net ''n1'' (NewGRPCSnapshotAgentStore 10 9001, 0))"

lemma agent_status_is_recent_witness:
  "fst (grpc_GetStatus demo_net ''n1'' demo_store) = Inr [\<lparr>js_job_id = ''j'', js_state = JOB_STATE_IDLE\<rparr>] \<and>
   resolveNodeAddress (fst demo_store) ''n1'' \<notin> set (gr_clients (fst (snd (grpc_CloseClient demo_net ''n1'' demo_store))))"
proof -
  have r: "gr_reach demo_net demo_store"
    unfolding demo_store_def by (rule gr_reach.step[OF gr_reach.start gr_step.status[OF surjective_pairing]])
  have p: "plain_host ''n1''" "plain_host ''n2''" "''n2'' \<noteq> ''n1''" by (simp_all add: plain_host_def)
  have s: "fst (grpc_GetStatus demo_net ''n1'' demo_store) = Inr [\<lparr>js_job_id = ''j'', js_state = JOB_STATE_IDLE\<rparr>]"
    and t: "fst (grpc_GetStatus demo_net ''n1'' (fst (snd (grpc_CloseClient demo_net ''n1'' demo_store)), 7)) =
      Inr [\<lparr>js_job_id = ''j'', js_state = JOB_STATE_IDLE\<rparr>]"
    by (simp_all add: demo_store_def grpc_GetStatus_def grpc_CloseClient_def cached_status_def getClient_def demo_net_def
        NewGRPCSnapshotAgentStore_def plain_address[OF p(1)] Let_def)
  obtain w2 where w2: "grpc_GetStatus demo_net ''n1'' demo_store = (Inr [\<lparr>js_job_id = ''j'', js_state = JOB_STATE_IDLE\<rparr>], w2)"
    using s by (cases "grpc_GetStatus demo_net ''n1'' demo_store") simp
  obtain w3 where w3: "grpc_GetStatus demo_net ''n1'' (fst (snd (grpc_CloseClient demo_net ''n1'' demo_store)), 7) =
      (Inr [\<lparr>js_job_id = ''j'', js_state = JOB_STATE_IDLE\<rparr>], w3)"
    using t by (cases "grpc_GetStatus demo_net ''n1'' (fst (snd (grpc_CloseClient demo_net ''n1'' demo_store)), 7)") simp
  from agent_status_is_recent[OF r p surjective_pairing w2 w3] s show ?thesis by blast
qed

end
