(* ===== verification/Agent_State.thy ===== *)
theory Agent_State
  imports Api Go_Text
begin

text \<open>
  The state machine of the snapshot agent (\<^verbatim>\<open>state-machine/state-manager.go\<close>): the jobs on
  the node and the long-running snapshot and restore operations. An operation is started under
  the manager's mutex and finished, under it again, by the goroutine that ran the worker; the
  list \<open>inflight\<close> holds the goroutines that have not finished. \<^verbatim>\<open>uuid.New()\<close> and
  \<^verbatim>\<open>time.Now()\<close> are arguments.
\<close>

datatype OpType = OpTypeSnapshot | OpTypeRestore

record AgentJob =
  aj_ID :: string
  aj_Group :: string
  aj_State :: JobState
  aj_PIDs :: "int list"
  aj_Slot :: string

record Operation =
  op_ID :: string
  op_JobID :: string
  op_Status :: OperationStatus
  op_Type :: OpType
  op_StartedAt :: int
  op_FinishedAt :: "int option"
  op_Error :: string
  op_StorageBytes :: int
  op_SnapshotDeviceBytes :: int

text \<open>A goroutine knows its operation, its job and the slot it works on.\<close>

record Goroutine =
  go_op :: string
  go_job :: string
  go_slot :: string

record StateManager =
  sm_jobs :: "(string \<times> AgentJob) list"
  sm_operations :: "(string \<times> Operation) list"
  inflight :: "Goroutine list"

text \<open>The name of a state in messages, as the generated \<^verbatim>\<open>String\<close> method prints it.\<close>

fun JobState_String :: "JobState \<Rightarrow> string" where
  "JobState_String JOB_STATE_UNSPECIFIED = ''JOB_STATE_UNSPECIFIED''"
| "JobState_String JOB_STATE_IDLE = ''JOB_STATE_IDLE''"
| "JobState_String JOB_STATE_RUNNING = ''JOB_STATE_RUNNING''"
| "JobState_String JOB_STATE_TRANSITIONING = ''JOB_STATE_TRANSITIONING''"
| "JobState_String JOB_STATE_SAVED = ''JOB_STATE_SAVED''"
| "JobState_String JOB_STATE_FAULTED = ''JOB_STATE_FAULTED''"
| "JobState_String (JOB_STATE_UNKNOWN i) = Itoa i"

declare JobState_String.simps [simp del]

definition NewStateManager :: StateManager where
  "NewStateManager = \<lparr>sm_jobs = [], sm_operations = [], inflight = []\<rparr>"

definition newAgentJob :: "string \<Rightarrow> string \<Rightarrow> AgentJob" where
  "newAgentJob jobID grp =
     \<lparr>aj_ID = jobID, aj_Group = grp, aj_State = JOB_STATE_IDLE, aj_PIDs = [], aj_Slot = []\<rparr>"

definition getOrCreateJob :: "string \<Rightarrow> string \<Rightarrow> StateManager \<Rightarrow> AgentJob \<times> StateManager" where
  "getOrCreateJob jobID grp sm =
     (case map_of (sm_jobs sm) jobID of
        Some job \<Rightarrow> (job, sm)
      | None \<Rightarrow>
          let job = newAgentJob jobID grp
          in (job, sm\<lparr>sm_jobs := AList.update jobID job (sm_jobs sm)\<rparr>))"

definition RegisterJob :: "string \<Rightarrow> string \<Rightarrow> StateManager \<Rightarrow> StateManager" where
  "RegisterJob jobID grp sm = snd (getOrCreateJob jobID grp sm)"

definition set_job :: "string \<Rightarrow> AgentJob \<Rightarrow> StateManager \<Rightarrow> StateManager" where
  "set_job jobID job sm = sm\<lparr>sm_jobs := AList.update jobID job (sm_jobs sm)\<rparr>"

subsection \<open>Starting operations\<close>

definition newOperation :: "string \<Rightarrow> int \<Rightarrow> string \<Rightarrow> OpType \<Rightarrow> Operation" where
  "newOperation opID now jobID ty =
     \<lparr>op_ID = opID, op_JobID = jobID, op_Status = OPERATION_STATUS_PENDING, op_Type = ty, op_StartedAt = now,
      op_FinishedAt = None, op_Error = [], op_StorageBytes = 0, op_SnapshotDeviceBytes = 0\<rparr>"

definition launch :: "string \<Rightarrow> int \<Rightarrow> string \<Rightarrow> string \<Rightarrow> OpType \<Rightarrow> AgentJob \<Rightarrow> StateManager \<Rightarrow> StateManager" where
  "launch opID now jobID slot ty job sm =
     (set_job jobID (job\<lparr>aj_State := JOB_STATE_TRANSITIONING\<rparr>) sm)
       \<lparr>sm_operations := AList.update opID (newOperation opID now jobID ty) (sm_operations sm),
        inflight := inflight sm @ [\<lparr>go_op = opID, go_job = jobID, go_slot = slot\<rparr>]\<rparr>"

definition StartSnapshotSlot ::
  "string \<Rightarrow> int \<Rightarrow> string \<Rightarrow> string \<Rightarrow> string \<Rightarrow> StateManager \<Rightarrow> (go_error + string) \<times> StateManager" where
  "StartSnapshotSlot opID now jobID grp slot sm =
     (case getOrCreateJob jobID grp sm of
        (job, sm1) \<Rightarrow>
          if aj_State job = JOB_STATE_TRANSITIONING
          then (Inl (Status Code_Aborted (errorf [''job '', jobID, '' is already transitioning''])), sm1)
          else if \<not> (slot \<noteq> [] \<and> aj_State job = JOB_STATE_FAULTED) \<and> aj_State job \<noteq> JOB_STATE_RUNNING
          then (Inl (Status Code_FailedPrecondition (errorf [''cannot snapshot job '', jobID, '' in state '', JobState_String (aj_State job), '' (must be RUNNING)''])), sm1)
          else (Inr opID, launch opID now jobID slot OpTypeSnapshot job sm1))"

definition StartSnapshot ::
  "string \<Rightarrow> int \<Rightarrow> string \<Rightarrow> string \<Rightarrow> StateManager \<Rightarrow> (go_error + string) \<times> StateManager" where
  "StartSnapshot opID now jobID grp sm = StartSnapshotSlot opID now jobID grp [] sm"

definition already_running :: string where "already_running = ''already-running''"

definition StartRestoreSlot ::
  "string \<Rightarrow> int \<Rightarrow> string \<Rightarrow> string \<Rightarrow> string \<Rightarrow> StateManager \<Rightarrow> (go_error + string) \<times> StateManager" where
  "StartRestoreSlot opID now jobID grp slot sm =
     (case getOrCreateJob jobID grp sm of
        (job, sm1) \<Rightarrow>
          if aj_State job = JOB_STATE_RUNNING \<and> aj_Slot job = slot then (Inr already_running, sm1)
          else if aj_State job = JOB_STATE_TRANSITIONING
          then (Inl (Status Code_Aborted (errorf [''job '', jobID, '' is already transitioning''])), sm1)
          else if \<not> (slot \<noteq> [] \<and> aj_State job = JOB_STATE_FAULTED) \<and>
                  aj_State job \<noteq> JOB_STATE_SAVED \<and> (slot = [] \<or> aj_State job \<noteq> JOB_STATE_RUNNING)
          then (Inl (Status Code_FailedPrecondition (errorf [''cannot restore job '', jobID, '' in state '', JobState_String (aj_State job), '' (must be SAVED)''])), sm1)
          else (Inr opID, launch opID now jobID slot OpTypeRestore job sm1))"

definition StartRestore ::
  "string \<Rightarrow> int \<Rightarrow> string \<Rightarrow> string \<Rightarrow> StateManager \<Rightarrow> (go_error + string) \<times> StateManager" where
  "StartRestore opID now jobID grp sm = StartRestoreSlot opID now jobID grp [] sm"

subsection \<open>Finishing operations\<close>

text \<open>What the goroutine does with the worker's result; \<open>errText\<close> is \<^verbatim>\<open>err.Error()\<close>.\<close>

definition snapshot_job :: "string \<Rightarrow> go_error option \<Rightarrow> AgentJob \<Rightarrow> AgentJob" where
  "snapshot_job slot err job =
     (case err of
        None \<Rightarrow> job\<lparr>aj_State := JOB_STATE_SAVED, aj_Slot := slot\<rparr>
      | Some e \<Rightarrow>
          if errors_is e ErrNoLiveProcesses
          then job\<lparr>aj_State := JOB_STATE_IDLE, aj_PIDs := [], aj_Slot := []\<rparr>
          else job\<lparr>aj_State := JOB_STATE_FAULTED\<rparr>)"

definition snapshot_op :: "int \<Rightarrow> (go_error \<Rightarrow> string) \<Rightarrow> go_error option \<Rightarrow> Operation \<Rightarrow> Operation" where
  "snapshot_op now errText err op =
     (let op1 = op\<lparr>op_FinishedAt := Some now\<rparr> in
      case err of
        None \<Rightarrow> op1\<lparr>op_Status := OPERATION_STATUS_COMPLETE, op_StorageBytes := 1024\<rparr>
      | Some e \<Rightarrow>
          if errors_is e ErrNoLiveProcesses then op1\<lparr>op_Status := OPERATION_STATUS_COMPLETE\<rparr>
          else op1\<lparr>op_Status := OPERATION_STATUS_FAILED, op_Error := errText e\<rparr>)"

definition restore_job :: "string \<Rightarrow> go_error option \<Rightarrow> AgentJob \<Rightarrow> AgentJob" where
  "restore_job slot err job =
     (case err of
        None \<Rightarrow> job\<lparr>aj_State := JOB_STATE_RUNNING, aj_Slot := slot\<rparr>
      | Some e \<Rightarrow> job\<lparr>aj_State := JOB_STATE_FAULTED\<rparr>)"

definition restore_op :: "int \<Rightarrow> (go_error \<Rightarrow> string) \<Rightarrow> go_error option \<Rightarrow> Operation \<Rightarrow> Operation" where
  "restore_op now errText err op =
     (let op1 = op\<lparr>op_FinishedAt := Some now\<rparr> in
      case err of
        None \<Rightarrow> op1\<lparr>op_Status := OPERATION_STATUS_COMPLETE, op_SnapshotDeviceBytes := 1024\<rparr>
      | Some e \<Rightarrow> op1\<lparr>op_Status := OPERATION_STATUS_FAILED, op_Error := errText e\<rparr>)"

definition finish :: "int \<Rightarrow> (go_error \<Rightarrow> string) \<Rightarrow> Goroutine \<Rightarrow> go_error option \<Rightarrow> StateManager \<Rightarrow> StateManager" where
  "finish now errText g err sm =
     (case (map_of (sm_operations sm) (go_op g), map_of (sm_jobs sm) (go_job g)) of
        (Some op, Some job) \<Rightarrow>
          (case op_Type op of
             OpTypeSnapshot \<Rightarrow>
               (set_job (go_job g) (snapshot_job (go_slot g) err job) sm)
                 \<lparr>sm_operations := AList.update (go_op g) (snapshot_op now errText err op) (sm_operations sm),
                  inflight := remove1 g (inflight sm)\<rparr>
           | OpTypeRestore \<Rightarrow>
               (set_job (go_job g) (restore_job (go_slot g) err job) sm)
                 \<lparr>sm_operations := AList.update (go_op g) (restore_op now errText err op) (sm_operations sm),
                  inflight := remove1 g (inflight sm)\<rparr>)
      | _ \<Rightarrow> sm)"

subsection \<open>Queries and the watcher's transitions\<close>

definition sm_GetOperation :: "string \<Rightarrow> StateManager \<Rightarrow> Operation option" where
  "sm_GetOperation opID sm = map_of (sm_operations sm) opID"

definition GetJobStatus :: "StateManager \<Rightarrow> JobStatus list" where
  "GetJobStatus sm = map (\<lambda>x. \<lparr>js_job_id = fst x, js_state = aj_State (snd x)\<rparr>) (sm_jobs sm)"

definition UpdateJobPIDs :: "string \<Rightarrow> int list \<Rightarrow> StateManager \<Rightarrow> StateManager" where
  "UpdateJobPIDs jobID pids sm =
     (case map_of (sm_jobs sm) jobID of
        None \<Rightarrow> sm
      | Some job \<Rightarrow> set_job jobID (job\<lparr>aj_PIDs := pids\<rparr>) sm)"

definition GetJobPIDs :: "string \<Rightarrow> StateManager \<Rightarrow> go_error + int list" where
  "GetJobPIDs jobID sm =
     (case map_of (sm_jobs sm) jobID of
        None \<Rightarrow> Inl (Status Code_NotFound (errorf [''job '', jobID, '' not found'']))
      | Some job \<Rightarrow>
          if length (aj_PIDs job) = 0
          then Inl (Status Code_NotFound (errorf [''no PIDs found for job '', jobID]))
          else Inr (aj_PIDs job))"

definition transitionTo :: "JobState \<Rightarrow> string \<Rightarrow> int list \<Rightarrow> StateManager \<Rightarrow> go_error option \<times> StateManager" where
  "transitionTo target jobID pids sm =
     (case map_of (sm_jobs sm) jobID of
        None \<Rightarrow> (Some (Status Code_NotFound (errorf [''job '', jobID, '' not found''])), sm)
      | Some job \<Rightarrow>
          if aj_State job \<noteq> JOB_STATE_IDLE
          then (Some (Status Code_FailedPrecondition (errorf [''job '', jobID, '' is not in IDLE state (current: '', JobState_String (aj_State job), '')''])), sm)
          else (None, set_job jobID (job\<lparr>aj_State := target, aj_PIDs := pids\<rparr>) sm))"

definition TransitionToRunning :: "string \<Rightarrow> int list \<Rightarrow> StateManager \<Rightarrow> go_error option \<times> StateManager" where
  "TransitionToRunning jobID pids sm = transitionTo JOB_STATE_RUNNING jobID pids sm"

definition TransitionToSaved :: "string \<Rightarrow> int list \<Rightarrow> StateManager \<Rightarrow> go_error option \<times> StateManager" where
  "TransitionToSaved jobID pids sm = transitionTo JOB_STATE_SAVED jobID pids sm"

subsection \<open>The manager as a transition system\<close>

text \<open>
  Every call on the manager and every end of a goroutine is a step. A new operation identifier
  is a fresh UUID: it names no operation yet and is not the literal \<^verbatim>\<open>already-running\<close>.
\<close>

definition fresh_op :: "string \<Rightarrow> StateManager \<Rightarrow> bool" where
  "fresh_op opID sm \<longleftrightarrow> map_of (sm_operations sm) opID = None \<and> opID \<noteq> already_running"

inductive sm_step :: "StateManager \<Rightarrow> StateManager \<Rightarrow> bool" where
  register: "sm_step sm (RegisterJob jobID grp sm)"
| snapshot: "fresh_op opID sm \<Longrightarrow> StartSnapshotSlot opID now jobID grp slot sm = (r, sm') \<Longrightarrow> sm_step sm sm'"
| restore: "fresh_op opID sm \<Longrightarrow> StartRestoreSlot opID now jobID grp slot sm = (r, sm') \<Longrightarrow> sm_step sm sm'"
| finished: "g \<in> set (inflight sm) \<Longrightarrow> sm_step sm (finish now errText g err sm)"
| pids: "sm_step sm (UpdateJobPIDs jobID ps sm)"
| running: "TransitionToRunning jobID ps sm = (r, sm') \<Longrightarrow> sm_step sm sm'"
| saved: "TransitionToSaved jobID ps sm = (r, sm') \<Longrightarrow> sm_step sm sm'"

inductive sm_reach :: "StateManager \<Rightarrow> bool" where
  start: "sm_reach NewStateManager"
| step: "sm_reach sm \<Longrightarrow> sm_step sm sm' \<Longrightarrow> sm_reach sm'"

definition job_state :: "StateManager \<Rightarrow> string \<Rightarrow> JobState option" where
  "job_state sm j = map_option aj_State (map_of (sm_jobs sm) j)"

definition pending_op :: "StateManager \<Rightarrow> string \<Rightarrow> string \<Rightarrow> bool" where
  "pending_op sm j i \<longleftrightarrow>
     (\<exists>op. map_of (sm_operations sm) i = Some op \<and> op_JobID op = j \<and> op_Status op = OPERATION_STATUS_PENDING)"

text \<open>
  The goroutines in flight are exactly the pending operations, each for its own job, and the
  jobs in transition are exactly those with a goroutine.
\<close>

definition sm_inv :: "StateManager \<Rightarrow> bool" where
  "sm_inv sm \<longleftrightarrow>
     distinct (map go_job (inflight sm)) \<and> distinct (map go_op (inflight sm)) \<and>
     (\<forall>j i. pending_op sm j i \<longleftrightarrow> (\<exists>g \<in> set (inflight sm). go_job g = j \<and> go_op g = i)) \<and>
     (\<forall>j. job_state sm j = Some JOB_STATE_TRANSITIONING \<longleftrightarrow> j \<in> go_job ` set (inflight sm)) \<and>
     map_of (sm_operations sm) already_running = None"

lemma sm_inv_start: "sm_inv NewStateManager"
  by (simp add: sm_inv_def NewStateManager_def pending_op_def job_state_def)

text \<open>Changing a job without touching whether it is in transition.\<close>

lemma set_job_views [simp]:
  "job_state (set_job j job sm) k = (if k = j then Some (aj_State job) else job_state sm k)"
  "pending_op (set_job j job sm) = pending_op sm" "inflight (set_job j job sm) = inflight sm"
  "sm_operations (set_job j job sm) = sm_operations sm"
  by (auto simp: set_job_def job_state_def pending_op_def fun_eq_iff)

lemma sm_inv_set_job:
  assumes "sm_inv sm" and "aj_State job \<noteq> JOB_STATE_TRANSITIONING" and "job_state sm j \<noteq> Some JOB_STATE_TRANSITIONING"
  shows "sm_inv (set_job j job sm)"
  using assms unfolding sm_inv_def by auto

lemma getOrCreateJob_state:
  assumes "getOrCreateJob j grp sm = (job, sm')"
  shows "job_state sm' j = Some (aj_State job)" and "map_of (sm_jobs sm') j = Some job"
    and "sm' = sm \<or> job_state sm j = None \<and> aj_State job = JOB_STATE_IDLE \<and> sm' = set_job j job sm"
  using assms
  by (auto simp: getOrCreateJob_def Let_def set_job_def newAgentJob_def job_state_def split: option.splits)

lemma getOrCreateJob_inv: "sm_inv sm \<Longrightarrow> getOrCreateJob j grp sm = (job, sm') \<Longrightarrow> sm_inv sm'"
  using getOrCreateJob_state(3)[of j grp sm job sm'] by (auto intro: sm_inv_set_job)

lemma getOrCreateJob_ops: "getOrCreateJob j grp sm = (job, sm') \<Longrightarrow> sm_operations sm' = sm_operations sm"
  by (auto simp: getOrCreateJob_def Let_def split: option.splits)

lemma launch_views:
  assumes "map_of (sm_operations sm) i = None"
  shows "job_state (launch i now j slot ty job sm) k =
      (if k = j then Some JOB_STATE_TRANSITIONING else job_state sm k)"
    and "pending_op (launch i now j slot ty job sm) k i' \<longleftrightarrow> (k = j \<and> i' = i) \<or> pending_op sm k i'"
    and "inflight (launch i now j slot ty job sm) = inflight sm @ [\<lparr>go_op = i, go_job = j, go_slot = slot\<rparr>]"
  using assms by (auto simp: launch_def job_state_def set_job_def pending_op_def newOperation_def)

lemma launch_inv:
  assumes "sm_inv sm" and "fresh_op i sm" and "job_state sm j \<noteq> Some JOB_STATE_TRANSITIONING"
  shows "sm_inv (launch i now j slot ty job sm)"
proof -
  have i: "map_of (sm_operations sm) i = None" and ne: "i \<noteq> already_running" using assms(2) by (auto simp: fresh_op_def)
  have j: "j \<notin> go_job ` set (inflight sm)" using assms(1,3) by (auto simp: sm_inv_def)
  have "\<not> pending_op sm k i" for k using i by (simp add: pending_op_def)
  then have n: "i \<notin> go_op ` set (inflight sm)" using assms(1) unfolding sm_inv_def by blast
  have a: "map_of (sm_operations (launch i now j slot ty job sm)) already_running = None"
    using assms(1) ne by (simp add: launch_def sm_inv_def)
  show ?thesis
    unfolding sm_inv_def launch_views[OF i]
    using assms(1) j n a by (auto simp: sm_inv_def)
qed

lemma StartSnapshotSlot_inv:
  assumes "sm_inv sm" and "fresh_op i sm" and "StartSnapshotSlot i now j grp slot sm = (r, sm')"
  shows "sm_inv sm'"
proof -
  obtain job sm1 where g: "getOrCreateJob j grp sm = (job, sm1)" by fastforce
  have "fresh_op i sm1" using assms(2) getOrCreateJob_ops[OF g] by (simp add: fresh_op_def)
  with getOrCreateJob_inv[OF assms(1) g] getOrCreateJob_state(1)[OF g] assms(3) g show ?thesis
    by (auto simp: StartSnapshotSlot_def intro: launch_inv split: if_splits)
qed

lemma StartRestoreSlot_inv:
  assumes "sm_inv sm" and "fresh_op i sm" and "StartRestoreSlot i now j grp slot sm = (r, sm')"
  shows "sm_inv sm'"
proof -
  obtain job sm1 where g: "getOrCreateJob j grp sm = (job, sm1)" by fastforce
  have "fresh_op i sm1" using assms(2) getOrCreateJob_ops[OF g] by (simp add: fresh_op_def)
  with getOrCreateJob_inv[OF assms(1) g] getOrCreateJob_state(1)[OF g] assms(3) g show ?thesis
    by (auto simp: StartRestoreSlot_def intro: launch_inv split: if_splits)
qed

lemma finished_job_state:
  "aj_State (snapshot_job slot err job) \<in> {JOB_STATE_SAVED, JOB_STATE_IDLE, JOB_STATE_FAULTED}"
  "aj_State (restore_job slot err job) \<in> {JOB_STATE_RUNNING, JOB_STATE_FAULTED}"
  by (auto simp: snapshot_job_def restore_job_def split: option.splits)

lemma finished_op:
  "op_JobID (snapshot_op now f err op) = op_JobID op" "op_Status (snapshot_op now f err op) \<noteq> OPERATION_STATUS_PENDING"
  "op_JobID (restore_op now f err op) = op_JobID op" "op_Status (restore_op now f err op) \<noteq> OPERATION_STATUS_PENDING"
  by (auto simp: snapshot_op_def restore_op_def Let_def split: option.splits)

lemma inflight_known:
  assumes "sm_inv sm" and "g \<in> set (inflight sm)"
  obtains op job where "map_of (sm_operations sm) (go_op g) = Some op" "op_JobID op = go_job g"
    "op_Status op = OPERATION_STATUS_PENDING" "map_of (sm_jobs sm) (go_job g) = Some job"
    "aj_State job = JOB_STATE_TRANSITIONING"
proof -
  have "pending_op sm (go_job g) (go_op g)" and "job_state sm (go_job g) = Some JOB_STATE_TRANSITIONING"
    using assms unfolding sm_inv_def by blast+
  with that show thesis by (auto simp: pending_op_def job_state_def)
qed

text \<open>The effect of a finished goroutine, whichever operation it ran.\<close>

lemma finish_cases:
  assumes "sm_inv sm" and "g \<in> set (inflight sm)"
  obtains op op' job job' where "map_of (sm_operations sm) (go_op g) = Some op" "op_Status op = OPERATION_STATUS_PENDING"
    "map_of (sm_jobs sm) (go_job g) = Some job" "aj_State job = JOB_STATE_TRANSITIONING"
    "op_JobID op' = go_job g" "op_Status op' \<noteq> OPERATION_STATUS_PENDING"
    "aj_State job' \<in> {JOB_STATE_SAVED, JOB_STATE_IDLE, JOB_STATE_RUNNING, JOB_STATE_FAULTED}"
    "finish now f g err sm = (set_job (go_job g) job' sm)
       \<lparr>sm_operations := AList.update (go_op g) op' (sm_operations sm), inflight := remove1 g (inflight sm)\<rparr>"
proof -
  from inflight_known[OF assms] obtain op job where k: "map_of (sm_operations sm) (go_op g) = Some op" "op_JobID op = go_job g"
    "op_Status op = OPERATION_STATUS_PENDING" "map_of (sm_jobs sm) (go_job g) = Some job"
    "aj_State job = JOB_STATE_TRANSITIONING" by blast
  show thesis
  proof (cases "op_Type op")
    case OpTypeSnapshot
    with k show thesis
      using that[of op job "snapshot_op now f err op" "snapshot_job (go_slot g) err job"] finished_op finished_job_state(1)[of "go_slot g" err job]
      by (auto simp: finish_def)
  next
    case OpTypeRestore
    with k show thesis
      using that[of op job "restore_op now f err op" "restore_job (go_slot g) err job"] finished_op finished_job_state(2)[of "go_slot g" err job]
      by (auto simp: finish_def)
  qed
qed

lemma remove1_inflight:
  assumes "distinct (map go_job gs)" and "g \<in> set gs"
  shows "set (remove1 g gs) = set gs - {g}" and "go_job ` set (remove1 g gs) = go_job ` set gs - {go_job g}"
proof -
  have d: "distinct gs" using assms(1) distinct_map by blast
  then show s: "set (remove1 g gs) = set gs - {g}" by simp
  have "inj_on go_job (set gs)" using assms(1) by (simp add: distinct_map)
  then show "go_job ` set (remove1 g gs) = go_job ` set gs - {go_job g}"
    unfolding s using assms(2) by (simp add: inj_on_image_set_diff)
qed

lemma distinct_map_remove1: "distinct (map f xs) \<Longrightarrow> distinct (map f (remove1 x xs))"
proof (induction xs)
  case (Cons a xs)
  then show ?case using set_remove1_subset[of x xs] by auto
qed simp

lemma finish_inv:
  assumes "sm_inv sm" and "g \<in> set (inflight sm)"
  shows "sm_inv (finish now f g err sm)"
  using assms
proof (cases rule: finish_cases[where now = now and f = f and err = err])
  case (1 op op' job job')
  let ?sm = "finish now f g err sm"
  have d: "distinct (map go_job (inflight sm))" "distinct (map go_op (inflight sm))" using assms(1) by (auto simp: sm_inv_def)
  note r = remove1_inflight[OF d(1) assms(2)]
  have inj: "inj_on go_op (set (inflight sm))" using d(2) by (simp add: distinct_map)
  have fl: "inflight ?sm = remove1 g (inflight sm)" using 1 by simp
  have pend: "pending_op ?sm j i \<longleftrightarrow> pending_op sm j i \<and> i \<noteq> go_op g" for j i
    using 1 by (auto simp: pending_op_def set_job_def)
  have js: "job_state ?sm j = (if j = go_job g then Some (aj_State job') else job_state sm j)" for j
    using 1 by (auto simp: job_state_def set_job_def)
  have p: "pending_op ?sm j i \<longleftrightarrow> (\<exists>h \<in> set (inflight ?sm). go_job h = j \<and> go_op h = i)" for j i
  proof -
    have "pending_op sm j i \<longleftrightarrow> (\<exists>h \<in> set (inflight sm). go_job h = j \<and> go_op h = i)"
      using assms(1) by (simp add: sm_inv_def)
    moreover have "h = g" if "h \<in> set (inflight sm)" "go_op h = go_op g" for h
      using that assms(2) inj by (auto dest: inj_onD)
    ultimately show ?thesis unfolding pend fl r(1) by blast
  qed
  have t: "job_state ?sm j = Some JOB_STATE_TRANSITIONING \<longleftrightarrow> j \<in> go_job ` set (inflight ?sm)" for j
    using assms(1) 1(7) unfolding js fl r(2) by (auto simp: sm_inv_def)
  have "map_of (sm_operations ?sm) already_running = None"
    using assms(1) 1 by (auto simp: sm_inv_def)
  moreover have "distinct (map go_job (inflight ?sm))" "distinct (map go_op (inflight ?sm))"
    unfolding fl using d by (simp_all add: distinct_map_remove1)
  ultimately show ?thesis unfolding sm_inv_def using p t by blast
qed

lemma transitionTo_cases:
  assumes "transitionTo t j ps sm = (r, sm')"
  obtains "sm' = sm" | job where "map_of (sm_jobs sm) j = Some job" "aj_State job = JOB_STATE_IDLE"
    "sm' = set_job j (job\<lparr>aj_State := t, aj_PIDs := ps\<rparr>) sm"
  using assms by (auto simp: transitionTo_def split: option.splits if_splits)

lemma transitionTo_inv:
  assumes "sm_inv sm" and "transitionTo t j ps sm = (r, sm')" and "t \<noteq> JOB_STATE_TRANSITIONING"
  shows "sm_inv sm'"
  using assms(2)
  by (cases rule: transitionTo_cases) (use assms in \<open>auto intro: sm_inv_set_job simp: job_state_def\<close>)

lemma UpdateJobPIDs_inv:
  assumes "sm_inv sm"
  shows "sm_inv (UpdateJobPIDs j ps sm)"
proof (cases "map_of (sm_jobs sm) j")
  case (Some job)
  have "job_state (UpdateJobPIDs j ps sm) k = job_state sm k" for k
    using Some by (auto simp: UpdateJobPIDs_def job_state_def set_job_def)
  moreover have "inflight (UpdateJobPIDs j ps sm) = inflight sm" "pending_op (UpdateJobPIDs j ps sm) = pending_op sm"
    "sm_operations (UpdateJobPIDs j ps sm) = sm_operations sm"
    using Some by (simp_all add: UpdateJobPIDs_def)
  ultimately show ?thesis using assms by (simp add: sm_inv_def)
qed (use assms in \<open>simp add: UpdateJobPIDs_def\<close>)

lemma sm_step_inv: "sm_step sm sm' \<Longrightarrow> sm_inv sm \<Longrightarrow> sm_inv sm'"
proof (induction rule: sm_step.induct)
  case (register sm j grp)
  then show ?case by (metis RegisterJob_def getOrCreateJob_inv prod.collapse)
qed (auto intro: StartSnapshotSlot_inv StartRestoreSlot_inv finish_inv UpdateJobPIDs_inv
      simp: TransitionToRunning_def TransitionToSaved_def dest: transitionTo_inv)

lemma sm_reach_inv: "sm_reach sm \<Longrightarrow> sm_inv sm"
  by (induction rule: sm_reach.induct) (auto intro: sm_inv_start sm_step_inv)

subsection \<open>Properties\<close>

text \<open>What a step does to the state of a job and to an operation, case by case.\<close>

lemma getOrCreateJob_views:
  assumes "getOrCreateJob j grp sm = (job, sm1)"
  shows "job_state sm1 k = (if k = j then Some (aj_State job) else job_state sm k)"
    and "job_state sm j = Some (aj_State job) \<or> job_state sm j = None \<and> aj_State job = JOB_STATE_IDLE"
    and "inflight sm1 = inflight sm"
  using getOrCreateJob_state(1,3)[OF assms] by auto

text \<open>The states a job may pass through; \<open>None\<close> is a job the agent does not know.\<close>

definition legal_change :: "JobState option \<Rightarrow> JobState option \<Rightarrow> bool" where
  "legal_change a b \<longleftrightarrow>
     a = b \<or>
     (case (a, b) of
        (None, Some t) \<Rightarrow> t = JOB_STATE_IDLE
      | (Some JOB_STATE_IDLE, Some t) \<Rightarrow> t \<in> {JOB_STATE_RUNNING, JOB_STATE_SAVED}
      | (Some JOB_STATE_RUNNING, Some t) \<Rightarrow> t = JOB_STATE_TRANSITIONING
      | (Some JOB_STATE_SAVED, Some t) \<Rightarrow> t = JOB_STATE_TRANSITIONING
      | (Some JOB_STATE_FAULTED, Some t) \<Rightarrow> t = JOB_STATE_TRANSITIONING
      | (Some JOB_STATE_TRANSITIONING, Some t) \<Rightarrow>
          t \<in> {JOB_STATE_SAVED, JOB_STATE_RUNNING, JOB_STATE_IDLE, JOB_STATE_FAULTED}
      | _ \<Rightarrow> False)"

lemma legal_change_refl [simp]: "legal_change a a"
  by (simp add: legal_change_def)

text \<open>A start either leaves every job as it was, up to registration, or launches one operation.\<close>

lemma start_cases:
  assumes "StartSnapshotSlot i now j grp slot sm = (r, sm') \<or> StartRestoreSlot i now j grp slot sm = (r, sm')"
  obtains job sm1 where "getOrCreateJob j grp sm = (job, sm1)" "sm' = sm1"
  | job sm1 ty where "getOrCreateJob j grp sm = (job, sm1)" "sm' = launch i now j slot ty job sm1"
    "aj_State job \<in> {JOB_STATE_RUNNING, JOB_STATE_SAVED} \<or> aj_State job = JOB_STATE_FAULTED \<and> slot \<noteq> []"
proof -
  obtain job sm1 where "getOrCreateJob j grp sm = (job, sm1)" by fastforce
  with assms that show thesis
    by (auto simp: StartSnapshotSlot_def StartRestoreSlot_def split: if_splits)
qed

lemma launch_state [simp]:
  "job_state (launch i now j slot ty job sm) k = (if k = j then Some JOB_STATE_TRANSITIONING else job_state sm k)"
  by (simp add: launch_def job_state_def set_job_def)

lemma start_legal:
  assumes "StartSnapshotSlot i now j grp slot sm = (r, sm') \<or> StartRestoreSlot i now j grp slot sm = (r, sm')"
  shows "legal_change (job_state sm k) (job_state sm' k)"
  using assms
proof (cases rule: start_cases)
  case (1 job sm1)
  note g = getOrCreateJob_views[OF 1(1)]
  from g(2) show ?thesis unfolding 1(2) g(1) by (auto simp: legal_change_def)
next
  case (2 job sm1 ty)
  note g = getOrCreateJob_views[OF 2(1)]
  from g(2) 2(3) show ?thesis unfolding 2(2) by (auto simp: g(1) legal_change_def)
qed

lemma finish_legal:
  assumes "sm_inv sm" and "g \<in> set (inflight sm)"
  shows "legal_change (job_state sm k) (job_state (finish now f g err sm) k)"
  using assms
proof (cases rule: finish_cases[where now = now and f = f and err = err])
  case (1 op op' job job')
  have "job_state (finish now f g err sm) k = (if k = go_job g then Some (aj_State job') else job_state sm k)"
    using 1(8) by (auto simp: job_state_def set_job_def)
  moreover have "job_state sm (go_job g) = Some JOB_STATE_TRANSITIONING" using 1(3,4) by (simp add: job_state_def)
  ultimately show ?thesis using 1(7) by (auto simp: legal_change_def)
qed

lemma transition_legal:
  assumes "transitionTo t j ps sm = (r, sm')" and "t \<in> {JOB_STATE_RUNNING, JOB_STATE_SAVED}"
  shows "legal_change (job_state sm k) (job_state sm' k)"
  using assms(1)
proof (cases rule: transitionTo_cases)
  case (2 job)
  then have "job_state sm j = Some JOB_STATE_IDLE" by (simp add: job_state_def)
  with 2 assms(2) show ?thesis by (auto simp: legal_change_def)
qed simp

lemma UpdateJobPIDs_state [simp]: "job_state (UpdateJobPIDs j ps sm) k = job_state sm k"
  by (cases "map_of (sm_jobs sm) j") (auto simp: UpdateJobPIDs_def job_state_def set_job_def)

lemma reach_register: "sm_reach sm \<Longrightarrow> sm_reach (RegisterJob j grp sm)"
  by (rule sm_reach.step[OF _ sm_step.register])

lemma reach_running: "sm_reach sm \<Longrightarrow> sm_reach (snd (TransitionToRunning j ps sm))"
  by (rule sm_reach.step[OF _ sm_step.running[OF surjective_pairing]])

lemma reach_snapshot:
  "fresh_op i sm \<Longrightarrow> sm_reach sm \<Longrightarrow> sm_reach (snd (StartSnapshotSlot i now j grp slot sm))"
  by (rule sm_reach.step[OF _ sm_step.snapshot[OF _ surjective_pairing]])

lemma reach_restore:
  "fresh_op i sm \<Longrightarrow> sm_reach sm \<Longrightarrow> sm_reach (snd (StartRestoreSlot i now j grp slot sm))"
  by (rule sm_reach.step[OF _ sm_step.restore[OF _ surjective_pairing]])

lemma reach_finish: "g \<in> set (inflight sm) \<Longrightarrow> sm_reach sm \<Longrightarrow> sm_reach (finish now f g err sm)"
  by (rule sm_reach.step[OF _ sm_step.finished])

text \<open>A manager with one job whose snapshot is in progress.\<close>

definition busy_manager :: StateManager where
  "busy_manager =
     snd (StartSnapshotSlot ''op'' 5 ''j'' ''g'' []
       (snd (TransitionToRunning ''j'' [7] (RegisterJob ''j'' ''g'' NewStateManager))))"

lemma busy_manager_reachable:
  "sm_reach busy_manager" "pending_op busy_manager ''j'' ''op''"
  "inflight busy_manager = [\<lparr>go_op = ''op'', go_job = ''j'', go_slot = []\<rparr>]"
  "job_state busy_manager ''j'' = Some JOB_STATE_TRANSITIONING"
proof -
  note defs = busy_manager_def TransitionToRunning_def transitionTo_def RegisterJob_def getOrCreateJob_def NewStateManager_def
    set_job_def newAgentJob_def StartSnapshotSlot_def Let_def launch_def fresh_op_def already_running_def
  show "sm_reach busy_manager" unfolding busy_manager_def
    by (intro reach_snapshot reach_running reach_register sm_reach.start) (simp add: defs)
  show "pending_op busy_manager ''j'' ''op''" by (simp add: pending_op_def newOperation_def defs)
  show "inflight busy_manager = [\<lparr>go_op = ''op'', go_job = ''j'', go_slot = []\<rparr>]" by (simp add: defs)
  show "job_state busy_manager ''j'' = Some JOB_STATE_TRANSITIONING" by (simp add: defs job_state_def)
qed



text \<open>C35: At most one operation of a job is in progress. In every reachable state a job is
  TRANSITIONING exactly when there is a pending operation for it, and then there is exactly one;
  while it lasts, every further snapshot or restore of that job is refused with
  \<^verbatim>\<open>codes.Aborted\<close> and the manager is left unchanged.
\<close>

theorem one_operation_per_job:
  assumes "sm_reach sm"
  shows "(job_state sm j = Some JOB_STATE_TRANSITIONING \<longleftrightarrow> (\<exists>!i. pending_op sm j i)) \<and>
    (pending_op sm j i \<longrightarrow>
      (\<exists>m. StartSnapshotSlot n now j grp slot sm = (Inl (Status Code_Aborted m), sm)) \<and>
      (\<exists>m. StartRestoreSlot n now j grp slot sm = (Inl (Status Code_Aborted m), sm)))"
proof -
  have inv: "sm_inv sm" by (rule sm_reach_inv[OF assms])
  have p: "pending_op sm j i \<longleftrightarrow> (\<exists>g \<in> set (inflight sm). go_job g = j \<and> go_op g = i)" for i
    using inv by (simp add: sm_inv_def)
  have t: "job_state sm j = Some JOB_STATE_TRANSITIONING \<longleftrightarrow> j \<in> go_job ` set (inflight sm)"
    using inv by (simp add: sm_inv_def)
  have inj: "inj_on go_job (set (inflight sm))" using inv by (simp add: sm_inv_def distinct_map)
  have "(j \<in> go_job ` set (inflight sm)) = (\<exists>!i. pending_op sm j i)"
    unfolding p using inj by (auto dest: inj_onD)
  moreover have "(\<exists>m. StartSnapshotSlot n now j grp slot sm = (Inl (Status Code_Aborted m), sm)) \<and>
      (\<exists>m. StartRestoreSlot n now j grp slot sm = (Inl (Status Code_Aborted m), sm))" if "pending_op sm j i"
  proof -
    have "job_state sm j = Some JOB_STATE_TRANSITIONING" using that unfolding t p by blast
    then show ?thesis
      by (auto simp: job_state_def StartSnapshotSlot_def StartRestoreSlot_def getOrCreateJob_def)
  qed
  ultimately show ?thesis unfolding t by blast
qed

lemma one_operation_per_job_witness:
  "(\<exists>!i. pending_op busy_manager ''j'' i) \<and>
   (\<exists>m. StartRestoreSlot ''op2'' 6 ''j'' ''g'' [] busy_manager = (Inl (Status Code_Aborted m), busy_manager))"
proof -
  note w = one_operation_per_job[OF busy_manager_reachable(1), of "''j''" "''op''" "''op2''" 6 "''g''" "[]"]
  with busy_manager_reachable(2,4) show ?thesis by blast
qed

text \<open>Operations are kept, and a finished operation stays as it is.\<close>

definition op_done :: "StateManager \<Rightarrow> string \<Rightarrow> Operation \<Rightarrow> bool" where
  "op_done sm i op \<longleftrightarrow> sm_GetOperation i sm = Some op \<and> op_Status op \<noteq> OPERATION_STATUS_PENDING"

lemma op_done_launch:
  "map_of (sm_operations sm) i = None \<Longrightarrow> op_done sm k op \<Longrightarrow> op_done (launch i now j slot ty job sm) k op"
  by (auto simp: op_done_def sm_GetOperation_def launch_def)

lemma op_done_start:
  assumes "StartSnapshotSlot i now j grp slot sm = (r, sm') \<or> StartRestoreSlot i now j grp slot sm = (r, sm')"
    and "fresh_op i sm" and "op_done sm k op"
  shows "op_done sm' k op"
  using assms(1)
proof (cases rule: start_cases)
  case (1 job sm1)
  then show ?thesis using assms(3) getOrCreateJob_ops by (auto simp: op_done_def sm_GetOperation_def)
next
  case (2 job sm1 ty)
  note o = getOrCreateJob_ops[OF 2(1)]
  show ?thesis unfolding 2(2)
    by (rule op_done_launch) (use assms(2,3) o in \<open>auto simp: op_done_def sm_GetOperation_def fresh_op_def\<close>)
qed

lemma op_done_finish:
  assumes "sm_inv sm" and "g \<in> set (inflight sm)" and "op_done sm k op"
  shows "op_done (finish now f g err sm) k op"
  using assms(1,2)
proof (cases rule: finish_cases[where now = now and f = f and err = err])
  case (1 op1 op' job job')
  then have "k \<noteq> go_op g" using assms(3) by (auto simp: op_done_def sm_GetOperation_def)
  with assms(3) show ?thesis unfolding 1(8) by (simp add: op_done_def sm_GetOperation_def)
qed

lemma op_done_step:
  assumes "sm_inv sm" and "sm_step sm sm'" and "op_done sm k op"
  shows "op_done sm' k op"
  using assms(2)
proof (cases rule: sm_step.cases)
  case (register j grp)
  then show ?thesis
    using assms(3) getOrCreateJob_ops[of j grp sm] unfolding op_done_def sm_GetOperation_def RegisterJob_def
    by (metis prod.collapse)
next
  case (pids j ps)
  then show ?thesis using assms(3)
    by (cases "map_of (sm_jobs sm) j") (auto simp: op_done_def sm_GetOperation_def UpdateJobPIDs_def)
next
  case (snapshot i now j grp slot r)
  then show ?thesis using assms(3) op_done_start by blast
next
  case (restore i now j grp slot r)
  then show ?thesis using assms(3) op_done_start by blast
next
  case (finished g now f err)
  then show ?thesis using assms op_done_finish by blast
next
  case (running j ps r)
  from running[unfolded TransitionToRunning_def] assms(3) show ?thesis
    by (auto simp: op_done_def sm_GetOperation_def elim!: transitionTo_cases)
next
  case (saved j ps r)
  from saved[unfolded TransitionToSaved_def] assms(3) show ?thesis
    by (auto simp: op_done_def sm_GetOperation_def elim!: transitionTo_cases)
qed

inductive sm_steps :: "StateManager \<Rightarrow> StateManager \<Rightarrow> bool" where
  none: "sm_steps sm sm"
| more: "sm_steps sm sm1 \<Longrightarrow> sm_step sm1 sm2 \<Longrightarrow> sm_steps sm sm2"

lemma sm_steps_reach: "sm_steps sm sm' \<Longrightarrow> sm_reach sm \<Longrightarrow> sm_reach sm'"
  by (induction rule: sm_steps.induct) (auto intro: sm_reach.step)

lemma op_done_steps: "sm_steps sm sm' \<Longrightarrow> sm_reach sm \<Longrightarrow> op_done sm i op \<Longrightarrow> op_done sm' i op"
proof (induction rule: sm_steps.induct)
  case (more sm sm1 sm2)
  then show ?case using op_done_step sm_reach_inv sm_steps_reach by blast
qed simp

text \<open>C36: The result of an operation is final. Once an operation has ended, whatever the manager
  does next, \<^verbatim>\<open>GetOperation\<close> keeps returning that very operation; and an operation that
  ended is never one of those still running.
\<close>

theorem operation_result_is_final:
  assumes "sm_reach sm" and "op_done sm i op" and "sm_steps sm sm'"
  shows "sm_GetOperation i sm' = Some op \<and> i \<notin> go_op ` set (inflight sm')"
proof -
  have d: "op_done sm' i op" by (rule op_done_steps[OF assms(3,1,2)])
  have inv: "sm_inv sm'" by (rule sm_reach_inv[OF sm_steps_reach[OF assms(3,1)]])
  have "i \<noteq> go_op g" if "g \<in> set (inflight sm')" for g
    using inflight_known[OF inv that] d by (metis op_done_def sm_GetOperation_def option.inject)
  with d show ?thesis by (auto simp: op_done_def)
qed

definition done_manager :: StateManager where
  "done_manager = finish 9 (\<lambda>e. []) \<lparr>go_op = ''op'', go_job = ''j'', go_slot = []\<rparr> None busy_manager"

lemma done_manager_facts:
  "sm_reach done_manager"
  "op_done done_manager ''op'' (snapshot_op 9 (\<lambda>e. []) None (newOperation ''op'' 5 ''j'' OpTypeSnapshot))"
proof -
  show "sm_reach done_manager" unfolding done_manager_def
    by (rule reach_finish) (simp_all add: busy_manager_reachable)
  have "map_of (sm_operations busy_manager) ''op'' = Some (newOperation ''op'' 5 ''j'' OpTypeSnapshot)"
    and "map_of (sm_jobs busy_manager) ''j'' \<noteq> None"
    by (simp_all add: busy_manager_def TransitionToRunning_def transitionTo_def RegisterJob_def getOrCreateJob_def
        NewStateManager_def set_job_def newAgentJob_def StartSnapshotSlot_def Let_def launch_def)
  then show "op_done done_manager ''op'' (snapshot_op 9 (\<lambda>e. []) None (newOperation ''op'' 5 ''j'' OpTypeSnapshot))"
    by (auto simp: op_done_def sm_GetOperation_def done_manager_def finish_def newOperation_def snapshot_op_def Let_def)
qed

lemma operation_result_is_final_witness:
  "sm_GetOperation ''op'' (RegisterJob ''k'' ''g'' done_manager) =
     Some (snapshot_op 9 (\<lambda>e. []) None (newOperation ''op'' 5 ''j'' OpTypeSnapshot)) \<and>
   ''op'' \<notin> go_op ` set (inflight (RegisterJob ''k'' ''g'' done_manager))"
  by (rule operation_result_is_final[OF done_manager_facts sm_steps.more[OF sm_steps.none sm_step.register]])

end
