(* ===== verification/Features.thy ===== *)
theory Features
  imports Go_Text "HOL-Library.List_Lexorder" "HOL-Library.Char_ord" "HOL-Library.Multiset"
begin

text \<open>
  The feature gates of the snapshot agent (\<^verbatim>\<open>features/features.go\<close>). A gate value set is
  an association list from gate names to booleans; an absent gate has its default.
\<close>

definition DirectMemoryBackend :: string where
  "DirectMemoryBackend = ''DirectMemoryBackend''"

definition MemoryRegionsBackend :: string where
  "MemoryRegionsBackend = ''MemoryRegionsBackend''"

definition gate_defaults :: "(string \<times> bool) list" where
  "gate_defaults = [(DirectMemoryBackend, False), (MemoryRegionsBackend, False)]"

type_synonym gates = "(string \<times> bool) list"

definition knownGates :: string where
  "knownGates = strings_join '', '' (sort (map fst gate_defaults))"

fun parse_pairs :: "string list \<Rightarrow> gates \<Rightarrow> go_error + gates" where
  "parse_pairs [] gates = Inr gates"
| "parse_pairs (p # ps) gates =
     (let pair = TrimSpace p in
      if pair = [] then parse_pairs ps gates
      else
        (case Cut (CHR ''='') pair of
           None \<Rightarrow> Inl (Text (errorf [''invalid feature gate '', pair, '': must be Name=bool'']))
         | Some (name, val) \<Rightarrow>
             let feature = TrimSpace name in
             if map_of gate_defaults feature = None
             then Inl (Text (errorf [''unknown feature gate '', feature, ''; known gates: '', knownGates]))
             else
               (case ParseBool (TrimSpace val) of
                  Inl err \<Rightarrow> Inl (Text (errorf [''invalid value '', TrimSpace val, '' for feature gate '', feature, '': must be a boolean'']))
                | Inr enabled \<Rightarrow> parse_pairs ps (AList.update feature enabled gates))))"

definition ParseGates :: "string \<Rightarrow> go_error + gates" where
  "ParseGates spec = (if TrimSpace spec = [] then Inr [] else parse_pairs (Split (CHR '','') spec) [])"

definition Enabled :: "gates \<Rightarrow> string \<Rightarrow> bool" where
  "Enabled g f =
     (case map_of g f of
        Some enabled \<Rightarrow> enabled
      | None \<Rightarrow> (case map_of gate_defaults f of Some d \<Rightarrow> d | None \<Rightarrow> False))"

definition bool_text :: "bool \<Rightarrow> string" where
  "bool_text b = (if b then ''true'' else ''false'')"

definition gate_text :: "gates \<Rightarrow> string \<Rightarrow> string" where
  "gate_text g f = f @ ''='' @ bool_text (Enabled g f)"

definition Gates_String :: "gates \<Rightarrow> string" where
  "Gates_String g = strings_join '','' (sort (map (gate_text g) (map fst gate_defaults)))"

subsection \<open>Properties\<close>

text \<open>Only registered gates end up in a parsed set.\<close>

lemma parse_pairs_known:
  "parse_pairs ps g = Inr g' \<Longrightarrow> (\<And>f. map_of g f \<noteq> None \<Longrightarrow> map_of gate_defaults f \<noteq> None) \<Longrightarrow>
   map_of g' f \<noteq> None \<Longrightarrow> map_of gate_defaults f \<noteq> None"
proof (induction ps g rule: parse_pairs.induct)
  case (2 p ps g)
  then show ?case by (simp add: Let_def split: if_splits option.splits prod.splits sum.splits)
qed simp

lemma TrimSpace_id:
  assumes "s \<noteq> []" and "\<not> is_space (hd s)" and "\<not> is_space (last s)"
  shows "TrimSpace s = s"
proof -
  have "dropWhile is_space s = s" using assms by (cases s) auto
  moreover have "dropWhile is_space (rev s) = rev s" using assms by (cases s rule: rev_cases) auto
  ultimately show ?thesis by (simp add: TrimSpace_def)
qed

text \<open>A printed pair parses to the printed value.\<close>

definition plain_name :: "string \<Rightarrow> bool" where
  "plain_name f \<longleftrightarrow> f \<noteq> [] \<and> CHR ''='' \<notin> set f \<and> CHR '','' \<notin> set f \<and> \<not> is_space (hd f) \<and> \<not> is_space (last f)"

lemma known_gates_plain: "map_of gate_defaults f \<noteq> None \<Longrightarrow> plain_name f"
  by (auto simp: gate_defaults_def DirectMemoryBackend_def MemoryRegionsBackend_def plain_name_def is_space_def
      split: if_splits)

lemma bool_text_facts:
  "TrimSpace (bool_text b) = bool_text b" "ParseBool (bool_text b) = Inr b" "CHR '','' \<notin> set (bool_text b)"
  "bool_text b \<noteq> []" "\<not> is_space (last (bool_text b))"
  by (cases b; simp add: bool_text_def TrimSpace_def ParseBool_def is_space_def)+

lemma parse_gate_text:
  assumes "map_of gate_defaults f \<noteq> None"
  shows "parse_pairs (gate_text g f # ps) acc = parse_pairs ps (AList.update f (Enabled g f) acc)"
proof -
  note f = known_gates_plain[OF assms, unfolded plain_name_def]
  have "TrimSpace (gate_text g f) = gate_text g f"
    by (rule TrimSpace_id) (use f bool_text_facts(4,5) in \<open>auto simp: gate_text_def\<close>)
  moreover have "TrimSpace f = f" using f by (intro TrimSpace_id) auto
  moreover have "Cut (CHR ''='') (gate_text g f) = Some (f, bool_text (Enabled g f))"
    using f by (simp add: gate_text_def Cut_append)
  moreover have "gate_text g f \<noteq> []" using f by (simp add: gate_text_def)
  moreover obtain d where "map_of gate_defaults f = Some d" using assms by blast
  ultimately show ?thesis by (simp add: bool_text_facts)
qed

text \<open>What the printed gates parse to, whatever the order.\<close>

lemma parse_gate_texts:
  "(\<And>f. f \<in> set fs \<Longrightarrow> map_of gate_defaults f \<noteq> None) \<Longrightarrow>
   parse_pairs (map (gate_text g) fs) acc = Inr (fold (\<lambda>f. AList.update f (Enabled g f)) fs acc)"
proof (induction fs arbitrary: acc)
  case (Cons f fs)
  then have "map_of gate_defaults f \<noteq> None" by simp
  from parse_gate_text[OF this, of g "map (gate_text g) fs" acc] Cons show ?case by (simp del: parse_pairs.simps)
qed simp

lemma fold_update_Enabled:
  "map_of (fold (\<lambda>f. AList.update f (h f)) fs acc) k = (if k \<in> set fs then Some (h k) else map_of acc k)"
  by (induction fs arbitrary: acc) auto

lemma sort_map_ex: "\<exists>ys. set ys = set xs \<and> sort (map f xs) = map f ys"
proof -
  have "sort (map f xs) = map f (sort_key f xs)" by (rule properties_for_sort) simp_all
  then show ?thesis by (metis set_sort)
qed

lemma set_strings_join: "w \<in> set ws \<Longrightarrow> set w \<subseteq> set (strings_join sep ws)"
  by (induction sep ws rule: strings_join.induct) auto

lemma TrimSpace_not_Nil: "c \<in> set s \<Longrightarrow> \<not> is_space c \<Longrightarrow> TrimSpace s \<noteq> []"
proof -
  assume c: "c \<in> set s" "\<not> is_space c"
  then have "c \<in> set (dropWhile is_space s)"
    by (induction s) auto
  with c(2) show ?thesis by (auto simp: TrimSpace_def dropWhile_eq_Nil_conv)
qed

text \<open>
  Printing and parsing feature gates. What \<^verbatim>\<open>String\<close> prints parses back to gates with
  the same effective value for every gate; and whatever \<^verbatim>\<open>Parse\<close> accepts mentions only
  registered gates, so an unknown name is never silently ignored.
\<close>

theorem feature_gates_round_trip:
  shows "(\<exists>g'. ParseGates (Gates_String g) = Inr g' \<and>
       (Enabled g' DirectMemoryBackend \<longleftrightarrow> Enabled g DirectMemoryBackend) \<and>
       (Enabled g' MemoryRegionsBackend \<longleftrightarrow> Enabled g MemoryRegionsBackend)) \<and>
    (ParseGates spec = Inr h \<longrightarrow> set (map fst h) \<subseteq> {DirectMemoryBackend, MemoryRegionsBackend})"
proof -
  from sort_map_ex[of "map fst gate_defaults" "gate_text g"]
  obtain fs where fs: "set fs = set (map fst gate_defaults)" "sort (map (gate_text g) (map fst gate_defaults)) = map (gate_text g) fs"
    by blast
  have known: "f \<in> set fs \<Longrightarrow> map_of gate_defaults f \<noteq> None" for f unfolding fs(1) by (auto simp: gate_defaults_def)
  have ne: "fs \<noteq> []" using fs(1) by (auto simp: gate_defaults_def)
  have "Split (CHR '','') (Gates_String g) = map (gate_text g) fs"
    unfolding Gates_String_def fs(2)
    by (rule Split_strings_join)
      (use ne known known_gates_plain bool_text_facts(3) in \<open>auto simp: gate_text_def plain_name_def\<close>)
  moreover have "TrimSpace (Gates_String g) \<noteq> []"
  proof (rule TrimSpace_not_Nil)
    from ne have "gate_text g (hd fs) \<in> set (map (gate_text g) fs)" by simp
    from set_strings_join[OF this, of "'',''"] show "CHR ''='' \<in> set (Gates_String g)"
      unfolding Gates_String_def fs(2) by (auto simp: gate_text_def)
  qed (simp add: is_space_def)
  ultimately have "ParseGates (Gates_String g) = Inr (fold (\<lambda>f. AList.update f (Enabled g f)) fs [])"
    using known by (simp add: ParseGates_def parse_gate_texts)
  moreover have "set (map fst h) \<subseteq> {DirectMemoryBackend, MemoryRegionsBackend}" if "ParseGates spec = Inr h"
  proof
    fix f
    assume "f \<in> set (map fst h)"
    then have "map_of h f \<noteq> None" by (simp add: map_of_eq_None_iff)
    with that have "map_of gate_defaults f \<noteq> None"
      by (auto simp: ParseGates_def dest: parse_pairs_known[where f = f] split: if_splits)
    then show "f \<in> {DirectMemoryBackend, MemoryRegionsBackend}" by (auto simp: gate_defaults_def split: if_splits)
  qed
  ultimately show ?thesis using fs(1)
    by (auto simp: Enabled_def fold_update_Enabled gate_defaults_def)
qed

lemma gates_example: "ParseGates ''DirectMemoryBackend=0, MemoryRegionsBackend = T,'' = Inr [(DirectMemoryBackend, False), (MemoryRegionsBackend, True)]"
  by code_simp

lemma feature_gates_round_trip_witness:
  "ParseGates ''DirectMemoryBackend=0, MemoryRegionsBackend = T,'' = Inr [(DirectMemoryBackend, False), (MemoryRegionsBackend, True)] \<and>
   set (map fst [(DirectMemoryBackend, False), (MemoryRegionsBackend, True)]) \<subseteq> {DirectMemoryBackend, MemoryRegionsBackend}"
  using feature_gates_round_trip gates_example by blast

end
