(* ===== verification/Backends.thy ===== *)
theory Backends
  imports Api Go_Text "HOL-Library.Sublist"
begin

text \<open>
  The backends of the snapshot agent that act on processes through a command line:
  cuda-checkpoint (\<^verbatim>\<open>backends/cuda-checkpoint.go\<close>), direct memory
  (\<^verbatim>\<open>backends/direct_memory.go\<close>) and tpucheckpoint (\<^verbatim>\<open>backends/tpu.go\<close>), with the
  interface they implement (\<^verbatim>\<open>backends/checkpoint.go\<close>) and the no-op backend.

  What the agent does to the node, commands it runs and files it removes, is a log, in the
  order in which it happens. What a command answers, which files and programs exist and what
  NVML reports is a parameter, the record \<open>host\<close>; an answer may depend on the log so far.
\<close>

subsection \<open>The interface\<close>

type_synonym BackendType = string

definition BackendCuda :: BackendType where "BackendCuda = ''cuda''"
definition BackendNoop :: BackendType where "BackendNoop = ''noop''"
definition BackendAppEndpoint :: BackendType where "BackendAppEndpoint = ''app-endpoint''"
definition BackendAppChannel :: BackendType where "BackendAppChannel = ''app-channel''"
definition BackendMemoryRegions :: BackendType where "BackendMemoryRegions = ''memory-regions''"
definition BackendDirectMemory :: BackendType where "BackendDirectMemory = ''direct-memory''"
definition BackendTpu :: BackendType where "BackendTpu = ''tpu''"

lemmas backend_names =
  BackendCuda_def BackendNoop_def BackendAppEndpoint_def BackendAppChannel_def BackendMemoryRegions_def
  BackendDirectMemory_def BackendTpu_def

record Request =
  rq_JobID :: string
  rq_Config :: "BackendConfig option"

text \<open>A backend acts on a world of type \<open>'w\<close>.\<close>

record 'w Backend =
  be_Snapshot :: "Request \<Rightarrow> 'w \<Rightarrow> go_error option \<times> 'w"
  be_Restore :: "Request \<Rightarrow> 'w \<Rightarrow> go_error option \<times> 'w"
  be_HealthCheck :: "'w \<Rightarrow> go_error option \<times> 'w"

definition NewNoopBackend :: "'w Backend" where
  "NewNoopBackend =
     \<lparr>be_Snapshot = (\<lambda>req w. (None, w)), be_Restore = (\<lambda>req w. (None, w)), be_HealthCheck = (\<lambda>w. (None, w))\<rparr>"

subsection \<open>The host\<close>

datatype cmd = Exec string "string list" | Remove string

record host =
  h_exec :: "cmd list \<Rightarrow> string \<Rightarrow> string list \<Rightarrow> string \<times> go_error option"
  h_LookPath :: "string \<Rightarrow> go_error + string"
  h_Stat :: "cmd list \<Rightarrow> string \<Rightarrow> go_error option"
  h_EvalSymlinks :: "string \<Rightarrow> go_error + string"
  h_nvmlInit :: "string option"
  h_nvmlDeviceGetCount :: "string + int"
  h_waitVfioFree :: "cmd list \<Rightarrow> go_error option"
  h_ctxDone :: "cmd list \<Rightarrow> go_error option"

text \<open>
  \<open>h_nvmlInit\<close> and the left of \<open>h_nvmlDeviceGetCount\<close> are the error texts of an NVML call
  that does not return \<^verbatim>\<open>SUCCESS\<close>. \<open>h_ctxDone\<close> is the branch taken by the select
  between \<^verbatim>\<open>ctx.Done()\<close> and the retry back-off.
\<close>

definition run_cmd :: "host \<Rightarrow> string \<Rightarrow> string list \<Rightarrow> cmd list \<Rightarrow> (string \<times> go_error option) \<times> cmd list" where
  "run_cmd h name args log = (h_exec h log name args, log @ [Exec name args])"

subsection \<open>Process targets\<close>

definition target_strings :: "process_target option \<Rightarrow> string list" where
  "target_strings t = (case t of None \<Rightarrow> [] | Some pids \<Rightarrow> map Itoa pids)"

definition ExtractPIDStrings :: "BackendConfig option \<Rightarrow> string list" where
  "ExtractPIDStrings config =
     (case config of Some (Cuda target) \<Rightarrow> target_strings target | _ \<Rightarrow> [])"

definition ExtractDirectMemoryPIDStrings :: "BackendConfig option \<Rightarrow> string list" where
  "ExtractDirectMemoryPIDStrings config =
     (case config of Some (DirectMemory target) \<Rightarrow> target_strings target | _ \<Rightarrow> [])"

definition ExtractTpuPIDStrings :: "BackendConfig option \<Rightarrow> string list" where
  "ExtractTpuPIDStrings config =
     (case config of Some (Tpu target) \<Rightarrow> target_strings target | _ \<Rightarrow> [])"

text \<open>The CUDA and TPU builders skip what does not parse as a 32-bit number.\<close>

fun parsed_pids :: "string list \<Rightarrow> int list" where
  "parsed_pids [] = []"
| "parsed_pids (s # ss) = (case ParseInt 32 s of Inr pid \<Rightarrow> pid # parsed_pids ss | Inl err \<Rightarrow> parsed_pids ss)"

definition BuildCudaConfig :: "string list \<Rightarrow> BackendConfig" where
  "BuildCudaConfig pidStrings = Cuda (Some (parsed_pids pidStrings))"

definition BuildTpuConfig :: "string list \<Rightarrow> BackendConfig" where
  "BuildTpuConfig pidStrings = Tpu (Some (parsed_pids pidStrings))"

fun checked_pids :: "string list \<Rightarrow> go_error + int list" where
  "checked_pids [] = Inr []"
| "checked_pids (s # ss) =
     (case ParseInt 32 s of
        Inl err \<Rightarrow> Inl (Wrap (errorf [''invalid PID string '', s]) err)
      | Inr pid \<Rightarrow> (case checked_pids ss of Inl err \<Rightarrow> Inl err | Inr pids \<Rightarrow> Inr (pid # pids)))"

definition BuildDirectMemoryConfig :: "string list \<Rightarrow> go_error + BackendConfig" where
  "BuildDirectMemoryConfig pidStrings =
     (case checked_pids pidStrings of
        Inl err \<Rightarrow> Inl err
      | Inr pids \<Rightarrow> Inr (DirectMemory (Some pids)))"

subsection \<open>cuda-checkpoint\<close>

definition getCudaCheckpointPath :: "host \<Rightarrow> string" where
  "getCudaCheckpointPath h =
     (case h_LookPath h ''cuda-checkpoint'' of Inr path \<Rightarrow> path | Inl err \<Rightarrow> ''/usr/local/bin/cuda-checkpoint'')"

definition runSudoCommand :: "host \<Rightarrow> string \<Rightarrow> string list \<Rightarrow> cmd list \<Rightarrow> go_error option \<times> cmd list" where
  "runSudoCommand h name args log =
     (case run_cmd h name args log of
        ((out, Some err), log') \<Rightarrow> (Some (Wrap (errorf [''command failed, output: '', out]) err), log')
      | ((out, None), log') \<Rightarrow> (None, log'))"

definition pidArgs :: "string list \<Rightarrow> string list" where
  "pidArgs pids = concat (map (\<lambda>pid. [''--pid'', pid]) pids)"

definition checkpointPIDs :: "host \<Rightarrow> string list \<Rightarrow> cmd list \<Rightarrow> go_error option \<times> cmd list" where
  "checkpointPIDs h pids log =
     (let binaryPath = getCudaCheckpointPath h in
      case runSudoCommand h binaryPath ([''--action'', ''lock''] @ pidArgs pids) log of
        (Some err, log1) \<Rightarrow> (Some (Wrap (errorf [''cuda-checkpoint lock failed'']) err), log1)
      | (None, log1) \<Rightarrow>
          (case runSudoCommand h binaryPath ([''--action'', ''checkpoint''] @ pidArgs pids) log1 of
             (Some err, log2) \<Rightarrow> (Some (Wrap (errorf [''cuda-checkpoint checkpoint failed'']) err), log2)
           | (None, log2) \<Rightarrow> (None, log2)))"

definition restorePIDs :: "host \<Rightarrow> string list \<Rightarrow> cmd list \<Rightarrow> go_error option \<times> cmd list" where
  "restorePIDs h pids log =
     (case runSudoCommand h (getCudaCheckpointPath h) ([''--toggle''] @ pidArgs pids) log of
        (Some err, log1) \<Rightarrow> (Some (Wrap (errorf [''cuda-checkpoint toggle failed'']) err), log1)
      | (None, log1) \<Rightarrow> (None, log1))"

definition cuda_Snapshot :: "host \<Rightarrow> Request \<Rightarrow> cmd list \<Rightarrow> go_error option \<times> cmd list" where
  "cuda_Snapshot h req log =
     (let pids = ExtractPIDStrings (rq_Config req) in
      if length pids = 0 then (Some (Text (errorf [''at least one PID is required for CUDA snapshot''])), log)
      else (case checkpointPIDs h pids log of
              (Some err, log1) \<Rightarrow> (Some (Wrap (errorf [''cuda-checkpoint checkpoint failed'']) err), log1)
            | (None, log1) \<Rightarrow> (None, log1)))"

definition cuda_Restore :: "host \<Rightarrow> Request \<Rightarrow> cmd list \<Rightarrow> go_error option \<times> cmd list" where
  "cuda_Restore h req log =
     (let pids = ExtractPIDStrings (rq_Config req) in
      if length pids = 0 then (Some (Text (errorf [''at least one PID is required for CUDA restore''])), log)
      else (case restorePIDs h pids log of
              (Some err, log1) \<Rightarrow> (Some (Wrap (errorf [''cuda-checkpoint toggle failed'']) err), log1)
            | (None, log1) \<Rightarrow> (None, log1)))"

definition cuda_HealthCheck :: "host \<Rightarrow> cmd list \<Rightarrow> go_error option \<times> cmd list" where
  "cuda_HealthCheck h log =
     ((case h_LookPath h (getCudaCheckpointPath h) of
         Inl err \<Rightarrow> Some (Wrap (errorf [''cuda-checkpoint executable not found'']) err)
       | Inr _ \<Rightarrow>
           (case h_nvmlInit h of
              Some ret \<Rightarrow> Some (Text (errorf [''failed to initialize NVML: '', ret]))
            | None \<Rightarrow>
                (case h_nvmlDeviceGetCount h of
                   Inl ret \<Rightarrow> Some (Text (errorf [''failed to get device count: '', ret]))
                 | Inr count \<Rightarrow>
                     if count = 0 then Some (Text (errorf [''no GPUs found on the system''])) else None))), log)"

definition NewCudaCheckpoint :: "host \<Rightarrow> (cmd list) Backend" where
  "NewCudaCheckpoint h =
     \<lparr>be_Snapshot = cuda_Snapshot h, be_Restore = cuda_Restore h, be_HealthCheck = cuda_HealthCheck h\<rparr>"

subsection \<open>Direct memory\<close>

definition crClientPath :: string where
  "crClientPath = ''/usr/local/bin/cr_client''"

definition getCrClientPath :: "host \<Rightarrow> cmd list \<Rightarrow> go_error + string" where
  "getCrClientPath h log =
     (case h_Stat h log crClientPath of
        Some err \<Rightarrow> Inl (Wrap (errorf [''cr_client not found at '', crClientPath]) err)
      | None \<Rightarrow> Inr crClientPath)"

text \<open>The deadline of one invocation, in nanoseconds, from the value of the environment variable.\<close>

definition directMemoryOpTimeout :: "string \<Rightarrow> int" where
  "directMemoryOpTimeout v =
     (if v \<noteq> []
      then (case Atoi v of
              Inr n \<Rightarrow> if 0 < n then (n * 1000000000 + 2 ^ 63) mod 2 ^ 64 - 2 ^ 63 else 120 * 1000000000
            | Inl err \<Rightarrow> 120 * 1000000000)
      else 120 * 1000000000)"

definition runCommand :: "host \<Rightarrow> string \<Rightarrow> string list \<Rightarrow> cmd list \<Rightarrow> go_error option \<times> cmd list" where
  "runCommand h name args log =
     (case run_cmd h name args log of
        ((out, Some err), log') \<Rightarrow> (Some (Wrap (errorf [''command failed, output: '', out]) err), log')
      | ((out, None), log') \<Rightarrow> (None, log'))"

definition checkpointPID :: "host \<Rightarrow> string \<Rightarrow> cmd list \<Rightarrow> go_error option \<times> cmd list" where
  "checkpointPID h pid log =
     (case getCrClientPath h log of
        Inl err \<Rightarrow> (Some err, log)
      | Inr binaryPath \<Rightarrow> runCommand h binaryPath [''-c'', ''-p'', pid] log)"

definition restorePID :: "host \<Rightarrow> string \<Rightarrow> cmd list \<Rightarrow> go_error option \<times> cmd list" where
  "restorePID h pid log =
     (case getCrClientPath h log of
        Inl err \<Rightarrow> (Some err, log)
      | Inr binaryPath \<Rightarrow> runCommand h binaryPath [''-r'', ''-p'', pid] log)"

text \<open>The loop over the processes, left at the first error.\<close>

fun each_pid ::
  "(string \<Rightarrow> cmd list \<Rightarrow> go_error option \<times> cmd list) \<Rightarrow> string \<Rightarrow> string list \<Rightarrow> cmd list \<Rightarrow> go_error option \<times> cmd list" where
  "each_pid act what [] log = (None, log)"
| "each_pid act what (pid # pids) log =
     (case act pid log of
        (Some err, log1) \<Rightarrow> (Some (Wrap (errorf [what, pid]) err), log1)
      | (None, log1) \<Rightarrow> each_pid act what pids log1)"

definition dm_Snapshot :: "host \<Rightarrow> Request \<Rightarrow> cmd list \<Rightarrow> go_error option \<times> cmd list" where
  "dm_Snapshot h req log =
     (let pids = ExtractDirectMemoryPIDStrings (rq_Config req) in
      if length pids = 0 then (Some (Text (errorf [''at least one PID is required for Direct Memory snapshot''])), log)
      else each_pid (checkpointPID h) ''cr_client checkpoint failed for PID '' pids log)"

definition dm_Restore :: "host \<Rightarrow> Request \<Rightarrow> cmd list \<Rightarrow> go_error option \<times> cmd list" where
  "dm_Restore h req log =
     (let pids = ExtractDirectMemoryPIDStrings (rq_Config req) in
      if length pids = 0 then (Some (Text (errorf [''at least one PID is required for Direct Memory restore''])), log)
      else each_pid (restorePID h) ''cr_client restore failed for PID '' pids log)"

definition dm_HealthCheck :: "host \<Rightarrow> cmd list \<Rightarrow> go_error option \<times> cmd list" where
  "dm_HealthCheck h log = ((case getCrClientPath h log of Inl err \<Rightarrow> Some err | Inr _ \<Rightarrow> None), log)"

definition NewDirectMemory :: "host \<Rightarrow> (cmd list) Backend" where
  "NewDirectMemory h =
     \<lparr>be_Snapshot = dm_Snapshot h, be_Restore = dm_Restore h, be_HealthCheck = dm_HealthCheck h\<rparr>"

subsection \<open>tpucheckpoint\<close>

definition getTpuCheckpointPath :: "host \<Rightarrow> string" where
  "getTpuCheckpointPath h =
     (case h_LookPath h ''tpucheckpoint'' of
        Inr path \<Rightarrow> path
      | Inl err \<Rightarrow>
          (case h_LookPath h ''tpu-checkpoint'' of
             Inr path \<Rightarrow> path
           | Inl err \<Rightarrow> ''/usr/local/bin/tpucheckpoint''))"

definition batch_args :: "string \<Rightarrow> string list \<Rightarrow> int \<Rightarrow> string list" where
  "batch_args action pids timeoutSecs =
     [''--action'', action, ''--pid'', strings_join '','' pids, ''--timeout'', Itoa timeoutSecs]"

definition runBatch ::
  "host \<Rightarrow> string \<Rightarrow> string list \<Rightarrow> int \<Rightarrow> cmd list \<Rightarrow> (string \<times> go_error option) \<times> cmd list" where
  "runBatch h action pids timeoutSecs log =
     (case run_cmd h (getTpuCheckpointPath h) (batch_args action pids timeoutSecs) log of
        ((out, Some err), log') \<Rightarrow>
          ((out, Some (Wrap (errorf [action, '' pids '', strings_join '' '' pids, '': command failed, output: '', out]) err)), log')
      | ((out, None), log') \<Rightarrow> ((out, None), log'))"

text \<open>
  The failure report: a line that starts with \<^verbatim>\<open>tpucheckpoint: pid\<close>, a number and a
  colon, as the regular expression of the source matches it.
\<close>

definition reported_pid :: "string \<Rightarrow> string option" where
  "reported_pid line =
     (let p = ''tpucheckpoint: pid '' in
      if \<not> HasPrefix line p then None
      else
        let r = drop (length p) line; ds = takeWhile is_digit r in
        if ds \<noteq> [] \<and> take 1 (drop (length ds) r) = '':'' then Some ds else None)"

definition failedPids :: "string \<Rightarrow> string list \<Rightarrow> string list" where
  "failedPids out requested =
     (let reported = List.map_filter reported_pid (Split (char_of (10 :: nat)) out)
      in filter (\<lambda>pid. pid \<in> set reported) requested)"

definition tpuCheckpointTimeoutSecs :: int where "tpuCheckpointTimeoutSecs = 120"
definition tpuRestoreCLITimeoutSecs :: int where "tpuRestoreCLITimeoutSecs = 600"

definition checkpointWithRetry :: "host \<Rightarrow> string list \<Rightarrow> cmd list \<Rightarrow> go_error option \<times> cmd list" where
  "checkpointWithRetry h pids log =
     (case runBatch h ''checkpoint'' pids tpuCheckpointTimeoutSecs log of
        ((out, None), log1) \<Rightarrow> (None, log1)
      | ((out, Some err), log1) \<Rightarrow>
          let failed = failedPids out pids;
              retryPids = (if length failed = 0 then pids else failed)
          in (case h_ctxDone h log1 of
                Some ctxErr \<Rightarrow>
                  (Some (Wrap (errorf [''checkpoint pids '', strings_join '' '' pids]) (Join [ctxErr, err])), log1)
              | None \<Rightarrow>
                  (case runBatch h ''checkpoint'' retryPids tpuCheckpointTimeoutSecs log1 of
                     ((out', Some retryErr), log2) \<Rightarrow>
                       (Some (Wrap (errorf [''checkpoint pids '', strings_join '' '' retryPids, '' failed after retry'']) (Join [retryErr, err])), log2)
                   | ((out', None), log2) \<Rightarrow> (None, log2))))"

text \<open>
  \<^verbatim>\<open>tpu.ClearLockfiles\<close>: the lock file of each container once, when it is there; a
  failure to remove it is only logged.
\<close>

definition lockfile :: "string \<Rightarrow> string" where
  "lockfile pid = ''/proc/'' @ pid @ ''/root/tmp/libtpu_lockfile''"

fun ClearLockfiles :: "host \<Rightarrow> string list \<Rightarrow> string list \<Rightarrow> cmd list \<Rightarrow> cmd list" where
  "ClearLockfiles h [] seen log = log"
| "ClearLockfiles h (pid # pids) seen log =
     (let path = lockfile pid;
          resolved = (case h_EvalSymlinks h path of Inl err \<Rightarrow> path | Inr r \<Rightarrow> r)
      in if resolved \<in> set seen then ClearLockfiles h pids seen log
         else case h_Stat h log path of
                Some err \<Rightarrow> ClearLockfiles h pids (resolved # seen) log
              | None \<Rightarrow> ClearLockfiles h pids (resolved # seen) (log @ [Remove path]))"

definition tpu_Snapshot :: "host \<Rightarrow> Request \<Rightarrow> cmd list \<Rightarrow> go_error option \<times> cmd list" where
  "tpu_Snapshot h req log =
     (let pids = ExtractTpuPIDStrings (rq_Config req) in
      if length pids = 0 then (Some (Text (errorf [''at least one PID is required for TPU snapshot''])), log)
      else (case checkpointWithRetry h pids log of
              (Some err, log1) \<Rightarrow> (Some (Wrap (errorf [''tpucheckpoint checkpoint failed'']) err), log1)
            | (None, log1) \<Rightarrow> (None, ClearLockfiles h pids [] log1)))"

definition tpu_Restore :: "host \<Rightarrow> Request \<Rightarrow> cmd list \<Rightarrow> go_error option \<times> cmd list" where
  "tpu_Restore h req log =
     (let pids = ExtractTpuPIDStrings (rq_Config req) in
      if length pids = 0 then (Some (Text (errorf [''at least one PID is required for TPU restore''])), log)
      else
        (case h_waitVfioFree h log of
           Some err \<Rightarrow>
             (Some (Wrap (errorf [''vfio gate before restore failed (no RESTORE was issued; safe to retry after the groups free up)'']) err), log)
         | None \<Rightarrow>
             (case runBatch h ''restore'' pids tpuRestoreCLITimeoutSecs log of
                ((out, Some err), log1) \<Rightarrow>
                  (Some (Wrap (errorf [''tpucheckpoint restore failed (job must be treated as faulted, never re-issue a restore)'']) err), log1)
              | ((out, None), log1) \<Rightarrow> (None, log1))))"

definition tpuVfioDir :: string where "tpuVfioDir = ''/dev/vfio''"

definition tpu_HealthCheck :: "host \<Rightarrow> cmd list \<Rightarrow> go_error option \<times> cmd list" where
  "tpu_HealthCheck h log =
     ((case h_LookPath h (getTpuCheckpointPath h) of
         Inl err \<Rightarrow> Some (Wrap (errorf [''tpucheckpoint executable not found'']) err)
       | Inr _ \<Rightarrow>
           (case h_Stat h log tpuVfioDir of
              Some err \<Rightarrow> Some (Wrap (errorf [''no '', tpuVfioDir, '' on this node (not a TPU host?)'']) err)
            | None \<Rightarrow> None)), log)"

definition NewTpuCheckpoint :: "host \<Rightarrow> (cmd list) Backend" where
  "NewTpuCheckpoint h =
     \<lparr>be_Snapshot = tpu_Snapshot h, be_Restore = tpu_Restore h, be_HealthCheck = tpu_HealthCheck h\<rparr>"

subsection \<open>What the commands do\<close>

definition execs :: "cmd list \<Rightarrow> cmd list" where
  "execs log = filter (\<lambda>c. case c of Exec _ _ \<Rightarrow> True | Remove _ \<Rightarrow> False) log"

lemma execs_simps [simp]:
  "execs [] = []" "execs (Exec n a # log) = Exec n a # execs log" "execs (Remove p # log) = execs log"
  "execs (log @ log') = execs log @ execs log'"
  by (simp_all add: execs_def)

text \<open>Whether a command succeeds when run after the given log.\<close>

definition succeeds :: "host \<Rightarrow> cmd list \<Rightarrow> string \<Rightarrow> string list \<Rightarrow> bool" where
  "succeeds h log name args \<longleftrightarrow> snd (h_exec h log name args) = None"

lemma runSudoCommand_cases:
  obtains "succeeds h log n a" "runSudoCommand h n a log = (None, log @ [Exec n a])"
  | err where "\<not> succeeds h log n a" "runSudoCommand h n a log = (Some err, log @ [Exec n a])"
  by (cases "h_exec h log n a"; cases "snd (h_exec h log n a)")
    (auto simp: runSudoCommand_def run_cmd_def succeeds_def)

lemma runBatch_cases:
  obtains "succeeds h log (getTpuCheckpointPath h) (batch_args act pids t)"
    "runBatch h act pids t log =
       ((fst (h_exec h log (getTpuCheckpointPath h) (batch_args act pids t)), None), log @ [Exec (getTpuCheckpointPath h) (batch_args act pids t)])"
  | err where "\<not> succeeds h log (getTpuCheckpointPath h) (batch_args act pids t)"
    "runBatch h act pids t log =
       ((fst (h_exec h log (getTpuCheckpointPath h) (batch_args act pids t)), Some err), log @ [Exec (getTpuCheckpointPath h) (batch_args act pids t)])"
  by (cases "h_exec h log (getTpuCheckpointPath h) (batch_args act pids t)";
      cases "snd (h_exec h log (getTpuCheckpointPath h) (batch_args act pids t))")
    (auto simp: runBatch_def run_cmd_def succeeds_def)

lemma execs_ClearLockfiles [simp]: "execs (ClearLockfiles h pids seen log) = execs log"
  by (induction h pids seen log rule: ClearLockfiles.induct) (auto simp: Let_def split: option.splits)

subsection \<open>Process numbers survive the configuration\<close>

text \<open>
  The contract between the server, which packs process numbers into a configuration, and the
  backend, which unpacks them: 32-bit numbers come out as they went in.
\<close>

locale pid_config =
  fixes pack :: "string list \<Rightarrow> go_error + BackendConfig"
    and unpack :: "BackendConfig option \<Rightarrow> string list"
  assumes round_trip: "list_all is_int32 pids \<Longrightarrow> \<exists>c. pack (map Itoa pids) = Inr c \<and> unpack (Some c) = map Itoa pids"
begin

lemma pack_ok: "list_all is_int32 pids \<Longrightarrow> \<exists>c. pack (map Itoa pids) = Inr c"
  using round_trip by blast

lemma unpack_pack:
  "list_all is_int32 pids \<Longrightarrow> pack (map Itoa pids) = Inr c \<Longrightarrow> unpack (Some c) = map Itoa pids"
  using round_trip by fastforce

lemma same_pids:
  assumes "list_all is_int32 ps" and "list_all is_int32 qs"
    and "pack (map Itoa ps) = Inr c" and "pack (map Itoa qs) = Inr c"
  shows "ps = qs"
proof -
  have "map Itoa ps = map Itoa qs" using assms unpack_pack by metis
  moreover have "inj Itoa" by (simp add: inj_def Itoa_inj)
  ultimately show ?thesis by (simp add: inj_map_eq_map)
qed

end

lemma parsed_pids_Itoa: "list_all is_int32 pids \<Longrightarrow> parsed_pids (map Itoa pids) = pids"
  by (induction pids) auto

lemma checked_pids_Itoa: "list_all is_int32 pids \<Longrightarrow> checked_pids (map Itoa pids) = Inr pids"
  by (induction pids) auto

interpretation cuda_config: pid_config "\<lambda>ss. Inr (BuildCudaConfig ss)" ExtractPIDStrings
  by unfold_locales (simp add: BuildCudaConfig_def ExtractPIDStrings_def target_strings_def parsed_pids_Itoa)

interpretation tpu_config: pid_config "\<lambda>ss. Inr (BuildTpuConfig ss)" ExtractTpuPIDStrings
  by unfold_locales (simp add: BuildTpuConfig_def ExtractTpuPIDStrings_def target_strings_def parsed_pids_Itoa)

interpretation dm_config: pid_config BuildDirectMemoryConfig ExtractDirectMemoryPIDStrings
  by unfold_locales
    (simp add: BuildDirectMemoryConfig_def ExtractDirectMemoryPIDStrings_def target_strings_def checked_pids_Itoa)

subsection \<open>Properties\<close>

definition tpu_cmd :: "host \<Rightarrow> string \<Rightarrow> string list \<Rightarrow> int \<Rightarrow> cmd" where
  "tpu_cmd h action pids t = Exec (getTpuCheckpointPath h) (batch_args action pids t)"

lemma failedPids_subset: "set (failedPids out pids) \<subseteq> set pids"
  by (auto simp: failedPids_def Let_def)

text \<open>C39: The contract of the TPU backend with libtpu. A restore issues at most one RESTORE
  command, for all processes of the job together, only after the vfio gate has passed, and
  succeeds exactly when that command does. A snapshot issues one CHECKPOINT for all processes
  and, only when it fails, one more: for the processes reported as failed, or for all when none
  is reported; it succeeds exactly when the last command does.
\<close>

theorem tpu_backend_contract:
  assumes "tpu_Restore h req log = (r, log')" and "tpu_Snapshot h req log = (s, log'')"
    and "pids = ExtractTpuPIDStrings (rq_Config req)"
  shows "(log' = log \<and> r \<noteq> None \<or>
      h_waitVfioFree h log = None \<and> pids \<noteq> [] \<and> log' = log @ [tpu_cmd h ''restore'' pids 600] \<and>
        (r = None \<longleftrightarrow> succeeds h log (getTpuCheckpointPath h) (batch_args ''restore'' pids 600))) \<and>
    (pids = [] \<and> log'' = log \<and> s \<noteq> None \<or>
     pids \<noteq> [] \<and> s = None \<and> execs log'' = execs log @ [tpu_cmd h ''checkpoint'' pids 120] \<and>
        succeeds h log (getTpuCheckpointPath h) (batch_args ''checkpoint'' pids 120) \<or>
     pids \<noteq> [] \<and> \<not> succeeds h log (getTpuCheckpointPath h) (batch_args ''checkpoint'' pids 120) \<and>
        (s \<noteq> None \<and> log'' = log @ [tpu_cmd h ''checkpoint'' pids 120] \<or>
         (\<exists>retry. (let failed = failedPids (fst (h_exec h log (getTpuCheckpointPath h) (batch_args ''checkpoint'' pids 120))) pids in
             retry = (if failed = [] then pids else failed)) \<and>
           execs log'' = execs log @ [tpu_cmd h ''checkpoint'' pids 120, tpu_cmd h ''checkpoint'' retry 120] \<and>
           (s = None \<longleftrightarrow> succeeds h (log @ [tpu_cmd h ''checkpoint'' pids 120]) (getTpuCheckpointPath h) (batch_args ''checkpoint'' retry 120)))))"
    (is "?R \<and> ?S")
proof
  show ?R
    using assms(1) unfolding tpu_Restore_def assms(3)[symmetric] tpuRestoreCLITimeoutSecs_def tpu_cmd_def
    by (cases rule: runBatch_cases[of h log "''restore''" pids 600]) (auto simp: Let_def split: if_splits option.splits)
next
  let ?c = "batch_args ''checkpoint'' pids 120" and ?p = "getTpuCheckpointPath h"
  let ?failed = "failedPids (fst (h_exec h log ?p ?c)) pids"
  let ?retry = "if ?failed = [] then pids else ?failed"
  let ?log1 = "log @ [Exec ?p ?c]"
  note d = tpu_Snapshot_def checkpointWithRetry_def tpuCheckpointTimeoutSecs_def tpu_cmd_def
  show ?S
  proof (cases "pids = []")
    case True
    with assms(2,3) show ?thesis by (auto simp: d)
  next
    case ne: False
    show ?thesis
    proof (cases rule: runBatch_cases[of h log "''checkpoint''" pids 120])
      case 1
      with assms(2) ne show ?thesis unfolding d assms(3)[symmetric] by auto
    next
      case (2 err)
      show ?thesis
      proof (cases "h_ctxDone h ?log1")
        case (Some e)
        with assms(2) ne 2 show ?thesis unfolding d assms(3)[symmetric] by (auto simp: Let_def)
      next
        case None
        show ?thesis
          using assms(2) ne 2 None unfolding d assms(3)[symmetric]
          by (cases rule: runBatch_cases[of h ?log1 "''checkpoint''" ?retry 120]) (auto simp: Let_def)
      qed
    qed
  qed
qed

text \<open>A host on which the first checkpoint fails for process 8 and the rest succeeds.\<close>

definition one_failure_host :: host where
  "one_failure_host =
     \<lparr>h_exec = (\<lambda>log name args. if log = [] \<and> hd (tl args) = ''checkpoint'' then (''tpucheckpoint: pid 8: busy'', Some (Text ''exit 1'')) else ([], None)),
      h_LookPath = (\<lambda>name. Inr name), h_Stat = (\<lambda>log path. None), h_EvalSymlinks = (\<lambda>path. Inr path),
      h_nvmlInit = None, h_nvmlDeviceGetCount = Inr 1, h_waitVfioFree = (\<lambda>log. None), h_ctxDone = (\<lambda>log. None)\<rparr>"

lemma one_failure_host_runs:
  "tpu_Restore one_failure_host \<lparr>rq_JobID = ''j'', rq_Config = Some (Tpu (Some [7, 8]))\<rparr> [] =
     (None, [Exec ''tpucheckpoint'' [''--action'', ''restore'', ''--pid'', ''7,8'', ''--timeout'', ''600'']])"
  "tpu_Snapshot one_failure_host \<lparr>rq_JobID = ''j'', rq_Config = Some (Tpu (Some [7, 8]))\<rparr> [] =
     (None, [Exec ''tpucheckpoint'' [''--action'', ''checkpoint'', ''--pid'', ''7,8'', ''--timeout'', ''120''],
        Exec ''tpucheckpoint'' [''--action'', ''checkpoint'', ''--pid'', ''8'', ''--timeout'', ''120''],
        Remove ''/proc/7/root/tmp/libtpu_lockfile'', Remove ''/proc/8/root/tmp/libtpu_lockfile''])"
  by code_simp+

lemma tpu_backend_contract_witness:
  "ExtractTpuPIDStrings (Some (Tpu (Some [7, 8]))) = [''7'', ''8''] \<and>
   \<not> succeeds one_failure_host [] ''tpucheckpoint'' (batch_args ''checkpoint'' [''7'', ''8''] 120) \<and>
   (\<exists>retry. failedPids (fst (h_exec one_failure_host [] ''tpucheckpoint'' (batch_args ''checkpoint'' [''7'', ''8''] 120))) [''7'', ''8''] = retry \<and>
     retry = [''8''] \<and>
     succeeds one_failure_host [tpu_cmd one_failure_host ''checkpoint'' [''7'', ''8''] 120] ''tpucheckpoint'' (batch_args ''checkpoint'' retry 120))"
proof -
  have e: "ExtractTpuPIDStrings (Some (Tpu (Some [7, 8]))) = [''7'', ''8'']"
    and f: "failedPids (fst (h_exec one_failure_host [] ''tpucheckpoint'' (batch_args ''checkpoint'' [''7'', ''8''] 120))) [''7'', ''8''] = [''8'']"
    and n: "\<not> succeeds one_failure_host [] ''tpucheckpoint'' (batch_args ''checkpoint'' [''7'', ''8''] 120)"
    and p: "getTpuCheckpointPath one_failure_host = ''tpucheckpoint''"
    by code_simp+
  have c: "[''7'', ''8''] = ExtractTpuPIDStrings (rq_Config \<lparr>rq_JobID = ''j'', rq_Config = Some (Tpu (Some [7, 8]))\<rparr>)"
    using e by simp
  note w = tpu_backend_contract[OF one_failure_host_runs c, THEN conjunct2]
  show ?thesis using e f n w p by (auto simp: Let_def)
qed

end
