(* ===== verification/Agent_Server.thy ===== *)
theory Agent_Server
  imports Agent_State Features Backends
begin

text \<open>
  The gRPC server of the snapshot agent (\<^verbatim>\<open>server/server.go\<close>). A handler takes the state of
  the server and returns its answer with the new state. The closures the handlers build run in
  the goroutines of the state manager: a worker is a function on the manager and the world the
  backends act on, kept under the identifier of its operation until the goroutine runs it
  (\<open>run_operation\<close>). A worker touches, in the manager, only the process numbers of its own
  job, which is TRANSITIONING while the worker runs.

  The functions of \<^verbatim>\<open>utils\<close> the server calls are package variables that the start-up code
  may replace; they are the record \<open>pod_env\<close> here.
\<close>

record pod_env =
  pe_GetLocalPods :: "string \<Rightarrow> go_error + (string \<times> string) list"
  pe_GetPodPIDs :: "string \<Rightarrow> string \<Rightarrow> go_error + int list"
  pe_HasGPUProcesses :: "go_error + bool"

type_synonym 'w worker = "StateManager \<times> 'w \<Rightarrow> go_error option \<times> (StateManager \<times> 'w)"

text \<open>The fixed fields of \<^verbatim>\<open>Server\<close> and its state.\<close>

record 'w server_cfg =
  backendMap :: "(BackendType \<times> 'w Backend) list"
  defaultBackend :: BackendType
  deploymentMode :: string
  featureGates :: gates

record 'w Server =
  srv_state :: StateManager
  srv_world :: 'w
  srv_workers :: "(string \<times> 'w worker) list"

definition NewServer :: "'w \<Rightarrow> 'w Server" where
  "NewServer w = \<lparr>srv_state = NewStateManager, srv_world = w, srv_workers = []\<rparr>"

subsection \<open>Routing\<close>

definition disabled_error :: "string \<Rightarrow> string \<Rightarrow> go_error" where
  "disabled_error name gate =
     Status Code_FailedPrecondition (errorf [''the '', name, '' backend is experimental (driven by GPU-CR, which carries deployment requirements and operational caveats) and is disabled by default; restart the agent with --feature-gates='', gate, ''=true (or the FEATURE_GATES env var) to enable it''])"

definition checkFeatureGates :: "'w server_cfg \<Rightarrow> BackendConfig option \<Rightarrow> go_error option" where
  "checkFeatureGates s config =
     (case config of
        Some (DirectMemory _) \<Rightarrow>
          if Enabled (featureGates s) DirectMemoryBackend then None
          else Some (disabled_error ''direct_memory'' DirectMemoryBackend)
      | Some (MemoryRegions _) \<Rightarrow>
          if Enabled (featureGates s) MemoryRegionsBackend then None
          else Some (disabled_error ''memory_regions'' MemoryRegionsBackend)
      | _ \<Rightarrow> None)"

definition getSnapshotBackendType :: "'w server_cfg \<Rightarrow> BackendConfig option \<Rightarrow> BackendType" where
  "getSnapshotBackendType s config =
     (case config of
        None \<Rightarrow> defaultBackend s
      | Some (Cuda _) \<Rightarrow> BackendCuda
      | Some (DirectMemory _) \<Rightarrow> BackendDirectMemory
      | Some (AppEndpoint _) \<Rightarrow> BackendAppEndpoint
      | Some (AppChannel _) \<Rightarrow> BackendAppChannel
      | Some (MemoryRegions _) \<Rightarrow> BackendMemoryRegions
      | Some (Tpu _) \<Rightarrow> BackendTpu
      | Some NoBackend \<Rightarrow> defaultBackend s)"

text \<open>The loop of \<^verbatim>\<open>ensureJobRunningIfOccupied\<close> over the job statuses.\<close>

fun occupied_loop :: "pod_env \<Rightarrow> string \<Rightarrow> JobStatus list \<Rightarrow> StateManager \<Rightarrow> StateManager" where
  "occupied_loop env jobID [] sm = sm"
| "occupied_loop env jobID (js # rest) sm =
     (if js_job_id js \<noteq> jobID \<or> js_state js \<noteq> JOB_STATE_IDLE then occupied_loop env jobID rest sm
      else
        (case pe_HasGPUProcesses env of
           Inl err \<Rightarrow> sm
         | Inr occupied \<Rightarrow> if \<not> occupied then sm else snd (TransitionToRunning jobID [] sm)))"

definition ensureJobRunningIfOccupied ::
  "'w server_cfg \<Rightarrow> pod_env \<Rightarrow> string \<Rightarrow> string \<Rightarrow> StateManager \<Rightarrow> StateManager" where
  "ensureJobRunningIfOccupied s env jobID grp sm =
     (if deploymentMode s \<noteq> ''standalone'' then sm
      else let sm1 = RegisterJob jobID grp sm in occupied_loop env jobID (GetJobStatus sm1) sm1)"

definition memoryRegionsSlot :: "BackendConfig option \<Rightarrow> string \<Rightarrow> string" where
  "memoryRegionsSlot config jobID =
     (case config of
        Some (MemoryRegions cfg) \<Rightarrow> if mr_snapshot_name cfg \<noteq> [] then mr_snapshot_name cfg else jobID
      | _ \<Rightarrow> [])"

fun region_pids :: "MemoryRegion list \<Rightarrow> int list \<Rightarrow> int list \<Rightarrow> int list" where
  "region_pids [] seen pids = pids"
| "region_pids (r # rs) seen pids =
     (if mr_pid r \<notin> set seen then region_pids rs (mr_pid r # seen) (pids @ [mr_pid r])
      else region_pids rs seen pids)"

definition pidsFromMemoryRegions :: "BackendConfig option \<Rightarrow> int list" where
  "pidsFromMemoryRegions config =
     (case config of Some (MemoryRegions cfg) \<Rightarrow> region_pids (mr_regions cfg) [] [] | _ \<Rightarrow> [])"

definition target_pids :: "process_target option \<Rightarrow> int list" where
  "target_pids t = (case t of None \<Rightarrow> [] | Some pids \<Rightarrow> pids)"

definition extractExplicitPIDs :: "BackendConfig option \<Rightarrow> int list" where
  "extractExplicitPIDs config =
     (case config of
        Some (Cuda target) \<Rightarrow> target_pids target
      | Some (DirectMemory target) \<Rightarrow> target_pids target
      | _ \<Rightarrow> [])"

definition extractExplicitTpuPIDs :: "BackendConfig option \<Rightarrow> int list" where
  "extractExplicitTpuPIDs config = (case config of Some (Tpu target) \<Rightarrow> target_pids target | _ \<Rightarrow> [])"

subsection \<open>Process discovery\<close>

fun getPIDsFromPods :: "pod_env \<Rightarrow> (string \<times> string) list \<Rightarrow> go_error + (int list \<times> string list)" where
  "getPIDsFromPods env [] = Inr ([], [])"
| "getPIDsFromPods env ((name, ns) # pods) =
     (case pe_GetPodPIDs env name ns of
        Inl err \<Rightarrow> Inl (Wrap (errorf [''failed to get pod PIDs'']) err)
      | Inr pids \<Rightarrow>
          (case getPIDsFromPods env pods of
             Inl err \<Rightarrow> Inl err
           | Inr (allPIDs, allPIDStrings) \<Rightarrow> Inr (pids @ allPIDs, map Itoa pids @ allPIDStrings)))"

definition resolvePIDs :: "pod_env \<Rightarrow> string \<Rightarrow> int list \<Rightarrow> go_error + (int list \<times> string list)" where
  "resolvePIDs env jobID reqPIDs =
     (if length reqPIDs > 0 then Inr (reqPIDs, map Itoa reqPIDs)
      else
        (case pe_GetLocalPods env jobID of
           Inl err \<Rightarrow> Inl (Wrap (errorf [''failed to get local pods'']) err)
         | Inr pods \<Rightarrow>
             if length pods = 0
             then Inl (Wrap (errorf [''no pods found for job '', jobID]) (Sentinel ErrNoLiveProcesses))
             else
               (case getPIDsFromPods env pods of
                  Inl err \<Rightarrow> Inl (Wrap (errorf [''failed to get PIDs from pods'']) err)
                | Inr (allPIDs, allPIDStrings) \<Rightarrow>
                    if length allPIDStrings = 0
                    then Inl (Wrap (errorf [''no GPU PIDs found for job '', jobID]) (Sentinel ErrNoLiveProcesses))
                    else Inr (allPIDs, allPIDStrings))))"

subsection \<open>Workers\<close>

definition call_backend ::
  "(Request \<Rightarrow> 'w \<Rightarrow> go_error option \<times> 'w) \<Rightarrow> string \<Rightarrow> BackendConfig option \<Rightarrow> 'w worker" where
  "call_backend f jobID config st =
     (case f \<lparr>rq_JobID = jobID, rq_Config = config\<rparr> (snd st) of (err, w) \<Rightarrow> (err, (fst st, w)))"

text \<open>A snapshot of known processes: the backend, then the numbers are kept for the restore.\<close>

definition snapshot_pids ::
  "'w Backend \<Rightarrow> string \<Rightarrow> BackendConfig \<Rightarrow> int list \<Rightarrow> 'w worker" where
  "snapshot_pids backend jobID config allPIDs st =
     (case call_backend (be_Snapshot backend) jobID (Some config) st of
        (Some err, st1) \<Rightarrow> (Some (Wrap (errorf [''failed to snapshot job '', jobID]) err), st1)
      | (None, st1) \<Rightarrow> (None, (UpdateJobPIDs jobID allPIDs (fst st1), snd st1)))"

definition build_pid_config :: "BackendType \<Rightarrow> string list \<Rightarrow> go_error + BackendConfig" where
  "build_pid_config backendType pidStrings =
     (if backendType = BackendDirectMemory then BuildDirectMemoryConfig pidStrings
      else Inr (BuildCudaConfig pidStrings))"

definition buildSnapshotFn ::
  "'w server_cfg \<Rightarrow> pod_env \<Rightarrow> string \<Rightarrow> BackendType \<Rightarrow> 'w Backend \<Rightarrow> BackendConfig option \<Rightarrow> go_error + 'w worker" where
  "buildSnapshotFn s env jobID backendType backend config =
     (if deploymentMode s = ''standalone'' then Inr (call_backend (be_Snapshot backend) jobID config)
      else if deploymentMode s = ''k8s'' then
        if backendType = BackendCuda \<or> backendType = BackendDirectMemory then
          (let explicitPIDs = extractExplicitPIDs config in
           Inr (\<lambda>st. case resolvePIDs env jobID explicitPIDs of
                  Inl pidErr \<Rightarrow> (Some pidErr, st)
                | Inr (allPIDs, allPIDStrings) \<Rightarrow>
                    (case build_pid_config backendType allPIDStrings of
                       Inl cfgErr \<Rightarrow> (Some (Wrap (errorf [''failed to build backend config for job '', jobID]) cfgErr), st)
                     | Inr reqConfig \<Rightarrow> snapshot_pids backend jobID reqConfig allPIDs st)))
        else if backendType = BackendTpu then
          (let explicitPIDs = extractExplicitTpuPIDs config in
           Inr (\<lambda>st. case resolvePIDs env jobID explicitPIDs of
                  Inl pidErr \<Rightarrow> (Some pidErr, st)
                | Inr (allPIDs, allPIDStrings) \<Rightarrow>
                    snapshot_pids backend jobID (BuildTpuConfig allPIDStrings) allPIDs st))
        else if backendType = BackendAppEndpoint \<or> backendType = BackendAppChannel then
          Inr (call_backend (be_Snapshot backend) jobID config)
        else if backendType = BackendMemoryRegions then
          Inr (\<lambda>st. case call_backend (be_Snapshot backend) jobID config st of
                 (Some err, st1) \<Rightarrow> (Some (Wrap (errorf [''failed to snapshot job '', jobID]) err), st1)
               | (None, st1) \<Rightarrow> (None, (UpdateJobPIDs jobID (pidsFromMemoryRegions config) (fst st1), snd st1)))
        else Inl (Status Code_InvalidArgument (errorf [''backend '', backendType, '' is not supported in k8s mode'']))
      else Inl (Status Code_InvalidArgument (errorf [''unknown deployment mode '', deploymentMode s])))"

text \<open>The numbers kept at the snapshot, as strings, for the restore.\<close>

definition kept_pid_strings :: "string \<Rightarrow> StateManager \<Rightarrow> go_error + string list" where
  "kept_pid_strings jobID sm =
     (case GetJobPIDs jobID sm of
        Inl pidErr \<Rightarrow> Inl (Wrap (errorf [''failed to get PIDs for job '', jobID]) pidErr)
      | Inr pids \<Rightarrow> Inr (map Itoa pids))"

definition buildRestoreFn ::
  "'w server_cfg \<Rightarrow> string \<Rightarrow> BackendType \<Rightarrow> 'w Backend \<Rightarrow> BackendConfig option \<Rightarrow> go_error + 'w worker" where
  "buildRestoreFn s jobID backendType backend config =
     (if deploymentMode s = ''standalone'' then Inr (call_backend (be_Restore backend) jobID config)
      else if deploymentMode s = ''k8s'' then
        if backendType = BackendCuda \<or> backendType = BackendDirectMemory then
          Inr (\<lambda>st. case kept_pid_strings jobID (fst st) of
                 Inl err \<Rightarrow> (Some err, st)
               | Inr pidStrings \<Rightarrow>
                   (case build_pid_config backendType pidStrings of
                      Inl cfgErr \<Rightarrow> (Some (Wrap (errorf [''failed to build backend config for job '', jobID]) cfgErr), st)
                    | Inr reqConfig \<Rightarrow> call_backend (be_Restore backend) jobID (Some reqConfig) st))
        else if backendType = BackendTpu then
          Inr (\<lambda>st. case kept_pid_strings jobID (fst st) of
                 Inl err \<Rightarrow> (Some err, st)
               | Inr pidStrings \<Rightarrow> call_backend (be_Restore backend) jobID (Some (BuildTpuConfig pidStrings)) st)
        else if backendType = BackendAppEndpoint \<or> backendType = BackendAppChannel \<or> backendType = BackendMemoryRegions then
          Inr (call_backend (be_Restore backend) jobID config)
        else Inl (Status Code_InvalidArgument (errorf [''backend '', backendType, '' is not supported in k8s mode'']))
      else Inl (Status Code_InvalidArgument (errorf [''unknown deployment mode '', deploymentMode s])))"

subsection \<open>Handlers\<close>

record agent_request =
  ar_job_id :: string
  ar_group :: string
  ar_backend_config :: "BackendConfig option"

text \<open>Keeping the worker of an operation that was launched.\<close>

definition keep_worker ::
  "string \<Rightarrow> 'w worker \<Rightarrow> (go_error + string) \<times> StateManager \<Rightarrow> 'w Server \<Rightarrow> (go_error + string) \<times> 'w Server" where
  "keep_worker opID fn r srv =
     (fst r, srv\<lparr>srv_state := snd r,
        srv_workers := (if fst r = Inr opID then AList.update opID fn (srv_workers srv) else srv_workers srv)\<rparr>)"

definition agent_Snapshot ::
  "'w server_cfg \<Rightarrow> pod_env \<Rightarrow> string \<Rightarrow> int \<Rightarrow> agent_request \<Rightarrow> 'w Server \<Rightarrow> (go_error + string) \<times> 'w Server" where
  "agent_Snapshot s env opID now req srv =
     (case checkFeatureGates s (ar_backend_config req) of
        Some err \<Rightarrow> (Inl err, srv)
      | None \<Rightarrow>
          let backendType = getSnapshotBackendType s (ar_backend_config req) in
          (case map_of (backendMap s) backendType of
             None \<Rightarrow> (Inl (Status Code_NotFound (errorf [''backend '', backendType, '' not found''])), srv)
           | Some backend \<Rightarrow>
               let srv1 = srv\<lparr>srv_state := ensureJobRunningIfOccupied s env (ar_job_id req) (ar_group req) (srv_state srv)\<rparr> in
               (case buildSnapshotFn s env (ar_job_id req) backendType backend (ar_backend_config req) of
                  Inl fnErr \<Rightarrow> (Inl fnErr, srv1)
                | Inr snapshotFn \<Rightarrow>
                    keep_worker opID snapshotFn
                      (StartSnapshotSlot opID now (ar_job_id req) (ar_group req)
                        (memoryRegionsSlot (ar_backend_config req) (ar_job_id req)) (srv_state srv1)) srv1)))"

definition agent_Restore ::
  "'w server_cfg \<Rightarrow> string \<Rightarrow> int \<Rightarrow> agent_request \<Rightarrow> 'w Server \<Rightarrow> (go_error + string) \<times> 'w Server" where
  "agent_Restore s opID now req srv =
     (case checkFeatureGates s (ar_backend_config req) of
        Some err \<Rightarrow> (Inl err, srv)
      | None \<Rightarrow>
          let backendType = getSnapshotBackendType s (ar_backend_config req) in
          (case map_of (backendMap s) backendType of
             None \<Rightarrow> (Inl (Status Code_NotFound (errorf [''backend '', backendType, '' not found''])), srv)
           | Some backend \<Rightarrow>
               (case buildRestoreFn s (ar_job_id req) backendType backend (ar_backend_config req) of
                  Inl fnErr \<Rightarrow> (Inl fnErr, srv)
                | Inr restoreFn \<Rightarrow>
                    keep_worker opID restoreFn
                      (StartRestoreSlot opID now (ar_job_id req) (ar_group req)
                        (memoryRegionsSlot (ar_backend_config req) (ar_job_id req)) (srv_state srv)) srv)))"

text \<open>The goroutine of an operation: its worker, then its end under the manager's mutex.\<close>

definition run_operation :: "int \<Rightarrow> (go_error \<Rightarrow> string) \<Rightarrow> Goroutine \<Rightarrow> 'w Server \<Rightarrow> 'w Server" where
  "run_operation now errText g srv =
     (case map_of (srv_workers srv) (go_op g) of
        None \<Rightarrow> srv
      | Some fn \<Rightarrow>
          (case fn (srv_state srv, srv_world srv) of
             (err, sm, w) \<Rightarrow> srv\<lparr>srv_state := finish now errText g err sm, srv_world := w\<rparr>))"

text \<open>Durations in whole milliseconds, truncated towards zero.\<close>

definition Milliseconds :: "int \<Rightarrow> int" where
  "Milliseconds d = sgn d * (\<bar>d\<bar> div 1000000)"

definition agent_GetOperation :: "int \<Rightarrow> string \<Rightarrow> 'w Server \<Rightarrow> go_error + GetOperationResponse" where
  "agent_GetOperation now opID srv =
     (case sm_GetOperation opID (srv_state srv) of
        None \<Rightarrow> Inl (Status Code_NotFound (errorf [''operation '', opID, '' not found'']))
      | Some op \<Rightarrow>
          Inr \<lparr>gor_status = op_Status op,
               gor_storage_bytes = (if op_Status op = OPERATION_STATUS_COMPLETE then Some (op_StorageBytes op) else None),
               gor_snapshot_device_bytes = (if op_Status op = OPERATION_STATUS_COMPLETE then Some (op_SnapshotDeviceBytes op) else None),
               gor_elapsed_ms = (case op_FinishedAt op of
                    None \<Rightarrow> Milliseconds (now - op_StartedAt op)
                  | Some t \<Rightarrow> Milliseconds (t - op_StartedAt op)),
               gor_error = (if op_Status op = OPERATION_STATUS_FAILED then Some (op_Error op) else None)\<rparr>)"

definition agent_Status :: "'w Server \<Rightarrow> JobStatus list" where
  "agent_Status srv = GetJobStatus (srv_state srv)"

datatype ServingStatus = SERVING | NOT_SERVING

definition Check ::
  "(BackendType \<times> 'w Backend) list \<Rightarrow> BackendType \<Rightarrow> string \<Rightarrow> 'w \<Rightarrow> (go_error + ServingStatus) \<times> 'w" where
  "Check bmap dflt service w =
     (let backendType = (if service = [] then dflt else service) in
      case map_of bmap backendType of
        None \<Rightarrow> (Inl (Status Code_NotFound (errorf [''backend '', backendType, '' not found''])), w)
      | Some backend \<Rightarrow>
          (case be_HealthCheck backend w of
             (Some err, w') \<Rightarrow> (Inr NOT_SERVING, w')
           | (None, w') \<Rightarrow> (Inr SERVING, w')))"

subsection \<open>Properties of process discovery and of the workers\<close>

lemma getPIDsFromPods_strings: "getPIDsFromPods env pods = Inr (ps, strs) \<Longrightarrow> strs = map Itoa ps"
  by (induction env pods arbitrary: ps strs rule: getPIDsFromPods.induct)
    (auto split: sum.splits prod.splits)

lemma resolvePIDs_strings:
  "resolvePIDs env jobID req = Inr (ps, strs) \<Longrightarrow> strs = map Itoa ps \<and> ps \<noteq> []"
  by (auto simp: resolvePIDs_def dest: getPIDsFromPods_strings split: if_splits sum.splits prod.splits)

text \<open>The three backends that act on discovered processes, with their configurations.\<close>

definition pid_backends :: "BackendType list" where
  "pid_backends = [BackendCuda, BackendDirectMemory, BackendTpu]"

definition pid_config_of :: "BackendType \<Rightarrow> string list \<Rightarrow> go_error + BackendConfig" where
  "pid_config_of bt strs = (if bt = BackendTpu then Inr (BuildTpuConfig strs) else build_pid_config bt strs)"

definition explicit_pids :: "BackendType \<Rightarrow> BackendConfig option \<Rightarrow> int list" where
  "explicit_pids bt config = (if bt = BackendTpu then extractExplicitTpuPIDs config else extractExplicitPIDs config)"

lemma pid_config_of_ok: "bt \<in> set pid_backends \<Longrightarrow> list_all is_int32 ps \<Longrightarrow> \<exists>c. pid_config_of bt (map Itoa ps) = Inr c"
  using dm_config.pack_ok by (auto simp: pid_config_of_def build_pid_config_def)

lemma pid_config_of_Cuda: "pid_config_of BackendCuda strs = Inr (BuildCudaConfig strs)"
  by (simp add: pid_config_of_def build_pid_config_def backend_names)

text \<open>A worker of these backends: discovery, then the backend, or the error.\<close>

lemma buildSnapshotFn_pids:
  assumes "deploymentMode s = ''k8s''" and "bt \<in> set pid_backends"
    and "buildSnapshotFn s env j bt be config = Inr fn"
  shows "fn st =
     (case resolvePIDs env j (explicit_pids bt config) of
        Inl pidErr \<Rightarrow> (Some pidErr, st)
      | Inr (ps, strs) \<Rightarrow>
          (case pid_config_of bt strs of
             Inl cfgErr \<Rightarrow> (Some (Wrap (errorf [''failed to build backend config for job '', j]) cfgErr), st)
           | Inr c \<Rightarrow> snapshot_pids be j c ps st))"
  using assms
  by (auto simp: buildSnapshotFn_def pid_backends_def pid_config_of_def explicit_pids_def backend_names Let_def
      split: sum.splits)

lemma buildRestoreFn_pids:
  assumes "deploymentMode s = ''k8s''" and "bt \<in> set pid_backends"
    and "buildRestoreFn s j bt be config = Inr fn"
  shows "fn st =
     (case kept_pid_strings j (fst st) of
        Inl err \<Rightarrow> (Some err, st)
      | Inr strs \<Rightarrow>
          (case pid_config_of bt strs of
             Inl cfgErr \<Rightarrow> (Some (Wrap (errorf [''failed to build backend config for job '', j]) cfgErr), st)
           | Inr c \<Rightarrow> call_backend (be_Restore be) j (Some c) st))"
  using assms
  by (auto simp: buildRestoreFn_def pid_backends_def pid_config_of_def backend_names split: sum.splits)

text \<open>A successful snapshot ends with the kept numbers; ending and restarting keep them.\<close>

lemma GetJobPIDs_UpdateJobPIDs:
  "map_of (sm_jobs sm) j \<noteq> None \<Longrightarrow> ps \<noteq> [] \<Longrightarrow> GetJobPIDs j (UpdateJobPIDs j ps sm) = Inr ps"
  by (auto simp: GetJobPIDs_def UpdateJobPIDs_def set_job_def)

lemma GetJobPIDs_cong:
  "map_option aj_PIDs (map_of (sm_jobs sm) j) = map_option aj_PIDs (map_of (sm_jobs sm') j) \<Longrightarrow> GetJobPIDs j sm = GetJobPIDs j sm'"
  by (cases "map_of (sm_jobs sm) j"; cases "map_of (sm_jobs sm') j") (auto simp: GetJobPIDs_def)

lemma GetJobPIDs_finish_ok: "GetJobPIDs j (finish now f g None sm) = GetJobPIDs j sm"
  by (rule GetJobPIDs_cong)
    (auto simp: finish_def set_job_def snapshot_job_def restore_job_def split: option.splits OpType.splits)

lemma GetJobPIDs_StartRestoreSlot:
  assumes "map_of (sm_jobs sm) j \<noteq> None"
  shows "GetJobPIDs j (snd (StartRestoreSlot i now j grp slot sm)) = GetJobPIDs j sm"
  by (rule GetJobPIDs_cong)
    (use assms in \<open>auto simp: StartRestoreSlot_def getOrCreateJob_def launch_def set_job_def\<close>)

lemma GetJobPIDs_known: "GetJobPIDs j sm = Inr ps \<Longrightarrow> map_of (sm_jobs sm) j \<noteq> None"
  by (auto simp: GetJobPIDs_def split: option.splits)

text \<open>C37: A restore acts on the processes that were snapshotted. In k8s mode, for the CUDA, direct
  memory and TPU backends: when the worker of a snapshot succeeds, it has called the backend with
  a configuration \<open>c\<close> that names at least one process; after the operation has ended and a
  restore has been started, the restore's worker calls the backend's restore with the very same
  configuration \<open>c\<close>, whatever configuration the restore request carried. (Process numbers are
  32-bit.)
\<close>

theorem restore_targets_snapshotted_processes:
  assumes "deploymentMode s = ''k8s''" and "bt \<in> set pid_backends"
    and "buildSnapshotFn s env j bt be config = Inr snap" and "snap (sm, w) = (None, sm1, w1)"
    and "map_of (sm_jobs sm) j \<noteq> None"
    and "\<forall>ps strs. resolvePIDs env j (explicit_pids bt config) = Inr (ps, strs) \<longrightarrow> list_all is_int32 ps"
    and "buildRestoreFn s j bt be config' = Inr rest"
    and "sm2 = snd (StartRestoreSlot i t j grp slot (finish t' f g None sm1))"
  shows "\<exists>c ps. ps \<noteq> [] \<and> pid_config_of bt (map Itoa ps) = Inr c \<and>
    be_Snapshot be \<lparr>rq_JobID = j, rq_Config = Some c\<rparr> w = (None, w1) \<and>
    rest (sm2, v) =
      (fst (be_Restore be \<lparr>rq_JobID = j, rq_Config = Some c\<rparr> v), (sm2, snd (be_Restore be \<lparr>rq_JobID = j, rq_Config = Some c\<rparr> v)))"
proof -
  note snap = buildSnapshotFn_pids[OF assms(1,2,3), of "(sm, w)", unfolded assms(4)]
  from snap obtain ps strs where r: "resolvePIDs env j (explicit_pids bt config) = Inr (ps, strs)"
    by (auto split: sum.splits)
  note st = resolvePIDs_strings[OF r]
  from pid_config_of_ok[OF assms(2) assms(6)[rule_format, OF r]] obtain c where c: "pid_config_of bt (map Itoa ps) = Inr c" by blast
  from snap r st c have sp: "snapshot_pids be j c ps (sm, w) = (None, sm1, w1)" by auto
  then have b: "be_Snapshot be \<lparr>rq_JobID = j, rq_Config = Some c\<rparr> w = (None, w1)" and sm1: "sm1 = UpdateJobPIDs j ps sm"
    by (auto simp: snapshot_pids_def call_backend_def split: prod.splits option.splits)
  have "GetJobPIDs j sm1 = Inr ps" unfolding sm1 using assms(5) st by (simp add: GetJobPIDs_UpdateJobPIDs)
  then have "GetJobPIDs j (finish t' f g None sm1) = Inr ps" by (simp add: GetJobPIDs_finish_ok)
  then have k: "GetJobPIDs j sm2 = Inr ps"
    unfolding assms(8) using GetJobPIDs_known GetJobPIDs_StartRestoreSlot by metis
  have "rest (sm2, v) = call_backend (be_Restore be) j (Some c) (sm2, v)"
    by (simp add: buildRestoreFn_pids[OF assms(1,2,7)] kept_pid_strings_def k c)
  then show ?thesis using b c st
    by (intro exI[of _ c] exI[of _ ps]) (simp add: call_backend_def split: prod.splits)
qed

text \<open>An agent in k8s mode with the CUDA backend, and a job with one pod and two processes.\<close>

definition demo_cfg :: "(cmd list) server_cfg" where
  "demo_cfg = \<lparr>backendMap = [(BackendCuda, NewCudaCheckpoint one_failure_host)], defaultBackend = BackendCuda,
     deploymentMode = ''k8s'', featureGates = []\<rparr>"

definition demo_env :: pod_env where
  "demo_env = \<lparr>pe_GetLocalPods = (\<lambda>j. Inr [(''p'', ''ns'')]), pe_GetPodPIDs = (\<lambda>p ns. Inr [7, 8]), pe_HasGPUProcesses = Inr True\<rparr>"

lemma demo_facts:
  "deploymentMode demo_cfg = ''k8s''" "BackendCuda \<in> set pid_backends"
  "resolvePIDs demo_env ''j'' [] = Inr ([7, 8], [''7'', ''8''])"
  "cuda_Snapshot one_failure_host \<lparr>rq_JobID = ''j'', rq_Config = Some (Cuda (Some [7, 8]))\<rparr> [] =
     (None, [Exec ''cuda-checkpoint'' [''--action'', ''lock'', ''--pid'', ''7'', ''--pid'', ''8''],
             Exec ''cuda-checkpoint'' [''--action'', ''checkpoint'', ''--pid'', ''7'', ''--pid'', ''8'']])"
  "BuildCudaConfig [''7'', ''8''] = Cuda (Some [7, 8])"
  by code_simp+

lemma restore_targets_snapshotted_processes_witness:
  "\<exists>c ps rest. ps \<noteq> [] \<and> pid_config_of BackendCuda (map Itoa ps) = Inr c \<and>
    buildRestoreFn demo_cfg ''j'' BackendCuda (NewCudaCheckpoint one_failure_host) None = Inr rest \<and>
    fst (rest (snd (StartRestoreSlot ''op2'' 1 ''j'' ''g'' [] (finish 0 (\<lambda>e. []) \<lparr>go_op = ''op'', go_job = ''j'', go_slot = []\<rparr> None
       (UpdateJobPIDs ''j'' [7, 8] busy_manager))), [])) = fst (cuda_Restore one_failure_host \<lparr>rq_JobID = ''j'', rq_Config = Some c\<rparr> [])"
proof -
  let ?be = "NewCudaCheckpoint one_failure_host"
  obtain snap where sn: "buildSnapshotFn demo_cfg demo_env ''j'' BackendCuda ?be None = Inr snap"
    using demo_facts(1) by (simp add: buildSnapshotFn_def)
  obtain rest where rs: "buildRestoreFn demo_cfg ''j'' BackendCuda ?be None = Inr rest"
    using demo_facts(1) by (simp add: buildRestoreFn_def)
  have e: "explicit_pids BackendCuda None = []" by (simp add: explicit_pids_def extractExplicitPIDs_def extractExplicitTpuPIDs_def)
  have run: "snap (busy_manager, []) = (None, UpdateJobPIDs ''j'' [7, 8] busy_manager,
      snd (cuda_Snapshot one_failure_host \<lparr>rq_JobID = ''j'', rq_Config = Some (Cuda (Some [7, 8]))\<rparr> []))"
    by (simp add: buildSnapshotFn_pids[OF demo_facts(1,2) sn] e demo_facts pid_config_of_Cuda
        snapshot_pids_def call_backend_def NewCudaCheckpoint_def)
  have k: "map_of (sm_jobs busy_manager) ''j'' \<noteq> None" using busy_manager_reachable(4) by (auto simp: job_state_def)
  have p: "\<forall>ps strs. resolvePIDs demo_env ''j'' (explicit_pids BackendCuda None) = Inr (ps, strs) \<longrightarrow> list_all is_int32 ps"
    by (auto simp: e demo_facts is_int32_def)
  let ?sm2 = "snd (StartRestoreSlot ''op2'' 1 ''j'' ''g'' [] (finish 0 (\<lambda>e. []) \<lparr>go_op = ''op'', go_job = ''j'', go_slot = []\<rparr> None
       (UpdateJobPIDs ''j'' [7, 8] busy_manager)))"
  from restore_targets_snapshotted_processes[where i = "''op2''" and t = 1 and grp = "''g''" and slot = "[]" and t' = 0
      and f = "\<lambda>e. []" and g = "\<lparr>go_op = ''op'', go_job = ''j'', go_slot = []\<rparr>" and v = "[]",
      OF demo_facts(1,2) sn run k p rs refl]
  obtain c ps where c: "ps \<noteq> []" "pid_config_of BackendCuda (map Itoa ps) = Inr c" and
    r: "rest (?sm2, []) = (fst (be_Restore ?be \<lparr>rq_JobID = ''j'', rq_Config = Some c\<rparr> []),
        (?sm2, snd (be_Restore ?be \<lparr>rq_JobID = ''j'', rq_Config = Some c\<rparr> [])))"
    by (elim exE conjE)
  have "fst (rest (?sm2, [])) = fst (cuda_Restore one_failure_host \<lparr>rq_JobID = ''j'', rq_Config = Some c\<rparr> [])"
    unfolding r by (simp add: NewCudaCheckpoint_def)
  with rs c show ?thesis by blast
qed

subsection \<open>Operations from request to end\<close>

lemma keep_worker_launched:
  assumes "StartSnapshotSlot i now j grp slot sm = (Inr i, sm')"
  shows "keep_worker i fn (StartSnapshotSlot i now j grp slot sm) srv =
    (Inr i, srv\<lparr>srv_state := sm', srv_workers := AList.update i fn (srv_workers srv)\<rparr>)"
  using assms by (simp add: keep_worker_def)

lemma StartSnapshotSlot_launched:
  assumes "StartSnapshotSlot i now j grp slot sm = (Inr i', sm')"
  shows "i' = i" and "map_of (sm_operations sm') i = Some (newOperation i now j OpTypeSnapshot)"
    and "job_state sm' j = Some JOB_STATE_TRANSITIONING"
  using assms by (auto simp: StartSnapshotSlot_def launch_def set_job_def job_state_def split: prod.splits if_splits)

text \<open>What a snapshot request leaves behind when it is accepted.\<close>

lemma agent_Snapshot_accepted:
  assumes "agent_Snapshot s env i now req srv = (Inr i', srv')"
  obtains be fn where
    "map_of (backendMap s) (getSnapshotBackendType s (ar_backend_config req)) = Some be"
    "buildSnapshotFn s env (ar_job_id req) (getSnapshotBackendType s (ar_backend_config req)) be (ar_backend_config req) = Inr fn"
    "map_of (srv_workers srv') i = Some fn" "srv_world srv' = srv_world srv"
    "map_of (sm_operations (srv_state srv')) i = Some (newOperation i now (ar_job_id req) OpTypeSnapshot)"
    "job_state (srv_state srv') (ar_job_id req) = Some JOB_STATE_TRANSITIONING"
proof -
  let ?bt = "getSnapshotBackendType s (ar_backend_config req)"
  let ?sm = "ensureJobRunningIfOccupied s env (ar_job_id req) (ar_group req) (srv_state srv)"
  let ?start = "StartSnapshotSlot i now (ar_job_id req) (ar_group req) (memoryRegionsSlot (ar_backend_config req) (ar_job_id req)) ?sm"
  from assms obtain be fn where b: "map_of (backendMap s) ?bt = Some be"
    "buildSnapshotFn s env (ar_job_id req) ?bt be (ar_backend_config req) = Inr fn"
    and k: "keep_worker i fn ?start (srv\<lparr>srv_state := ?sm\<rparr>) = (Inr i', srv')"
    by (auto simp: agent_Snapshot_def Let_def split: option.splits sum.splits)
  obtain sm' where st: "?start = (Inr i', sm')" using k by (cases ?start) (auto simp: keep_worker_def)
  note l = StartSnapshotSlot_launched[OF st]
  from keep_worker_launched[of i now _ _ _ _ sm' fn] st k l(1)
  have "srv' = srv\<lparr>srv_state := sm', srv_workers := AList.update i fn (srv_workers srv)\<rparr>" by auto
  with that[OF b] l show thesis by auto
qed

lemma resolvePIDs_exited:
  assumes "pe_GetLocalPods env j = Inr pods" and "getPIDsFromPods env pods = Inr ([], [])"
  shows "\<exists>e. resolvePIDs env j [] = Inl e \<and> errors_is e ErrNoLiveProcesses"
  using assms by (cases "pods = []") (auto simp: resolvePIDs_def)

text \<open>
  A snapshot of a workload that has exited frees its job. In k8s mode, for the CUDA, direct
  memory and TPU backends, when discovery finds no pod of the job or no process in its pods, an
  accepted snapshot ends with the operation COMPLETE, the job IDLE without process numbers, and
  without a call to the backend: the job does not end up FAULTED and does not block its group.
\<close>

theorem exited_workload_frees_its_job:
  assumes "agent_Snapshot s env i now req srv = (Inr i', srv')"
    and "deploymentMode s = ''k8s''" and "getSnapshotBackendType s (ar_backend_config req) \<in> set pid_backends"
    and "explicit_pids (getSnapshotBackendType s (ar_backend_config req)) (ar_backend_config req) = []"
    and "pe_GetLocalPods env (ar_job_id req) = Inr pods" and "getPIDsFromPods env pods = Inr ([], [])"
    and "srv'' = run_operation t f \<lparr>go_op = i, go_job = ar_job_id req, go_slot = slot\<rparr> srv'"
  shows "(\<exists>op. sm_GetOperation i (srv_state srv'') = Some op \<and> op_Status op = OPERATION_STATUS_COMPLETE) \<and>
    job_state (srv_state srv'') (ar_job_id req) = Some JOB_STATE_IDLE \<and>
    (\<exists>e. GetJobPIDs (ar_job_id req) (srv_state srv'') = Inl e) \<and> srv_world srv'' = srv_world srv"
proof -
  let ?j = "ar_job_id req" and ?bt = "getSnapshotBackendType s (ar_backend_config req)"
  from assms(1) obtain be fn where a:
    "buildSnapshotFn s env ?j ?bt be (ar_backend_config req) = Inr fn"
    "map_of (srv_workers srv') i = Some fn" "srv_world srv' = srv_world srv"
    "map_of (sm_operations (srv_state srv')) i = Some (newOperation i now ?j OpTypeSnapshot)"
    "job_state (srv_state srv') ?j = Some JOB_STATE_TRANSITIONING"
    by (rule agent_Snapshot_accepted)
  obtain e where r: "resolvePIDs env ?j [] = Inl e" "errors_is e ErrNoLiveProcesses"
    using resolvePIDs_exited[OF assms(5,6)] by blast
  have fn: "fn st = (Some e, st)" for st
    using buildSnapshotFn_pids[OF assms(2,3) a(1)] assms(4) r(1) by simp
  from a(5) obtain job where job: "map_of (sm_jobs (srv_state srv')) ?j = Some job" by (auto simp: job_state_def)
  show ?thesis
    unfolding assms(7) using a job r(2)
    by (auto simp: run_operation_def fn finish_def newOperation_def snapshot_op_def snapshot_job_def Let_def
        sm_GetOperation_def job_state_def set_job_def GetJobPIDs_def)
qed

definition running_server :: "(cmd list) Server" where
  "running_server = (NewServer [])\<lparr>srv_state := snd (TransitionToRunning ''j'' [7] (RegisterJob ''j'' ''g'' NewStateManager))\<rparr>"

lemma running_server_snapshot:
  "fst (agent_Snapshot demo_cfg (demo_env\<lparr>pe_GetLocalPods := \<lambda>j. Inr []\<rparr>) ''op'' 5 \<lparr>ar_job_id = ''j'', ar_group = ''g'', ar_backend_config = None\<rparr> running_server)
     = Inr ''op''"
  by (simp add: agent_Snapshot_def checkFeatureGates_def getSnapshotBackendType_def demo_cfg_def buildSnapshotFn_def
      ensureJobRunningIfOccupied_def memoryRegionsSlot_def keep_worker_def running_server_def NewServer_def
      TransitionToRunning_def transitionTo_def RegisterJob_def getOrCreateJob_def
      NewStateManager_def set_job_def newAgentJob_def StartSnapshotSlot_def Let_def)

lemma exited_workload_frees_its_job_witness:
  "\<exists>srv'. agent_Snapshot demo_cfg (demo_env\<lparr>pe_GetLocalPods := \<lambda>j. Inr []\<rparr>) ''op'' 5 \<lparr>ar_job_id = ''j'', ar_group = ''g'', ar_backend_config = None\<rparr> running_server
     = (Inr ''op'', srv') \<and>
   job_state (srv_state (run_operation 9 (\<lambda>e. []) \<lparr>go_op = ''op'', go_job = ''j'', go_slot = []\<rparr> srv')) ''j'' = Some JOB_STATE_IDLE"
proof -
  let ?env = "demo_env\<lparr>pe_GetLocalPods := \<lambda>j. Inr []\<rparr>"
  let ?req = "\<lparr>ar_job_id = ''j'', ar_group = ''g'', ar_backend_config = None\<rparr>"
  obtain srv' where a: "agent_Snapshot demo_cfg ?env ''op'' 5 ?req running_server = (Inr ''op'', srv')"
    using running_server_snapshot by (metis prod.collapse)
  have bt: "getSnapshotBackendType demo_cfg (ar_backend_config ?req) = BackendCuda"
    by (simp add: getSnapshotBackendType_def demo_cfg_def)
  have e: "explicit_pids (getSnapshotBackendType demo_cfg (ar_backend_config ?req)) (ar_backend_config ?req) = []"
    by (simp add: explicit_pids_def extractExplicitPIDs_def extractExplicitTpuPIDs_def)
  have b: "getSnapshotBackendType demo_cfg (ar_backend_config ?req) \<in> set pid_backends" unfolding bt by (rule demo_facts(2))
  have p: "pe_GetLocalPods ?env (ar_job_id ?req) = Inr []" by simp
  have q: "getPIDsFromPods ?env [] = Inr ([], [])" by simp
  from exited_workload_frees_its_job[OF a demo_facts(1) b e p q refl, of 9 "\<lambda>e. []" "[]"] a
  show ?thesis by simp
qed

subsection \<open>Feature gates\<close>

text \<open>C38: The feature gate of the direct memory backend does not cover the default backend. A
  request that names a direct memory configuration is refused while the gate is off, without any
  effect. But when the agent's default backend is direct memory, a snapshot request without a
  configuration is accepted with the gate off, and its worker checkpoints the discovered processes
  with the direct memory backend.
\<close>

theorem default_backend_bypasses_gate:
  assumes "\<not> Enabled (featureGates s) DirectMemoryBackend"
    and "defaultBackend s = BackendDirectMemory" and "map_of (backendMap s) BackendDirectMemory = Some be"
    and "deploymentMode s = ''k8s''" and "job_state (srv_state srv) (ar_job_id req) = Some JOB_STATE_RUNNING"
    and "ar_backend_config req = None"
    and "resolvePIDs env (ar_job_id req) [] = Inr (ps, strs)" and "list_all is_int32 ps"
  shows "agent_Snapshot s env i now (req\<lparr>ar_backend_config := Some (DirectMemory t)\<rparr>) srv =
      (Inl (disabled_error ''direct_memory'' DirectMemoryBackend), srv) \<and>
    (\<exists>srv' fn. agent_Snapshot s env i now req srv = (Inr i, srv') \<and> map_of (srv_workers srv') i = Some fn \<and>
      (\<forall>st. fn st = snapshot_pids be (ar_job_id req) (DirectMemory (Some ps)) ps st))"
proof -
  let ?j = "ar_job_id req"
  have g: "agent_Snapshot s env i now (req\<lparr>ar_backend_config := Some (DirectMemory t)\<rparr>) srv =
      (Inl (disabled_error ''direct_memory'' DirectMemoryBackend), srv)"
    using assms(1) by (simp add: agent_Snapshot_def checkFeatureGates_def)
  have bt: "getSnapshotBackendType s None = BackendDirectMemory" by (simp add: getSnapshotBackendType_def assms(2))
  have pb: "BackendDirectMemory \<in> set pid_backends" by (simp add: pid_backends_def)
  obtain fn where fn: "buildSnapshotFn s env ?j BackendDirectMemory be None = Inr fn"
    using assms(4) by (simp add: buildSnapshotFn_def)
  have c: "pid_config_of BackendDirectMemory strs = Inr (DirectMemory (Some ps))"
    using resolvePIDs_strings[OF assms(7)] checked_pids_Itoa[OF assms(8)]
    by (simp add: pid_config_of_def build_pid_config_def BuildDirectMemoryConfig_def backend_names)
  have ex: "explicit_pids BackendDirectMemory None = []"
    by (simp add: explicit_pids_def extractExplicitPIDs_def extractExplicitTpuPIDs_def)
  have run: "fn st = snapshot_pids be ?j (DirectMemory (Some ps)) ps st" for st
    by (simp add: buildSnapshotFn_pids[OF assms(4) pb fn] ex assms(7) c)
  from assms(5) obtain job where "map_of (sm_jobs (srv_state srv)) ?j = Some job" "aj_State job = JOB_STATE_RUNNING"
    by (auto simp: job_state_def)
  then have "fst (StartSnapshotSlot i now ?j (ar_group req) [] (srv_state srv)) = Inr i"
    by (simp add: StartSnapshotSlot_def getOrCreateJob_def)
  with fn have "\<exists>srv'. agent_Snapshot s env i now req srv = (Inr i, srv') \<and> map_of (srv_workers srv') i = Some fn"
    by (simp add: agent_Snapshot_def assms(3,4,6) bt checkFeatureGates_def ensureJobRunningIfOccupied_def
        memoryRegionsSlot_def keep_worker_def)
  with g run show ?thesis by blast
qed

definition dm_cfg :: "(cmd list) server_cfg" where
  "dm_cfg = \<lparr>backendMap = [(BackendDirectMemory, NewDirectMemory one_failure_host)], defaultBackend = BackendDirectMemory,
     deploymentMode = ''k8s'', featureGates = []\<rparr>"

lemma default_backend_bypasses_gate_witness:
  "\<not> Enabled (featureGates dm_cfg) DirectMemoryBackend \<and>
   (\<exists>srv' fn. agent_Snapshot dm_cfg demo_env ''op'' 5 \<lparr>ar_job_id = ''j'', ar_group = ''g'', ar_backend_config = None\<rparr> running_server = (Inr ''op'', srv') \<and>
     map_of (srv_workers srv') ''op'' = Some fn \<and>
     fn (NewStateManager, []) = snapshot_pids (NewDirectMemory one_failure_host) ''j'' (DirectMemory (Some [7, 8])) [7, 8] (NewStateManager, []))"
proof -
  let ?req = "\<lparr>ar_job_id = ''j'', ar_group = ''g'', ar_backend_config = None\<rparr>"
  have a: "\<not> Enabled (featureGates dm_cfg) DirectMemoryBackend"
    by (simp add: dm_cfg_def Enabled_def gate_defaults_def)
  have b: "defaultBackend dm_cfg = BackendDirectMemory" "deploymentMode dm_cfg = ''k8s''"
    "map_of (backendMap dm_cfg) BackendDirectMemory = Some (NewDirectMemory one_failure_host)"
    by (simp_all add: dm_cfg_def)
  have r: "resolvePIDs demo_env (ar_job_id ?req) [] = Inr ([7, 8], [''7'', ''8''])" using demo_facts(3) by simp
  have j: "job_state (srv_state running_server) (ar_job_id ?req) = Some JOB_STATE_RUNNING"
    by (simp add: running_server_def NewServer_def TransitionToRunning_def transitionTo_def RegisterJob_def
        getOrCreateJob_def NewStateManager_def set_job_def newAgentJob_def Let_def job_state_def)
  have c: "ar_backend_config ?req = None" and i: "list_all is_int32 [7, 8]" by (simp_all add: is_int32_def)
  from default_backend_bypasses_gate[OF a b(1,3,2) j c r i, THEN conjunct2, of "''op''" 5] a show ?thesis by auto
qed

end
