(* ===== verification/Pod_Utils.thy ===== *)
theory Pod_Utils
  imports Go_Text "HOL-Library.Word"
begin

text \<open>
  Process discovery on GPU nodes (\<^verbatim>\<open>utils/pod-utils.go\<close>): which processes of a pod hold
  GPU memory and how much. NVML, the Kubernetes client, the environment and the file system are
  parameters. Memory sizes are 64-bit words, whose sum wraps as in Go.
\<close>

record ProcessInfo =
  pi_Pid :: int
  pi_UsedGpuMemory :: "64 word"

text \<open>
  A device: its compute and graphics processes, \<open>None\<close> where the NVML query fails. A device
  whose handle cannot be obtained is \<open>None\<close>. The left of the sums are NVML error texts.
\<close>

record Device =
  dev_compute :: "ProcessInfo list option"
  dev_graphics :: "ProcessInfo list option"

record nvml =
  nv_Init :: "string option"
  nv_DeviceGetCount :: "string + nat"
  nv_Device :: "nat \<Rightarrow> Device option"

record agent_pod =
  ap_Name :: string
  ap_Namespace :: string
  ap_Labels :: "(string \<times> string) list"

record k8s_client =
  kc_ListPods :: "string \<Rightarrow> string \<Rightarrow> go_error + agent_pod list"
  kc_GetPodUID :: "string \<Rightarrow> string \<Rightarrow> go_error + string"

definition JobIDLabel :: string where "JobIDLabel = ''timeslice.io/job-id''"
definition GroupLabel :: string where "GroupLabel = ''timeslice.io/group''"

definition nvmlValueNotAvailable :: "64 word" where
  "nvmlValueNotAvailable = - 1"

text \<open>\<^verbatim>\<open>HasGPUProcesses\<close>: the loop over the devices and the check around it.\<close>

fun any_compute :: "(nat \<Rightarrow> Device option) \<Rightarrow> nat list \<Rightarrow> bool" where
  "any_compute dev [] = False"
| "any_compute dev (i # is) =
     (case dev i of
        None \<Rightarrow> any_compute dev is
      | Some d \<Rightarrow>
          (case dev_compute d of
             None \<Rightarrow> any_compute dev is
           | Some procs \<Rightarrow> if length procs > 0 then True else any_compute dev is))"

definition HasGPUProcesses :: "nvml \<Rightarrow> go_error + bool" where
  "HasGPUProcesses nv =
     (case nv_Init nv of
        Some ret \<Rightarrow> Inl (Text (errorf [''failed to initialize NVML: '', ret]))
      | None \<Rightarrow>
          (case nv_DeviceGetCount nv of
             Inl ret \<Rightarrow> Inl (Text (errorf [''failed to get device count: '', ret]))
           | Inr count \<Rightarrow> Inr (any_compute (nv_Device nv) [0..<count])))"

text \<open>The environment variable \<^verbatim>\<open>NODE_NAME\<close> and the Kubernetes client are arguments.\<close>

definition GetLocalPods :: "string \<Rightarrow> go_error + k8s_client \<Rightarrow> string \<Rightarrow> go_error + agent_pod list" where
  "GetLocalPods nodeName client jobID =
     (if nodeName = [] then Inl (Text (errorf [''NODE_NAME environment variable not set'']))
      else
        (case client of
           Inl err \<Rightarrow> Inl (Wrap (errorf [''failed to create kubernetes clientset'']) err)
         | Inr cs \<Rightarrow>
             (case kc_ListPods cs (errorf [''spec.nodeName='', nodeName]) (errorf [JobIDLabel, ''='', jobID]) of
                Inl err \<Rightarrow> Inl (Wrap (errorf [''failed to list pods on node '', nodeName]) err)
              | Inr pods \<Rightarrow> Inr pods)))"

definition GetPodUID :: "go_error + k8s_client \<Rightarrow> string \<Rightarrow> string \<Rightarrow> go_error + string" where
  "GetPodUID client podName ns =
     (case client of Inl err \<Rightarrow> Inl err | Inr cs \<Rightarrow> kc_GetPodUID cs podName ns)"

text \<open>A file as \<^verbatim>\<open>os.Open\<close> and a scanner deliver it: an error, or its lines and the scanner's error.\<close>

type_synonym file_lines = "go_error + string list \<times> go_error option"

definition underscores :: "string \<Rightarrow> string" where
  "underscores uid = map (\<lambda>c. if c = CHR ''-'' then CHR ''_'' else c) uid"

definition IsPIDInPodCgroupInternal :: "file_lines \<Rightarrow> string \<Rightarrow> go_error option \<times> bool" where
  "IsPIDInPodCgroupInternal file podUID =
     (case file of
        Inl err \<Rightarrow> (Some err, False)
      | Inr (lines, scanErr) \<Rightarrow>
          if list_ex (\<lambda>line. Contains line podUID \<or> Contains line (underscores podUID)) lines then (None, True)
          else (scanErr, False))"

definition isPIDInPodCgroup :: "(string \<Rightarrow> file_lines) \<Rightarrow> int \<Rightarrow> string \<Rightarrow> go_error option \<times> bool" where
  "isPIDInPodCgroup fs pid podUID = IsPIDInPodCgroupInternal (fs (''/proc/'' @ Itoa pid @ ''/cgroup'')) podUID"

subsection \<open>The processes of a pod\<close>

record PodGPUInfo =
  gi_PIDs :: "int list"
  gi_TotalVRAMBytes :: "64 word"

text \<open>The loop state: the processes found so far, those seen on this device, and the sum.\<close>

record gpu_scan =
  sc_pids :: "int list"
  sc_device :: "int list"
  sc_total :: "64 word"

definition skip_proc :: "ProcessInfo \<Rightarrow> bool" where
  "skip_proc p \<longleftrightarrow> pi_UsedGpuMemory p = 0 \<or> pi_UsedGpuMemory p = nvmlValueNotAvailable"

definition count_proc :: "ProcessInfo \<Rightarrow> gpu_scan \<Rightarrow> gpu_scan" where
  "count_proc p sc =
     sc\<lparr>sc_device := pi_Pid p # sc_device sc,
        sc_pids := (if pi_Pid p \<in> set (sc_pids sc) then sc_pids sc else sc_pids sc @ [pi_Pid p]),
        sc_total := sc_total sc + pi_UsedGpuMemory p\<rparr>"

fun compute_loop :: "(int \<Rightarrow> bool) \<Rightarrow> ProcessInfo list \<Rightarrow> gpu_scan \<Rightarrow> gpu_scan" where
  "compute_loop inCgroup [] sc = sc"
| "compute_loop inCgroup (p # ps) sc =
     (if skip_proc p then compute_loop inCgroup ps sc
      else if \<not> inCgroup (pi_Pid p) then compute_loop inCgroup ps sc
      else compute_loop inCgroup ps (count_proc p sc))"

fun graphics_loop :: "(int \<Rightarrow> bool) \<Rightarrow> ProcessInfo list \<Rightarrow> gpu_scan \<Rightarrow> gpu_scan" where
  "graphics_loop inCgroup [] sc = sc"
| "graphics_loop inCgroup (p # ps) sc =
     (if skip_proc p then graphics_loop inCgroup ps sc
      else if pi_Pid p \<in> set (sc_device sc) then graphics_loop inCgroup ps sc
      else if \<not> inCgroup (pi_Pid p) then graphics_loop inCgroup ps sc
      else graphics_loop inCgroup ps (count_proc p sc))"

definition scan_device :: "(int \<Rightarrow> bool) \<Rightarrow> Device \<Rightarrow> gpu_scan \<Rightarrow> gpu_scan" where
  "scan_device inCgroup d sc =
     (let sc0 = sc\<lparr>sc_device := []\<rparr>;
          sc1 = (case dev_compute d of None \<Rightarrow> sc0 | Some procs \<Rightarrow> compute_loop inCgroup procs sc0)
      in (case dev_graphics d of None \<Rightarrow> sc1 | Some procs \<Rightarrow> graphics_loop inCgroup procs sc1))"

fun scan_devices :: "(int \<Rightarrow> bool) \<Rightarrow> (nat \<Rightarrow> Device option) \<Rightarrow> nat list \<Rightarrow> gpu_scan \<Rightarrow> gpu_scan" where
  "scan_devices inCgroup dev [] sc = sc"
| "scan_devices inCgroup dev (i # is) sc =
     (case dev i of
        None \<Rightarrow> scan_devices inCgroup dev is sc
      | Some d \<Rightarrow> scan_devices inCgroup dev is (scan_device inCgroup d sc))"

text \<open>A process whose cgroup cannot be read counts as not belonging to the pod.\<close>

definition in_cgroup :: "(string \<Rightarrow> file_lines) \<Rightarrow> string \<Rightarrow> int \<Rightarrow> bool" where
  "in_cgroup fs podUID pid =
     (case isPIDInPodCgroup fs pid podUID of (err, inCgroup) \<Rightarrow> err = None \<and> inCgroup)"

definition getPodGPUInfoInternal ::
  "nvml \<Rightarrow> (string \<Rightarrow> file_lines) \<Rightarrow> go_error + k8s_client \<Rightarrow> string \<Rightarrow> string \<Rightarrow> go_error + PodGPUInfo" where
  "getPodGPUInfoInternal nv fs client podName ns =
     (case GetPodUID client podName ns of
        Inl err \<Rightarrow> Inl (Wrap (errorf [''failed to get pod UID'']) err)
      | Inr podUID \<Rightarrow>
          (case nv_Init nv of
             Some ret \<Rightarrow> Inl (Text (errorf [''failed to initialize NVML: '', ret]))
           | None \<Rightarrow>
               (case nv_DeviceGetCount nv of
                  Inl ret \<Rightarrow> Inl (Text (errorf [''failed to get device count: '', ret]))
                | Inr count \<Rightarrow>
                    let sc = scan_devices (in_cgroup fs podUID) (nv_Device nv) [0..<count]
                               \<lparr>sc_pids = [], sc_device = [], sc_total = 0\<rparr>
                    in Inr \<lparr>gi_PIDs = sc_pids sc, gi_TotalVRAMBytes = sc_total sc\<rparr>)))"

definition GetPodPIDs ::
  "(string \<Rightarrow> string \<Rightarrow> go_error + PodGPUInfo) \<Rightarrow> string \<Rightarrow> string \<Rightarrow> go_error + int list" where
  "GetPodPIDs getInfo podName ns =
     (case getInfo podName ns of Inl err \<Rightarrow> Inl err | Inr info \<Rightarrow> Inr (gi_PIDs info))"

subsection \<open>Properties\<close>

text \<open>The processes on a device that are found: in the pod's cgroup, with a known amount of memory.\<close>

definition on_device :: "(int \<Rightarrow> bool) \<Rightarrow> Device \<Rightarrow> int set" where
  "on_device inCgroup d =
     {pi_Pid p | p. p \<in> set (case dev_compute d of None \<Rightarrow> [] | Some ps \<Rightarrow> ps) \<union> set (case dev_graphics d of None \<Rightarrow> [] | Some ps \<Rightarrow> ps) \<and>
        \<not> skip_proc p \<and> inCgroup (pi_Pid p)}"

definition found_pids :: "(int \<Rightarrow> bool) \<Rightarrow> ProcessInfo list \<Rightarrow> int set" where
  "found_pids inCgroup ps = {pi_Pid p | p. p \<in> set ps \<and> \<not> skip_proc p \<and> inCgroup (pi_Pid p)}"

lemma found_pids_simps [simp]:
  "found_pids f [] = {}"
  "found_pids f (p # ps) = (if skip_proc p \<or> \<not> f (pi_Pid p) then found_pids f ps else insert (pi_Pid p) (found_pids f ps))"
  by (auto simp: found_pids_def)

lemma count_proc_views [simp]:
  "set (sc_pids (count_proc p sc)) = insert (pi_Pid p) (set (sc_pids sc))"
  "set (sc_device (count_proc p sc)) = insert (pi_Pid p) (set (sc_device sc))"
  "distinct (sc_pids (count_proc p sc)) = distinct (sc_pids sc)"
  by (auto simp: count_proc_def)

lemma compute_loop_pids:
  "set (sc_pids (compute_loop f ps sc)) = set (sc_pids sc) \<union> found_pids f ps"
  "set (sc_device (compute_loop f ps sc)) = set (sc_device sc) \<union> found_pids f ps"
  "distinct (sc_pids (compute_loop f ps sc)) = distinct (sc_pids sc)"
  by (induction f ps sc rule: compute_loop.induct) auto

lemma graphics_loop_pids:
  "set (sc_device sc) \<subseteq> set (sc_pids sc) \<Longrightarrow>
     set (sc_pids (graphics_loop f ps sc)) = set (sc_pids sc) \<union> found_pids f ps"
  "distinct (sc_pids (graphics_loop f ps sc)) = distinct (sc_pids sc)"
  by (induction f ps sc rule: graphics_loop.induct) auto

lemma on_device_found:
  "on_device f d = found_pids f (case dev_compute d of None \<Rightarrow> [] | Some ps \<Rightarrow> ps) \<union> found_pids f (case dev_graphics d of None \<Rightarrow> [] | Some ps \<Rightarrow> ps)"
  by (auto simp: on_device_def found_pids_def)

lemma scan_device_pids:
  "set (sc_pids (scan_device f d sc)) = set (sc_pids sc) \<union> on_device f d"
  "distinct (sc_pids (scan_device f d sc)) = distinct (sc_pids sc)"
  by (auto simp: scan_device_def on_device_found Let_def compute_loop_pids graphics_loop_pids split: option.splits)

lemma scan_devices_pids:
  "set (sc_pids (scan_devices f dev is sc)) = set (sc_pids sc) \<union> (\<Union>i \<in> set is. case dev i of None \<Rightarrow> {} | Some d \<Rightarrow> on_device f d)"
  "distinct (sc_pids (scan_devices f dev is sc)) = distinct (sc_pids sc)"
  by (induction f dev "is" sc rule: scan_devices.induct) (auto simp: scan_device_pids split: option.splits)

text \<open>
  Discovery on a GPU node finds exactly the pod's processes that hold GPU memory. Whenever
  the query succeeds, the process numbers it returns are distinct, and they are exactly those of
  the processes that some readable device lists, as compute or graphics process, with a known,
  non-zero amount of memory, and whose cgroup is that of the pod.\<close>

theorem pod_gpu_processes_exact:
  assumes "getPodGPUInfoInternal nv fs client pod ns = Inr info"
    and "GetPodUID client pod ns = Inr uid" and "nv_DeviceGetCount nv = Inr count"
  shows "distinct (gi_PIDs info) \<and>
    (pid \<in> set (gi_PIDs info) \<longleftrightarrow>
      in_cgroup fs uid pid \<and>
      (\<exists>i < count. \<exists>d p. nv_Device nv i = Some d \<and> pi_Pid p = pid \<and> pi_UsedGpuMemory p \<notin> {0, - 1} \<and>
        ((\<exists>ps. dev_compute d = Some ps \<and> p \<in> set ps) \<or> (\<exists>ps. dev_graphics d = Some ps \<and> p \<in> set ps))))"
proof -
  let ?sc = "scan_devices (in_cgroup fs uid) (nv_Device nv) [0..<count] \<lparr>sc_pids = [], sc_device = [], sc_total = 0\<rparr>"
  have i: "gi_PIDs info = sc_pids ?sc"
    using assms by (auto simp: getPodGPUInfoInternal_def Let_def split: option.splits)
  have "distinct (gi_PIDs info)" unfolding i by (simp add: scan_devices_pids)
  moreover have "set (gi_PIDs info) = (\<Union>i \<in> {0..<count}. case nv_Device nv i of None \<Rightarrow> {} | Some d \<Rightarrow> on_device (in_cgroup fs uid) d)"
    unfolding i by (simp add: scan_devices_pids)
  ultimately show ?thesis
    by (auto simp: on_device_def skip_proc_def nvmlValueNotAvailable_def split: option.splits) fastforce+
qed

definition demo_nvml :: nvml where
  "demo_nvml = \<lparr>nv_Init = None, nv_DeviceGetCount = Inr 2,
     nv_Device = (\<lambda>i. if i = 0 then None else
       Some \<lparr>dev_compute = Some [\<lparr>pi_Pid = 7, pi_UsedGpuMemory = 5\<rparr>, \<lparr>pi_Pid = 8, pi_UsedGpuMemory = 0\<rparr>],
             dev_graphics = Some [\<lparr>pi_Pid = 7, pi_UsedGpuMemory = 5\<rparr>]\<rparr>)\<rparr>"

definition demo_client :: "go_error + k8s_client" where
  "demo_client = Inr \<lparr>kc_ListPods = (\<lambda>f l. Inr []), kc_GetPodUID = (\<lambda>p n. Inr ''a-b'')\<rparr>"

lemma demo_gpu_info:
  "getPodGPUInfoInternal demo_nvml (\<lambda>path. Inr ([''0::/kubepods'', ''1::/pod_a_b.slice''], None)) demo_client ''p'' ''ns'' =
     Inr \<lparr>gi_PIDs = [7], gi_TotalVRAMBytes = 5\<rparr>"
  by code_simp

lemma pod_gpu_processes_exact_witness:
  "distinct [7 :: int] \<and> in_cgroup (\<lambda>path. Inr ([''0::/kubepods'', ''1::/pod_a_b.slice''], None)) ''a-b'' 7"
proof -
  have u: "GetPodUID demo_client ''p'' ''ns'' = Inr ''a-b''" and c: "nv_DeviceGetCount demo_nvml = Inr 2" by code_simp+
  from pod_gpu_processes_exact[OF demo_gpu_info u c, of 7] show ?thesis by simp
qed

end
