(* ===== verification/Watcher.thy ===== *)
theory Watcher
  imports Agent_Server Pod_Utils
begin

text \<open>
  The pod watcher of the snapshot agent (\<^verbatim>\<open>server/watcher.go\<close>): jobs are registered when
  their pods appear on the node, and once a second the idle jobs are examined. The informer's
  store and the discovery functions are parameters. The examination of a job reads the node while
  other goroutines run; the transition it ends with checks again that the job is IDLE.
\<close>

record watcher_env =
  we_pods :: "agent_pod list"
  we_isTPU :: bool
  we_GetPodGPUInfo :: "string \<Rightarrow> string \<Rightarrow> go_error + PodGPUInfo"
  we_GetPodPIDs :: "string \<Rightarrow> string \<Rightarrow> go_error + int list"

definition registerPodJob :: "agent_pod \<Rightarrow> StateManager \<Rightarrow> StateManager" where
  "registerPodJob pod sm =
     (case map_of (ap_Labels pod) JobIDLabel of
        None \<Rightarrow> sm
      | Some jobID \<Rightarrow> RegisterJob jobID (get_str (ap_Labels pod) GroupLabel) sm)"

text \<open>The event handlers get an object of any type; only pods count.\<close>

definition handlePodAdd :: "agent_pod option \<Rightarrow> StateManager \<Rightarrow> StateManager" where
  "handlePodAdd obj sm = (case obj of None \<Rightarrow> sm | Some pod \<Rightarrow> registerPodJob pod sm)"

definition handlePodUpdate :: "agent_pod option \<Rightarrow> agent_pod option \<Rightarrow> StateManager \<Rightarrow> StateManager" where
  "handlePodUpdate oldObj newObj sm = (case newObj of None \<Rightarrow> sm | Some pod \<Rightarrow> registerPodJob pod sm)"

definition getLocalPodsForJob :: "watcher_env \<Rightarrow> string \<Rightarrow> agent_pod list" where
  "getLocalPodsForJob env jobID = filter (\<lambda>pod. get_str (ap_Labels pod) JobIDLabel = jobID) (we_pods env)"

text \<open>\<^verbatim>\<open>uint64(residueMB) * 1024 * 1024\<close>, when the threshold is positive.\<close>

definition thresholdBytes :: "int \<Rightarrow> 64 word" where
  "thresholdBytes residueMB = (if 0 < residueMB then of_int residueMB * 1024 * 1024 else 0)"

fun probe_pods :: "int \<Rightarrow> watcher_env \<Rightarrow> agent_pod list \<Rightarrow> int list \<Rightarrow> bool \<Rightarrow> int list \<times> bool" where
  "probe_pods residueMB env [] allPIDs hasActive = (allPIDs, hasActive)"
| "probe_pods residueMB env (pod # pods) allPIDs hasActive =
     (if we_isTPU env then
        (case we_GetPodPIDs env (ap_Name pod) (ap_Namespace pod) of
           Inr pids \<Rightarrow>
             if length pids > 0 then probe_pods residueMB env pods (allPIDs @ pids) True
             else probe_pods residueMB env pods allPIDs hasActive
         | Inl err \<Rightarrow> probe_pods residueMB env pods allPIDs hasActive)
      else
        (case we_GetPodGPUInfo env (ap_Name pod) (ap_Namespace pod) of
           Inl err \<Rightarrow> probe_pods residueMB env pods allPIDs hasActive
         | Inr info \<Rightarrow>
             if length (gi_PIDs info) = 0 then probe_pods residueMB env pods allPIDs hasActive
             else probe_pods residueMB env pods (allPIDs @ gi_PIDs info)
                    (if residueMB = 0 \<or> thresholdBytes residueMB < gi_TotalVRAMBytes info then True else hasActive)))"

definition examine_job :: "int \<Rightarrow> watcher_env \<Rightarrow> JobStatus \<Rightarrow> StateManager \<Rightarrow> StateManager" where
  "examine_job residueMB env st sm =
     (if js_state st \<noteq> JOB_STATE_IDLE then sm
      else
        (case probe_pods residueMB env (getLocalPodsForJob env (js_job_id st)) [] False of
           (allPIDs, hasActive) \<Rightarrow>
             if length allPIDs = 0 then sm
             else if hasActive then snd (TransitionToRunning (js_job_id st) allPIDs sm)
             else snd (TransitionToSaved (js_job_id st) allPIDs sm)))"

definition checkIdleJobs :: "int \<Rightarrow> watcher_env \<Rightarrow> StateManager \<Rightarrow> StateManager" where
  "checkIdleJobs residueMB env sm = fold (examine_job residueMB env) (GetJobStatus sm) sm"

text \<open>The detection loop: one examination per tick, until the context is done.\<close>

fun detectionLoop :: "int \<Rightarrow> (watcher_env + unit) list \<Rightarrow> StateManager \<Rightarrow> StateManager" where
  "detectionLoop residueMB [] sm = sm"
| "detectionLoop residueMB (Inr done # evs) sm = sm"
| "detectionLoop residueMB (Inl env # evs) sm = detectionLoop residueMB evs (checkIdleJobs residueMB env sm)"

subsection \<open>What an examination concludes\<close>

text \<open>The pods of a job that count: their processes, and whether they are active.\<close>

definition pod_pids :: "watcher_env \<Rightarrow> agent_pod \<Rightarrow> int list" where
  "pod_pids env pod =
     (if we_isTPU env then (case we_GetPodPIDs env (ap_Name pod) (ap_Namespace pod) of Inr ps \<Rightarrow> ps | Inl _ \<Rightarrow> [])
      else (case we_GetPodGPUInfo env (ap_Name pod) (ap_Namespace pod) of Inr info \<Rightarrow> gi_PIDs info | Inl _ \<Rightarrow> []))"

definition pod_active :: "int \<Rightarrow> watcher_env \<Rightarrow> agent_pod \<Rightarrow> bool" where
  "pod_active residueMB env pod \<longleftrightarrow>
     pod_pids env pod \<noteq> [] \<and>
     (we_isTPU env \<or> residueMB = 0 \<or>
      (\<exists>info. we_GetPodGPUInfo env (ap_Name pod) (ap_Namespace pod) = Inr info \<and> thresholdBytes residueMB < gi_TotalVRAMBytes info))"

lemma probe_pods_eq:
  "probe_pods residueMB env pods allPIDs act =
     (allPIDs @ concat (map (pod_pids env) pods), act \<or> list_ex (pod_active residueMB env) pods)"
  by (induction residueMB env pods allPIDs act rule: probe_pods.induct)
    (auto simp: pod_pids_def pod_active_def split: sum.splits)

definition job_pids :: "watcher_env \<Rightarrow> string \<Rightarrow> int list" where
  "job_pids env j = concat (map (pod_pids env) (getLocalPodsForJob env j))"

definition job_active :: "int \<Rightarrow> watcher_env \<Rightarrow> string \<Rightarrow> bool" where
  "job_active residueMB env j \<longleftrightarrow> list_ex (pod_active residueMB env) (getLocalPodsForJob env j)"

lemma transitionTo_other: "k \<noteq> j \<Longrightarrow> map_of (sm_jobs (snd (transitionTo t j ps sm))) k = map_of (sm_jobs sm) k"
  by (auto simp: transitionTo_def set_job_def split: option.splits)

lemma examine_job_eq:
  "examine_job residueMB env st sm =
     (if js_state st = JOB_STATE_IDLE \<and> job_pids env (js_job_id st) \<noteq> []
      then snd (transitionTo (if job_active residueMB env (js_job_id st) then JOB_STATE_RUNNING else JOB_STATE_SAVED)
                 (js_job_id st) (job_pids env (js_job_id st)) sm)
      else sm)"
  by (auto simp: examine_job_def probe_pods_eq job_pids_def job_active_def TransitionToRunning_def TransitionToSaved_def)

lemma examine_others:
  "j \<notin> js_job_id ` set sts \<Longrightarrow> map_of (sm_jobs (fold (examine_job r env) sts sm)) j = map_of (sm_jobs sm) j"
  by (induction sts arbitrary: sm) (auto simp: examine_job_eq transitionTo_other)

lemma examine_jobs:
  assumes "distinct (map js_job_id sts)" and "st \<in> set sts" and "js_job_id st = j"
  shows "map_of (sm_jobs (fold (examine_job r env) sts sm)) j = map_of (sm_jobs (examine_job r env st sm)) j"
proof -
  from assms(2) obtain xs ys where s: "sts = xs @ st # ys" by (meson split_list)
  with assms(1,3) have x: "j \<notin> js_job_id ` set xs" and y: "j \<notin> js_job_id ` set ys" by auto
  let ?sm = "fold (examine_job r env) xs sm"
  have "map_of (sm_jobs ?sm) j = map_of (sm_jobs sm) j" by (rule examine_others[OF x])
  then have "map_of (sm_jobs (examine_job r env st ?sm)) j = map_of (sm_jobs (examine_job r env st sm)) j"
    using assms(3) by (auto simp: examine_job_eq transitionTo_def set_job_def split: option.splits)
  then show ?thesis unfolding s by (simp add: examine_others[OF y])
qed

text \<open>Job names are the keys of the manager's map.\<close>

lemma sm_jobs_ok: "sm_reach sm \<Longrightarrow> amap_ok (sm_jobs sm)"
proof (induction rule: sm_reach.induct)
  case start
  show ?case by (simp add: NewStateManager_def)
next
  case (step sm sm')
  from step(2,3) show ?case
    by (cases rule: sm_step.cases)
      (auto simp: RegisterJob_def getOrCreateJob_def StartSnapshotSlot_def StartRestoreSlot_def launch_def set_job_def finish_def
        UpdateJobPIDs_def TransitionToRunning_def TransitionToSaved_def transitionTo_def Let_def
        split: option.splits if_splits prod.splits OpType.splits)
qed

text \<open>C22: What the watcher does to a job. In every reachable state of the manager, one round of
  the watcher leaves every job that is not IDLE exactly as it is. An IDLE job without processes
  stays IDLE; one with processes becomes RUNNING with these process numbers when some pod of it is
  active (on a TPU node any process makes it so, on a GPU node memory above the residue threshold,
  or any memory when the threshold is 0), and SAVED otherwise.\<close>

theorem watcher_classifies_idle_jobs:
  assumes "sm_reach sm" and "map_of (sm_jobs sm) j = Some job"
  shows "map_of (sm_jobs (checkIdleJobs residueMB env sm)) j =
    Some (if aj_State job = JOB_STATE_IDLE \<and> job_pids env j \<noteq> []
          then job\<lparr>aj_State := (if job_active residueMB env j then JOB_STATE_RUNNING else JOB_STATE_SAVED), aj_PIDs := job_pids env j\<rparr>
          else job)"
proof -
  let ?st = "\<lparr>js_job_id = j, js_state = aj_State job\<rparr>"
  have "(j, job) \<in> set (sm_jobs sm)" using assms(2) by (rule map_of_SomeD)
  then have i: "?st \<in> set (GetJobStatus sm)" by (force simp: GetJobStatus_def)
  have d: "distinct (map js_job_id (GetJobStatus sm))"
    using sm_jobs_ok[OF assms(1)] by (simp add: GetJobStatus_def comp_def)
  have "map_of (sm_jobs (checkIdleJobs residueMB env sm)) j = map_of (sm_jobs (examine_job residueMB env ?st sm)) j"
    unfolding checkIdleJobs_def by (rule examine_jobs[OF d i]) simp
  also have "\<dots> = Some (if aj_State job = JOB_STATE_IDLE \<and> job_pids env j \<noteq> []
          then job\<lparr>aj_State := (if job_active residueMB env j then JOB_STATE_RUNNING else JOB_STATE_SAVED), aj_PIDs := job_pids env j\<rparr>
          else job)"
    using assms(2) by (simp add: examine_job_eq transitionTo_def set_job_def)
  finally show ?thesis .
qed

definition parked_env :: watcher_env where
  "parked_env = \<lparr>we_pods = [\<lparr>ap_Name = ''p'', ap_Namespace = ''ns'', ap_Labels = [(JobIDLabel, ''j'')]\<rparr>], we_isTPU = False,
     we_GetPodGPUInfo = (\<lambda>p n. Inr \<lparr>gi_PIDs = [7], gi_TotalVRAMBytes = 1000\<rparr>), we_GetPodPIDs = (\<lambda>p n. Inr [7])\<rparr>"

lemma watcher_classifies_idle_jobs_witness:
  "map_of (sm_jobs (checkIdleJobs 1 parked_env (RegisterJob ''j'' ''g'' NewStateManager))) ''j'' =
     Some \<lparr>aj_ID = ''j'', aj_Group = ''g'', aj_State = JOB_STATE_SAVED, aj_PIDs = [7], aj_Slot = []\<rparr>"
proof -
  have j: "map_of (sm_jobs (RegisterJob ''j'' ''g'' NewStateManager)) ''j'' = Some (newAgentJob ''j'' ''g'')"
    by (simp add: RegisterJob_def getOrCreateJob_def NewStateManager_def Let_def)
  have "job_pids parked_env ''j'' = [7]" "\<not> job_active 1 parked_env ''j''"
    by (simp_all add: job_pids_def job_active_def getLocalPodsForJob_def parked_env_def get_str_def pod_pids_def pod_active_def thresholdBytes_def)
  with watcher_classifies_idle_jobs[OF reach_register[OF sm_reach.start] j, of 1 parked_env] show ?thesis
    by (simp add: newAgentJob_def)
qed

end
