(* ===== verification/Fleet.thy ===== *)
theory Fleet
  imports Agent_Store Watcher
begin

text \<open>
  The agents of all nodes as the world of the orchestrator. A fleet holds the agent server of every address;
  the gRPC store of the orchestrator reaches it over a network that may lose requests and answers. Between
  the calls of the orchestrator the agents move by themselves: goroutines of operations end, the pod watcher
  registers jobs and examines idle ones, other clients send requests. A step of the fleet is any of these moves,
  and what a step keeps of the jobs and operations of an agent is proved once, here.
\<close>

named_theorems server_moves

subsection \<open>Every move of a server is a sequence of steps of its state manager\<close>

lemma sm_steps_step: "sm_step sm sm' \<Longrightarrow> sm_steps sm sm'"
  by (rule sm_steps.more[OF sm_steps.none])

lemma sm_steps_trans: "sm_steps sm1 sm2 \<Longrightarrow> sm_steps sm0 sm1 \<Longrightarrow> sm_steps sm0 sm2"
  by (induction rule: sm_steps.induct) (auto intro: sm_steps.more)

text \<open>A worker changes nothing in the manager but the process numbers of a job.\<close>

definition pids_only :: "'w worker \<Rightarrow> bool" where
  "pids_only fn \<longleftrightarrow> (\<forall>st. fst (snd (fn st)) = fst st \<or> (\<exists>j ps. fst (snd (fn st)) = UpdateJobPIDs j ps (fst st)))"

lemma call_backend_state [simp]: "fst (snd (call_backend f j c st)) = fst st"
  by (simp add: call_backend_def split: prod.splits)

lemma call_backend_pids: "pids_only (call_backend f j c)"
  by (simp add: pids_only_def)

lemma call_backend_then_pids:
  assumes "call_backend f j c st = (r, st1)"
  shows "fst st1 = fst st"
  using call_backend_state[of f j c st] assms by simp

lemma snapshot_pids_state:
  "fst (snd (snapshot_pids be j c ps st)) = fst st \<or> fst (snd (snapshot_pids be j c ps st)) = UpdateJobPIDs j ps (fst st)"
  by (auto simp: snapshot_pids_def split: prod.splits option.splits dest: call_backend_then_pids)

lemma buildSnapshotFn_pids_only:
  assumes "buildSnapshotFn s env j bt be cfg = Inr fn"
  shows "pids_only fn"
proof -
  have m: "pids_only (\<lambda>st. case call_backend (be_Snapshot be) j cfg st of
       (Some err, st1) \<Rightarrow> (Some (Wrap (errorf [''failed to snapshot job '', j]) err), st1)
     | (None, st1) \<Rightarrow> (None, (UpdateJobPIDs j (pidsFromMemoryRegions cfg) (fst st1), snd st1)))"
    by (fastforce simp: pids_only_def split: prod.splits option.splits dest: call_backend_then_pids)
  have p: "pids_only (\<lambda>st. case x of Inl pidErr \<Rightarrow> (Some pidErr, st)
      | Inr (allPIDs, allPIDStrings) \<Rightarrow> (case f allPIDStrings of
            Inl cfgErr \<Rightarrow> (Some (g cfgErr), st) | Inr reqConfig \<Rightarrow> snapshot_pids be j reqConfig allPIDs st))" for x f g
    using snapshot_pids_state[of be j] by (fastforce simp: pids_only_def split: sum.splits prod.splits)
  have t: "pids_only (\<lambda>st. case x of Inl pidErr \<Rightarrow> (Some pidErr, st)
      | Inr (allPIDs, allPIDStrings) \<Rightarrow> snapshot_pids be j (f allPIDStrings) allPIDs st)" for x f
    using snapshot_pids_state[of be j] by (fastforce simp: pids_only_def split: sum.splits prod.splits)
  from assms show ?thesis
    unfolding buildSnapshotFn_def Let_def
    by (auto split: if_splits intro: call_backend_pids m p t)
qed

lemma buildRestoreFn_pids_only:
  assumes "buildRestoreFn s j bt be cfg = Inr fn"
  shows "pids_only fn"
  using assms unfolding buildRestoreFn_def pids_only_def
  by (auto split: if_splits sum.splits)

definition workers_ok :: "'w Server \<Rightarrow> bool" where
  "workers_ok srv \<longleftrightarrow> (\<forall>i fn. map_of (srv_workers srv) i = Some fn \<longrightarrow> pids_only fn)"

lemma keep_worker_ok:
  "workers_ok srv \<Longrightarrow> pids_only fn \<Longrightarrow> workers_ok (snd (keep_worker i fn r srv))"
  by (auto simp: workers_ok_def keep_worker_def)

lemma workers_ok_state [simp]: "workers_ok (srv\<lparr>srv_state := sm\<rparr>) = workers_ok srv"
  by (simp add: workers_ok_def)

subsection \<open>What a step keeps of saved jobs and of snapshot operations\<close>

text \<open>
  A snapshot operation of job \<open>j\<close>. When it is complete, the job is SAVED, or the operation stored nothing
  because the job had no live process any more.
\<close>

definition snap_ok :: "StateManager \<Rightarrow> string \<Rightarrow> string \<Rightarrow> bool" where
  "snap_ok sm j i \<longleftrightarrow>
     (\<exists>op. sm_GetOperation i sm = Some op \<and> op_JobID op = j \<and> op_Type op = OpTypeSnapshot \<and>
        (op_Status op = OPERATION_STATUS_PENDING \<longrightarrow> op_StorageBytes op = 0) \<and>
        (op_Status op = OPERATION_STATUS_COMPLETE \<longrightarrow> job_state sm j = Some JOB_STATE_SAVED \<or> op_StorageBytes op = 0))"

text \<open>
  The manager moved by steps; a saved job of the protected ones is still saved, and its snapshot operations
  are still what they were for.
\<close>

definition keeps :: "(string \<Rightarrow> bool) \<Rightarrow> StateManager \<Rightarrow> StateManager \<Rightarrow> bool" where
  "keeps P sm sm' \<longleftrightarrow> sm_steps sm sm' \<and>
     (\<forall>j. P j \<longrightarrow> job_state sm j = Some JOB_STATE_SAVED \<longrightarrow> job_state sm' j = Some JOB_STATE_SAVED) \<and>
     (\<forall>j i. P j \<longrightarrow> snap_ok sm j i \<longrightarrow> snap_ok sm' j i)"

lemma keeps_refl [simp]: "keeps P sm sm"
  by (simp add: keeps_def sm_steps.none)

lemma keeps_trans: "keeps P sm sm1 \<Longrightarrow> keeps P sm1 sm2 \<Longrightarrow> keeps P sm sm2"
  unfolding keeps_def using sm_steps_trans by blast

text \<open>A step that changes no operation and no saved job.\<close>

lemma keeps_jobs:
  assumes "sm_step sm sm'" and "sm_operations sm' = sm_operations sm"
    and "\<And>j. job_state sm j = Some JOB_STATE_SAVED \<Longrightarrow> job_state sm' j = Some JOB_STATE_SAVED"
  shows "keeps P sm sm'"
  using assms by (auto simp: keeps_def snap_ok_def sm_GetOperation_def sm_steps_step)

lemma keeps_register [server_moves]: "keeps P sm (RegisterJob j grp sm)"
proof (rule keeps_jobs[OF sm_step.register])
  obtain job sm1 where g: "getOrCreateJob j grp sm = (job, sm1)" by fastforce
  show "sm_operations (RegisterJob j grp sm) = sm_operations sm"
    using getOrCreateJob_ops[OF g] by (simp add: RegisterJob_def g)
  fix k assume "job_state sm k = Some JOB_STATE_SAVED"
  then show "job_state (RegisterJob j grp sm) k = Some JOB_STATE_SAVED"
    using getOrCreateJob_views(1,2)[OF g] by (auto simp: RegisterJob_def g)
qed

lemma transitionTo_keeps:
  assumes "sm_step sm (snd (transitionTo t j ps sm))"
  shows "keeps P sm (snd (transitionTo t j ps sm))"
proof (rule keeps_jobs[OF assms])
  obtain r sm' where t: "transitionTo t j ps sm = (r, sm')" by fastforce
  show "sm_operations (snd (transitionTo t j ps sm)) = sm_operations sm"
    unfolding t by (cases rule: transitionTo_cases[OF t]) auto
  fix k assume "job_state sm k = Some JOB_STATE_SAVED"
  then show "job_state (snd (transitionTo t j ps sm)) k = Some JOB_STATE_SAVED"
    unfolding t by (cases rule: transitionTo_cases[OF t]) (auto simp: job_state_def set_job_def)
qed

lemma keeps_transitions [server_moves]:
  "keeps P sm (snd (TransitionToRunning j ps sm))" "keeps P sm (snd (TransitionToSaved j ps sm))"
  unfolding TransitionToRunning_def TransitionToSaved_def
  by (rule transitionTo_keeps, metis TransitionToRunning_def surjective_pairing sm_step.running)
    (rule transitionTo_keeps, metis TransitionToSaved_def surjective_pairing sm_step.saved)

lemma keeps_pids [server_moves]: "keeps P sm (UpdateJobPIDs j ps sm)"
proof (rule keeps_jobs[OF sm_step.pids])
  show "sm_operations (UpdateJobPIDs j ps sm) = sm_operations sm" by (simp add: UpdateJobPIDs_def split: option.splits)
qed simp

lemma snap_ok_launch:
  assumes "snap_ok sm k i'" and "map_of (sm_operations sm) i = None"
    and "job_state sm j \<noteq> Some JOB_STATE_SAVED \<or> k \<noteq> j"
  shows "snap_ok (launch i now j slot ty job sm) k i'"
  using assms by (auto simp: snap_ok_def sm_GetOperation_def launch_def job_state_def set_job_def)

text \<open>Starting an operation keeps every saved job but the one it restores.\<close>

lemma start_keeps:
  assumes "StartSnapshotSlot i now j grp slot sm = (r, sm') \<or> StartRestoreSlot i now j grp slot sm = (r, sm') \<and> \<not> P j"
    and "fresh_op i sm"
  shows "keeps P sm sm'"
proof -
  have st: "sm_step sm sm'" using assms by (auto intro: sm_step.snapshot sm_step.restore)
  have unsaved: "\<not> P j \<or> aj_State job \<noteq> JOB_STATE_SAVED"
    if "getOrCreateJob j grp sm = (job, sm1)" "sm' = launch i now j slot ty job sm1" for job sm1 ty
    using assms(1) that getOrCreateJob_views(3)[OF that(1)]
    by (auto simp: StartSnapshotSlot_def launch_def set_job_def dest: arg_cong[of _ _ inflight] split: if_splits)
  have "StartSnapshotSlot i now j grp slot sm = (r, sm') \<or> StartRestoreSlot i now j grp slot sm = (r, sm')"
    using assms(1) by blast
  then show ?thesis
  proof (cases rule: start_cases)
    case (1 job sm1)
    note g = getOrCreateJob_views[OF 1(1)]
    show ?thesis unfolding 1(2)
      by (rule keeps_jobs[OF st[unfolded 1(2)] getOrCreateJob_ops[OF 1(1)]]) (use g(1,2) in auto)
  next
    case (2 job sm1 ty)
    note g = getOrCreateJob_views[OF 2(1)]
    note u = unsaved[OF 2(1,2)]
    have o: "sm_operations sm1 = sm_operations sm" by (rule getOrCreateJob_ops[OF 2(1)])
    have s1: "snap_ok sm1 k i'" if "snap_ok sm k i'" for k i'
      using that g(1,2) by (auto simp: snap_ok_def sm_GetOperation_def o)
    have f: "map_of (sm_operations sm1) i = None" using assms(2) by (simp add: o fresh_op_def)
    have "snap_ok sm' k i'" if "P k" "snap_ok sm k i'" for k i'
      unfolding 2(2) by (rule snap_ok_launch[OF s1[OF that(2)] f]) (use u g(1) that(1) in auto)
    moreover have "job_state sm' k = Some JOB_STATE_SAVED" if "P k" "job_state sm k = Some JOB_STATE_SAVED" for k
      using that u g(1,2) unfolding 2(2) by auto
    ultimately show ?thesis using st by (simp add: keeps_def sm_steps_step)
  qed
qed

lemma finish_other: "j \<noteq> go_job g \<Longrightarrow> job_state (finish now f g err sm) j = job_state sm j"
  by (auto simp: finish_def job_state_def set_job_def split: option.splits OpType.splits)

lemma inflight_unsaved:
  assumes "sm_inv sm" and "g \<in> set (inflight sm)" and "job_state sm j = Some JOB_STATE_SAVED"
  shows "j \<noteq> go_job g"
  by (rule inflight_known[OF assms(1,2)]) (use assms(3) in \<open>auto simp: job_state_def\<close>)

lemma finish_snap_ok:
  assumes "sm_inv sm" and "g \<in> set (inflight sm)" and "snap_ok sm j i"
  shows "snap_ok (finish now f g err sm) j i"
proof -
  from assms(3) obtain op where op: "map_of (sm_operations sm) i = Some op" "op_JobID op = j" "op_Type op = OpTypeSnapshot"
    "op_Status op = OPERATION_STATUS_PENDING \<longrightarrow> op_StorageBytes op = 0"
    "op_Status op = OPERATION_STATUS_COMPLETE \<longrightarrow> job_state sm j = Some JOB_STATE_SAVED \<or> op_StorageBytes op = 0"
    by (auto simp: snap_ok_def sm_GetOperation_def)
  from inflight_known[OF assms(1,2)] obtain op1 job where k: "map_of (sm_operations sm) (go_op g) = Some op1"
    "op_JobID op1 = go_job g" "op_Status op1 = OPERATION_STATUS_PENDING" "map_of (sm_jobs sm) (go_job g) = Some job"
    "aj_State job = JOB_STATE_TRANSITIONING" by blast
  show ?thesis
  proof (cases "i = go_op g")
    case True
    with op k have e: "op1 = op" "go_job g = j" by auto
    with op k True show ?thesis
      by (auto simp: snap_ok_def sm_GetOperation_def finish_def snapshot_op_def snapshot_job_def Let_def
          job_state_def set_job_def split: option.splits)
  next
    case False
    have "job_state (finish now f g err sm) j = job_state sm j \<or> job_state sm j \<noteq> Some JOB_STATE_SAVED"
      using finish_other inflight_unsaved[OF assms(1,2)] by blast
    with False op k show ?thesis
      by (auto simp: snap_ok_def sm_GetOperation_def finish_def split: OpType.splits)
  qed
qed

lemma keeps_finish:
  assumes "sm_inv sm" and "g \<in> set (inflight sm)"
  shows "keeps P sm (finish now f g err sm)"
proof -
  have "job_state (finish now f g err sm) j = Some JOB_STATE_SAVED" if "job_state sm j = Some JOB_STATE_SAVED" for j
    using finish_other[OF inflight_unsaved[OF assms that]] that by simp
  then show ?thesis
    using finish_snap_ok[OF assms] sm_step.finished[OF assms(2)] by (auto simp: keeps_def sm_steps_step)
qed

subsection \<open>Servers\<close>

lemma occupied_loop_keeps: "keeps P sm (occupied_loop env j ss sm)"
  by (induction env j ss sm rule: occupied_loop.induct) (auto split: sum.splits intro: server_moves)

lemma occupied_loop_ops: "sm_operations (occupied_loop env j ss sm) = sm_operations sm"
proof (induction env j ss sm rule: occupied_loop.induct)
  case (2 env j st rest sm)
  have "sm_operations (snd (TransitionToRunning j [] sm)) = sm_operations sm"
    by (auto simp: TransitionToRunning_def transitionTo_def split: option.splits)
  with 2 show ?case by (auto split: sum.splits)
qed simp

lemma RegisterJob_ops: "sm_operations (RegisterJob j grp sm) = sm_operations sm"
  using getOrCreateJob_ops[of j grp sm] unfolding RegisterJob_def by (metis prod.collapse)

lemma ensure_keeps:
  "keeps P sm (ensureJobRunningIfOccupied s env j grp sm)"
  "fresh_op i (ensureJobRunningIfOccupied s env j grp sm) = fresh_op i sm"
  using keeps_trans[OF keeps_register occupied_loop_keeps]
  by (auto simp: ensureJobRunningIfOccupied_def Let_def fresh_op_def occupied_loop_ops RegisterJob_ops)

lemma agent_Snapshot_keeps:
  assumes "agent_Snapshot s env i now req srv = (r, srv')" and "fresh_op i (srv_state srv)"
  shows "keeps P (srv_state srv) (srv_state srv')" and "workers_ok srv \<Longrightarrow> workers_ok srv'"
proof -
  let ?sm = "ensureJobRunningIfOccupied s env (ar_job_id req) (ar_group req) (srv_state srv)"
  let ?start = "StartSnapshotSlot i now (ar_job_id req) (ar_group req) (memoryRegionsSlot (ar_backend_config req) (ar_job_id req)) ?sm"
  note e = ensure_keeps(1)[of P "srv_state srv" s env "ar_job_id req" "ar_group req"]
    ensure_keeps(2)[of i s env "ar_job_id req" "ar_group req" "srv_state srv"]
  have st: "keeps P ?sm (snd ?start)"
    by (rule start_keeps[where r = "fst ?start"]) (use assms(2) e(2) in auto)
  from assms(1) have "srv' = srv \<or> srv' = srv\<lparr>srv_state := ?sm\<rparr> \<or>
      (\<exists>fn. pids_only fn \<and> srv' = snd (keep_worker i fn ?start (srv\<lparr>srv_state := ?sm\<rparr>)))"
    by (auto simp: agent_Snapshot_def Let_def split: option.splits sum.splits dest: buildSnapshotFn_pids_only)
  then show "keeps P (srv_state srv) (srv_state srv')" and "workers_ok srv \<Longrightarrow> workers_ok srv'"
    using e(1) keeps_trans[OF e(1) st] by (auto simp: keep_worker_ok) (auto simp: keep_worker_def)
qed

lemma agent_Restore_keeps:
  assumes "agent_Restore s i now req srv = (r, srv')" and "fresh_op i (srv_state srv)"
  shows "\<not> P (ar_job_id req) \<Longrightarrow> keeps P (srv_state srv) (srv_state srv')" and "workers_ok srv \<Longrightarrow> workers_ok srv'"
proof -
  let ?start = "StartRestoreSlot i now (ar_job_id req) (ar_group req) (memoryRegionsSlot (ar_backend_config req) (ar_job_id req)) (srv_state srv)"
  have st: "keeps P (srv_state srv) (snd ?start)" if "\<not> P (ar_job_id req)"
    by (rule start_keeps[where r = "fst ?start"]) (use assms(2) that in auto)
  from assms(1) have "srv' = srv \<or> (\<exists>fn. pids_only fn \<and> srv' = snd (keep_worker i fn ?start srv))"
    by (auto simp: agent_Restore_def Let_def split: option.splits sum.splits)
      (metis buildRestoreFn_pids_only snd_conv)
  then show "\<not> P (ar_job_id req) \<Longrightarrow> keeps P (srv_state srv) (srv_state srv')" and "workers_ok srv \<Longrightarrow> workers_ok srv'"
    using st by (auto simp: keep_worker_ok) (auto simp: keep_worker_def)
qed

lemma UpdateJobPIDs_inflight: "inflight (UpdateJobPIDs j ps sm) = inflight sm"
  by (simp add: UpdateJobPIDs_def split: option.splits)

lemma run_operation_keeps:
  assumes "sm_inv (srv_state srv)" and "workers_ok srv" and "g \<in> set (inflight (srv_state srv))"
  shows "keeps P (srv_state srv) (srv_state (run_operation now f g srv))"
proof (cases "map_of (srv_workers srv) (go_op g)")
  case (Some fn)
  obtain err sm w where fn: "fn (srv_state srv, srv_world srv) = (err, sm, w)" by (metis prod.exhaust)
  have "pids_only fn" using Some assms(2) by (simp add: workers_ok_def)
  then have "sm = srv_state srv \<or> (\<exists>j ps. sm = UpdateJobPIDs j ps (srv_state srv))"
    using fn unfolding pids_only_def by (metis fst_conv snd_conv)
  then have "keeps P (srv_state srv) sm" "sm_inv sm" "g \<in> set (inflight sm)"
    using assms UpdateJobPIDs_inv keeps_pids by (auto simp: UpdateJobPIDs_inflight)
  from keeps_trans[OF this(1) keeps_finish[OF this(2,3)]] show ?thesis by (simp add: run_operation_def Some fn)
qed (simp add: run_operation_def)

lemma examine_job_keeps: "keeps P sm (examine_job res env st sm)"
  by (auto simp: examine_job_def split: prod.splits intro: server_moves)

lemma checkIdleJobs_keeps [server_moves]: "keeps P sm (checkIdleJobs res env sm)"
proof -
  have "keeps P sm (fold (examine_job res env) ss sm)" for ss
    by (induction ss arbitrary: sm) (auto intro: keeps_trans[OF examine_job_keeps])
  then show ?thesis by (simp add: checkIdleJobs_def)
qed

lemma pod_event_keeps [server_moves]: "keeps P sm (handlePodAdd p sm)" "keeps P sm (handlePodUpdate q p sm)"
  by (auto simp: handlePodAdd_def handlePodUpdate_def registerPodJob_def split: option.splits intro: server_moves)

subsection \<open>The fleet\<close>

text \<open>The servers by address, what each sees of the pods of its node at present, and the clock.\<close>

record 'b fleet =
  fl_servers :: "(string \<times> 'b Server) list"
  fl_pods :: "string \<Rightarrow> pod_env"
  fl_time :: int

text \<open>
  What the network does to the calls to an address: refuse a connection, fail a status request, lose a request
  before it reaches the agent, or lose the answer of a request the agent served.
\<close>

record 'b link =
  ln_dial :: "string \<Rightarrow> 'b fleet \<Rightarrow> go_error option"
  ln_status :: "string \<Rightarrow> 'b fleet \<Rightarrow> go_error option"
  ln_request :: "string \<Rightarrow> 'b fleet \<Rightarrow> go_error option"
  ln_answer :: "string \<Rightarrow> 'b fleet \<Rightarrow> go_error option"

definition no_agent :: go_error where
  "no_agent = Status Code_Unavailable ''no agent at this address''"

definition put_server :: "string \<Rightarrow> 'b Server \<Rightarrow> 'b fleet \<Rightarrow> 'b fleet" where
  "put_server a s F = F\<lparr>fl_servers := AList.update a s (fl_servers F)\<rparr>"

definition serve ::
  "'b link \<Rightarrow> string \<Rightarrow> ('b Server \<Rightarrow> (go_error + 'x) \<times> 'b Server) \<Rightarrow> 'b fleet \<Rightarrow> (go_error + 'x) \<times> 'b fleet" where
  "serve L a handler F =
     (case ln_request L a F of
        Some err \<Rightarrow> (Inl err, F)
      | None \<Rightarrow>
          (case map_of (fl_servers F) a of
             None \<Rightarrow> (Inl no_agent, F)
           | Some s \<Rightarrow>
               (case handler s of (r, s') \<Rightarrow>
                  (case ln_answer L a F of
                     Some err \<Rightarrow> (Inl err, put_server a s' F)
                   | None \<Rightarrow> (r, put_server a s' F)))))"

text \<open>
  The network of the orchestrator's gRPC store, with the handlers of the agents behind it. \<open>cfg\<close> gives the
  configuration of every agent, \<open>uuid\<close> the identifier of the next operation.
\<close>

definition fleet_net :: "(string \<Rightarrow> 'b server_cfg) \<Rightarrow> ('b fleet \<Rightarrow> string) \<Rightarrow> 'b link \<Rightarrow> 'b fleet grpc_net" where
  "fleet_net cfg uuid L = \<lparr>
     net_Dial = (\<lambda>a F. (ln_dial L a F, F)),
     net_Status = (\<lambda>a F.
       (case ln_status L a F of
          Some err \<Rightarrow> (Inl err, F)
        | None \<Rightarrow> (case map_of (fl_servers F) a of None \<Rightarrow> (Inl no_agent, F) | Some s \<Rightarrow> (Inr (agent_Status s), F)))),
     net_Snapshot = (\<lambda>a j g c F.
       serve L a (agent_Snapshot (cfg a) (fl_pods F a) (uuid F) (fl_time F) \<lparr>ar_job_id = j, ar_group = g, ar_backend_config = c\<rparr>) F),
     net_GetOperation = (\<lambda>a i F. serve L a (\<lambda>s. (agent_GetOperation (fl_time F) i s, s)) F),
     net_Restore = (\<lambda>a j g c F.
       serve L a (agent_Restore (cfg a) (uuid F) (fl_time F) \<lparr>ar_job_id = j, ar_group = g, ar_backend_config = c\<rparr>) F),
     net_Close = (\<lambda>a F. (None, F)),
     net_Now = (\<lambda>F. (fl_time F, F))\<rparr>"

text \<open>The identifiers are fresh: a version-4 UUID names no operation of any agent yet.\<close>

definition fresh_ids :: "('b fleet \<Rightarrow> string) \<Rightarrow> bool" where
  "fresh_ids uuid \<longleftrightarrow> (\<forall>F a s. map_of (fl_servers F) a = Some s \<longrightarrow> fresh_op (uuid F) (srv_state s))"

subsection \<open>Moves of the fleet\<close>

text \<open>
  Everything that happens to the agents, with whatever configuration, pods, time and identifier, except that no
  restore of a protected job is requested; an agent is not restarted.
\<close>

inductive fleet_step :: "(string \<Rightarrow> string \<Rightarrow> bool) \<Rightarrow> 'b fleet \<Rightarrow> 'b fleet \<Rightarrow> bool" for prot where
  outside: "fleet_step prot F (F\<lparr>fl_pods := p, fl_time := t\<rparr>)"
| ends: "map_of (fl_servers F) a = Some s \<Longrightarrow> g \<in> set (inflight (srv_state s)) \<Longrightarrow>
    fleet_step prot F (put_server a (run_operation now f g s) F)"
| watch: "map_of (fl_servers F) a = Some s \<Longrightarrow>
    fleet_step prot F (put_server a (s\<lparr>srv_state := checkIdleJobs res env (srv_state s)\<rparr>) F)"
| pod_add: "map_of (fl_servers F) a = Some s \<Longrightarrow>
    fleet_step prot F (put_server a (s\<lparr>srv_state := handlePodAdd p (srv_state s)\<rparr>) F)"
| pod_update: "map_of (fl_servers F) a = Some s \<Longrightarrow>
    fleet_step prot F (put_server a (s\<lparr>srv_state := handlePodUpdate q p (srv_state s)\<rparr>) F)"
| poll: "map_of (fl_servers F) a = Some s \<Longrightarrow> fleet_step prot F (put_server a s F)"
| snapshot: "map_of (fl_servers F) a = Some s \<Longrightarrow> fresh_op i (srv_state s) \<Longrightarrow>
    agent_Snapshot cfg env i now req s = (r, s') \<Longrightarrow> fleet_step prot F (put_server a s' F)"
| restore: "map_of (fl_servers F) a = Some s \<Longrightarrow> fresh_op i (srv_state s) \<Longrightarrow>
    agent_Restore cfg i now req s = (r, s') \<Longrightarrow> \<not> prot a (ar_job_id req) \<Longrightarrow> fleet_step prot F (put_server a s' F)"

definition fleet_steps :: "(string \<Rightarrow> string \<Rightarrow> bool) \<Rightarrow> 'b fleet \<Rightarrow> 'b fleet \<Rightarrow> bool" where
  "fleet_steps prot = (fleet_step prot)\<^sup>*\<^sup>*"

lemma fleet_steps_refl [simp]: "fleet_steps prot F F"
  by (simp add: fleet_steps_def)

lemma fleet_steps_step: "fleet_step prot F F' \<Longrightarrow> fleet_steps prot F F'"
  by (simp add: fleet_steps_def)

text \<open>Every agent is in a state its manager reaches, and its workers are those the handlers made.\<close>

definition fleet_ok :: "'b fleet \<Rightarrow> bool" where
  "fleet_ok F \<longleftrightarrow> (\<forall>a s. map_of (fl_servers F) a = Some s \<longrightarrow> sm_reach (srv_state s) \<and> workers_ok s)"

text \<open>The state manager of the agent at an address; an address without an agent knows no job.\<close>

definition manager :: "'b fleet \<Rightarrow> string \<Rightarrow> StateManager" where
  "manager F a = (case map_of (fl_servers F) a of None \<Rightarrow> NewStateManager | Some s \<Rightarrow> srv_state s)"

lemma manager_put [simp]: "manager (put_server a s F) b = (if b = a then srv_state s else manager F b)"
  by (simp add: manager_def put_server_def)

lemma run_operation_workers [simp]: "workers_ok (run_operation now f g s) = workers_ok s"
  by (auto simp: run_operation_def workers_ok_def split: option.splits prod.splits)

lemma put_server_step:
  assumes "fleet_ok F" and "map_of (fl_servers F) a = Some s" and "keeps (prot a) (srv_state s) (srv_state s')" and "workers_ok s'"
  shows "fleet_ok (put_server a s' F) \<and> (\<forall>b. keeps (prot b) (manager F b) (manager (put_server a s' F) b))"
proof -
  have "sm_reach (srv_state s')"
    using assms(1-3) sm_steps_reach by (auto simp: fleet_ok_def keeps_def)
  with assms show ?thesis by (auto simp: fleet_ok_def put_server_def manager_def)
qed

lemma fleet_step_keeps:
  assumes "fleet_step prot F F'" and "fleet_ok F"
  shows "fleet_ok F' \<and> (\<forall>b. keeps (prot b) (manager F b) (manager F' b))"
  using assms
proof (induction rule: fleet_step.induct)
  case (outside F p t)
  then show ?case by (simp add: fleet_ok_def manager_def)
next
  case (ends F a s g now f)
  then have "sm_inv (srv_state s)" "workers_ok s" by (auto simp: fleet_ok_def intro: sm_reach_inv)
  from put_server_step[where prot = prot, OF ends(3,1) run_operation_keeps[OF this ends(2)]] this(2) show ?case by simp
next
  case (snapshot F a s i cfg env now req r s')
  have "workers_ok s" using snapshot(1,4) by (simp add: fleet_ok_def)
  from put_server_step[where prot = prot, OF snapshot(4,1) agent_Snapshot_keeps(1)[OF snapshot(3,2)] agent_Snapshot_keeps(2)[OF snapshot(3,2) this]]
  show ?case .
next
  case (restore F a s i cfg now req r s')
  have "workers_ok s" using restore(1,5) by (simp add: fleet_ok_def)
  from put_server_step[where prot = prot, OF restore(5,1) agent_Restore_keeps(1)[where P = "prot a", OF restore(3,2,4)] agent_Restore_keeps(2)[OF restore(3,2) this]]
  show ?case .
qed (rule put_server_step, assumption, assumption, simp add: server_moves, simp add: fleet_ok_def)+

lemma fleet_steps_keeps:
  assumes "fleet_steps prot F F'" and "fleet_ok F"
  shows "fleet_ok F'" and "keeps (prot b) (manager F b) (manager F' b)"
proof -
  from assms(1)[unfolded fleet_steps_def] have "fleet_ok F' \<and> (\<forall>b. keeps (prot b) (manager F b) (manager F' b))"
  proof (induction rule: rtranclp_induct)
    case (step F1 F2)
    with fleet_step_keeps[OF step(2)] show ?case by (meson keeps_trans)
  qed (use assms(2) in simp)
  then show "fleet_ok F'" and "keeps (prot b) (manager F b) (manager F' b)" by blast+
qed

subsection \<open>The calls of the orchestrator as moves of the fleet\<close>

lemma fleet_step_mono: "fleet_step prot F F' \<Longrightarrow> (\<And>a j. prot' a j \<Longrightarrow> prot a j) \<Longrightarrow> fleet_step prot' F F'"
proof (induction rule: fleet_step.induct)
  case (restore F a s i cfg now req r s')
  then show ?case by (blast intro: fleet_step.restore)
qed (rule fleet_step.intros; assumption)+

lemma fleet_steps_mono:
  assumes "fleet_steps prot F F'" and "\<And>a j. prot' a j \<Longrightarrow> prot a j"
  shows "fleet_steps prot' F F'"
  using assms(1) unfolding fleet_steps_def
proof (rule rtranclp_mono[THEN predicate2D, rotated])
  show "fleet_step prot \<le> fleet_step prot'" using assms(2) by (intro predicate2I) (erule fleet_step_mono)
qed

lemma serve_cases:
  assumes "serve L a h F = (r, F')"
  obtains e where "r = Inl e" "F' = F"
  | s s' r' where "map_of (fl_servers F) a = Some s" "h s = (r', s')" "F' = put_server a s' F" "r = r' \<or> (\<exists>e. r = Inl e)"
proof (cases "ln_request L a F")
  case None
  show thesis
  proof (cases "map_of (fl_servers F) a")
    case (Some s)
    obtain r' s' where h: "h s = (r', s')" by fastforce
    have "r = r' \<or> (\<exists>e. r = Inl e)" "F' = put_server a s' F"
      using assms by (auto simp: serve_def \<open>ln_request L a F = None\<close> Some h split: option.splits)
    with that(2)[OF Some h] show thesis by blast
  next
    case no: None
    with assms None have "r = Inl no_agent" "F' = F" by (auto simp: serve_def)
    then show thesis by (rule that(1))
  qed
next
  case (Some e)
  with assms have "r = Inl e" "F' = F" by (auto simp: serve_def)
  then show thesis by (rule that(1))
qed

text \<open>
  What the orchestrator's view of the world keeps while agents move: the settings of its gRPC store, which is
  started without a cache.
\<close>

definition calm :: "(string \<Rightarrow> string \<Rightarrow> bool) \<Rightarrow> 'b fleet grpc_world \<Rightarrow> 'b fleet grpc_world \<Rightarrow> bool" where
  "calm prot w w' \<longleftrightarrow> fleet_steps prot (snd w) (snd w') \<and>
     gr_cacheTTL (fst w') = gr_cacheTTL (fst w) \<and> gr_defaultPort (fst w') = gr_defaultPort (fst w)"

lemma calm_refl [simp]: "calm prot w w"
  by (simp add: calm_def)

lemma calm_trans: "calm prot w w1 \<Longrightarrow> calm prot w1 w2 \<Longrightarrow> calm prot w w2"
  unfolding calm_def fleet_steps_def by auto

lemma calm_mono: "calm prot w w' \<Longrightarrow> (\<And>a j. prot' a j \<Longrightarrow> prot a j) \<Longrightarrow> calm prot' w w'"
  by (auto simp: calm_def intro: fleet_steps_mono)

lemma calm_address: "calm prot w w' \<Longrightarrow> resolveNodeAddress (fst w') n = resolveNodeAddress (fst w) n"
  by (simp add: calm_def resolveNodeAddress_def)

text \<open>The manager of the agent a node name leads to.\<close>

definition node_manager :: "string \<Rightarrow> 'b fleet grpc_world \<Rightarrow> StateManager" where
  "node_manager n w = manager (snd w) (resolveNodeAddress (fst w) n)"

lemma calm_keeps:
  assumes "calm prot w w'" and "fleet_ok (snd w)"
  shows "fleet_ok (snd w')" and "keeps (prot (resolveNodeAddress (fst w) n)) (node_manager n w) (node_manager n w')"
  using assms fleet_steps_keeps[of prot "snd w" "snd w'"] calm_address[OF assms(1)]
  by (auto simp: node_manager_def calm_def)

lemma getClient_fleet:
  assumes "getClient (fleet_net cfg uuid L) a w = (e, w')"
  shows "snd w' = snd w \<and> (ln_dial L a (snd w) = None \<longrightarrow> e = None)"
  using assms by (auto simp: getClient_def fleet_net_def split: if_splits option.splits)

lemma with_client_fleet:
  assumes "with_client (fleet_net cfg uuid L) a what rpc w = (r, w')"
  obtains e where "r = Inl e" "calm prot w w'"
  | x F where "rpc (snd w) = (x, F)" "snd w' = F" "gr_cacheTTL (fst w') = gr_cacheTTL (fst w)"
      "gr_defaultPort (fst w') = gr_defaultPort (fst w)" "\<And>y. r = Inr y \<Longrightarrow> x = Inr y"
proof -
  obtain e w1 where g: "getClient (fleet_net cfg uuid L) a w = (e, w1)" by (metis prod.exhaust)
  note f = getClient_fleet[OF g] getClient_frame(2,3)[OF g]
  show thesis
  proof (cases e)
    case None
    obtain x F where "rpc (snd w1) = (x, F)" by fastforce
    with assms g None f that(2)[of x F] show thesis by (auto simp: with_client_def split: sum.splits)
  next
    case (Some err)
    with assms g f that(1)[of err] show thesis by (auto simp: with_client_def calm_def)
  qed
qed

lemma agent_Snapshot_snap_ok:
  assumes "agent_Snapshot s env i now req srv = (Inr i', srv')"
  shows "snap_ok (srv_state srv') (ar_job_id req) i'"
proof -
  have "i' = i" using assms
    by (auto simp: agent_Snapshot_def Let_def keep_worker_def split: option.splits sum.splits
        dest: StartSnapshotSlot_launched(1)[OF prod_eqI, of _ _ _ _ _ _ i', simplified])
  from assms show ?thesis
    by (rule agent_Snapshot_accepted) (simp add: snap_ok_def sm_GetOperation_def \<open>i' = i\<close> newOperation_def)
qed

text \<open>The calls of the gRPC store on the fleet.\<close>

lemma grpc_Snapshot_calm:
  assumes "grpc_Snapshot (fleet_net cfg uuid L) n j g c w = (r, w')" and "fresh_ids uuid"
  shows "calm prot w w'" and "r = Inr i \<Longrightarrow> snap_ok (node_manager n w') j i"
proof -
  let ?a = "resolveNodeAddress (fst w) n"
  from assms(1) have c: "with_client (fleet_net cfg uuid L) ?a [''failed to trigger snapshot on agent at '']
      (net_Snapshot (fleet_net cfg uuid L) ?a j g c) w = (r, w')" by (simp add: grpc_Snapshot_def Let_def)
  from c show "calm prot w w'" and "r = Inr i \<Longrightarrow> snap_ok (node_manager n w') j i"
  proof (atomize (full), cases rule: with_client_fleet[where prot = prot])
    case (2 x F)
    have f: "resolveNodeAddress (fst w') n = ?a" using 2(4) by (simp add: resolveNodeAddress_def)
    from 2(1)[unfolded fleet_net_def, simplified]
    show "calm prot w w' \<and> (r = Inr i \<longrightarrow> snap_ok (node_manager n w') j i)"
    proof (cases rule: serve_cases)
      case (1 e)
      with 2(2-5) show ?thesis by (auto simp: calm_def)
    next
      case s: (2 s s' r')
      have "fresh_op (uuid (snd w)) (srv_state s)" using s(1) assms(2) by (simp add: fresh_ids_def)
      from fleet_step.snapshot[where prot = prot, OF s(1) this s(2)] have "calm prot w w'"
        using 2(2-4) s(3) by (simp add: calm_def fleet_steps_step)
      moreover have "snap_ok (srv_state s') j i" if "r = Inr i"
        using agent_Snapshot_snap_ok[of _ _ _ _ _ s i s'] s(2,4) 2(5)[OF that] by fastforce
      ultimately show ?thesis using 2(2) s(3) f by (simp add: node_manager_def)
    qed
  qed simp
qed

lemma grpc_Restore_calm:
  assumes "grpc_Restore (fleet_net cfg uuid L) n j g c w = (r, w')" and "fresh_ids uuid"
    and "\<not> prot (resolveNodeAddress (fst w) n) j"
  shows "calm prot w w'"
proof -
  let ?a = "resolveNodeAddress (fst w) n"
  from assms(1) have c: "with_client (fleet_net cfg uuid L) ?a [''failed to trigger restore for job '', j, '' on agent at '']
      (net_Restore (fleet_net cfg uuid L) ?a j g c) w = (r, w')" by (simp add: grpc_Restore_def Let_def)
  from c show ?thesis
  proof (cases rule: with_client_fleet[where prot = prot])
    case (2 x F)
    from 2(1)[unfolded fleet_net_def, simplified] show ?thesis
    proof (cases rule: serve_cases)
      case (1 e)
      with 2(2-5) show ?thesis by (auto simp: calm_def)
    next
      case s: (2 s s' r')
      have "fresh_op (uuid (snd w)) (srv_state s)" using s(1) assms(2) by (simp add: fresh_ids_def)
      from fleet_step.restore[where prot = prot, OF s(1) this s(2)] assms(3) show ?thesis
        using 2(2-4) s(3) by (simp add: calm_def fleet_steps_step)
    qed
  qed
qed

lemma grpc_GetOperation_calm:
  assumes "grpc_GetOperation (fleet_net cfg uuid L) n i w = (r, w')"
  shows "calm prot w w'"
    and "r = Inr resp \<Longrightarrow> gor_status resp = OPERATION_STATUS_COMPLETE \<Longrightarrow>
      \<exists>op. sm_GetOperation i (node_manager n w') = Some op \<and> op_Status op = OPERATION_STATUS_COMPLETE"
proof -
  let ?a = "resolveNodeAddress (fst w) n"
  let ?done = "\<exists>op. sm_GetOperation i (node_manager n w') = Some op \<and> op_Status op = OPERATION_STATUS_COMPLETE"
  from assms have c: "with_client (fleet_net cfg uuid L) ?a [''failed to get operation '', i, '' from agent at '']
      (net_GetOperation (fleet_net cfg uuid L) ?a i) w = (r, w')" by (simp add: grpc_GetOperation_def Let_def)
  from c show "calm prot w w'" and "r = Inr resp \<Longrightarrow> gor_status resp = OPERATION_STATUS_COMPLETE \<Longrightarrow> ?done"
  proof (atomize (full), cases rule: with_client_fleet[where prot = prot])
    case (2 x F)
    have f: "resolveNodeAddress (fst w') n = ?a" using 2(4) by (simp add: resolveNodeAddress_def)
    from 2(1)[unfolded fleet_net_def, simplified]
    show "calm prot w w' \<and> (r = Inr resp \<longrightarrow> gor_status resp = OPERATION_STATUS_COMPLETE \<longrightarrow> ?done)"
    proof (cases rule: serve_cases)
      case (1 e)
      with 2(2-5) show ?thesis by (auto simp: calm_def)
    next
      case s: (2 s s' r')
      have "calm prot w w'" using fleet_step.poll[where prot = prot, OF s(1)] 2(2-4) s(2,3)
        by (simp add: calm_def fleet_steps_step)
      moreover have "\<exists>op. sm_GetOperation i (srv_state s') = Some op \<and> op_Status op = OPERATION_STATUS_COMPLETE"
        if "r = Inr resp" "gor_status resp = OPERATION_STATUS_COMPLETE"
        using s(2,4) 2(5)[OF that(1)] that(2) by (auto simp: agent_GetOperation_def split: option.splits)
      ultimately show ?thesis using 2(2) s(3) f by (simp add: node_manager_def)
    qed
  qed simp
qed

text \<open>Without a cache, a status answer is the state of the agent at that moment.\<close>

lemma grpc_GetStatus_calm:
  assumes "grpc_GetStatus (fleet_net cfg uuid L) n w = (r, w')" and "gr_cacheTTL (fst w) \<le> 0"
  shows "calm prot w w'" and "snd w' = snd w" and "r = Inr ss \<Longrightarrow> ss = GetJobStatus (node_manager n w)"
    and "ln_dial L (resolveNodeAddress (fst w) n) (snd w) = None \<Longrightarrow> ln_status L (resolveNodeAddress (fst w) n) (snd w) = None \<Longrightarrow>
      map_of (fl_servers (snd w)) (resolveNodeAddress (fst w) n) \<noteq> None \<Longrightarrow> \<exists>ss. r = Inr ss"
proof -
  let ?N = "fleet_net cfg uuid L" and ?a = "resolveNodeAddress (fst w) n"
  obtain e w1 where g: "getClient ?N ?a w = (e, w1)" by (metis prod.exhaust)
  note f = getClient_fleet[OF g] getClient_frame(2,3)[OF g]
  have "cached_status ?a t (fst w) = None" for t using assms(2) by (simp add: cached_status_def)
  then have eq: "grpc_GetStatus ?N n w = (case e of Some err \<Rightarrow> (Inl err, w1)
      | None \<Rightarrow> (case net_Status ?N ?a (snd w) of
          (Inl err, n2) \<Rightarrow> (Inl (Wrap (errorf [''failed to get status from agent at '', ?a]) err), (fst w1, n2))
        | (Inr resp, n2) \<Rightarrow> (Inr resp, (fst w1, n2))))"
    using assms(2) f g by (simp add: grpc_GetStatus_def Let_def fleet_net_def split: option.splits sum.splits)
  have s: "snd (net_Status ?N ?a (snd w)) = snd w" by (simp add: fleet_net_def split: option.splits)
  then show "snd w' = snd w" using assms(1) f unfolding eq by (auto split: option.splits sum.splits prod.splits)
  moreover have "gr_cacheTTL (fst w') = gr_cacheTTL (fst w) \<and> gr_defaultPort (fst w') = gr_defaultPort (fst w)"
    using assms(1) f unfolding eq by (auto split: option.splits sum.splits prod.splits)
  ultimately show "calm prot w w'" by (simp add: calm_def)
  show "r = Inr ss \<Longrightarrow> ss = GetJobStatus (node_manager n w)"
    using assms(1) unfolding eq
    by (auto simp: fleet_net_def node_manager_def manager_def agent_Status_def split: option.splits)
  show "\<exists>ss. r = Inr ss" if "ln_dial L ?a (snd w) = None" "ln_status L ?a (snd w) = None" "map_of (fl_servers (snd w)) ?a \<noteq> None"
    using assms(1) f that unfolding eq by (auto simp: fleet_net_def)
qed

end
