(* ===== verification/Handover.thy ===== *)
theory Handover
  imports Reconcile Fleet
begin

text \<open>
  A handover from the controller down to the agents: the reconciliation of a group with the fleet of agent
  servers as its world. What the controller knows of a node is what the agent answered when it was last
  asked, so the property needs both sides: the order of the calls of a pass, the life cycle of a job on the
  agent and the meaning of an operation that completed.
\<close>

subsection \<open>Which calls a pass can make\<close>

primrec calls_only :: "(node_req \<Rightarrow> bool) \<Rightarrow> 'x proc \<Rightarrow> bool" where
  "calls_only Q (Return x) = True"
| "calls_only Q (Call q k) = (Q q \<and> (\<forall>r. calls_only Q (k r)))"
| "calls_only Q Hang = True"

lemma calls_only_pbind: "calls_only Q p \<Longrightarrow> (\<And>x. calls_only Q (f x)) \<Longrightarrow> calls_only Q (pbind p f)"
  by (induction p) auto

text \<open>The calls of a pass of group \<open>g\<close>: its own group, and restores of the active job \<open>a\<close> only.\<close>

fun pass_req :: "string \<Rightarrow> string \<Rightarrow> node_req \<Rightarrow> bool" where
  "pass_req g a (ListJobs g') = (g' = g)"
| "pass_req g a (AgentRestore n j g' c) = (j = a)"
| "pass_req g a (RefreshNode g' n) = (g' = g)"
| "pass_req g a _ = True"

lemma wait_calls: "calls_only (pass_req g a) (waitForOperation fuel g' j n i ty)"
  by (induction fuel) (auto simp: call_defs split: node_resp.splits option.splits sum.splits OperationStatus.splits)

lemma run_calls: "pass_req g a trig \<Longrightarrow> calls_only (pass_req g a) (runAgentOperation fuel g ty n j trig)"
  by (auto simp: runAgentOperation_def call_defs split: node_resp.splits sum.splits option.splits
      intro!: calls_only_pbind wait_calls)

lemma park_calls: "calls_only (pass_req g a) (park fuel g n b states js pend)"
proof (induction js arbitrary: pend)
  case (Cons j js)
  then show ?case
    by (auto simp: call_cfg_def split: node_resp.splits ContextState.splits intro!: calls_only_pbind run_calls)
qed simp

lemma restore_calls: "calls_only (pass_req g a) (restoreActive fuel g n a)"
  by (auto simp: restoreActive_def call_get_def call_cfg_def split: node_resp.splits sum.splits intro!: run_calls)

lemma goroutine_calls: "calls_only (pass_req g a) (nodeGoroutine fuel g a n)"
proof -
  have "calls_only (pass_req g a) (reconcileNode fuel g n a)"
    by (auto simp: reconcileNode_def call_list_def Let_def restore_calls split: node_resp.splits sum.splits option.splits
        intro!: calls_only_pbind park_calls)
  then show ?thesis
    by (auto simp: nodeGoroutine_def call_unit_def split: option.splits node_resp.splits intro!: calls_only_pbind)
qed

lemma recovered_calls: "calls_only (pass_req g a) (recovered n v)"
  by (auto simp: recovered_def call_unit_def split: node_resp.splits)

lemma pool_calls:
  "list_all (calls_only (pass_req g a)) (procs (run_pool E sch (start_pool fuel g a ns st)))"
proof (induction sch rule: rev_induct)
  case Nil
  show ?case by (simp add: run_pool_def start_pool_def list_all_iff goroutine_calls)
next
  case (snoc x sch)
  let ?P = "run_pool E sch (start_pool fuel g a ns st)"
  have "list_all (calls_only (pass_req g a)) (procs (pool_step E x ?P))"
  proof (cases x)
    case (NodeStep i)
    show ?thesis
    proof (cases rule: node_step_cases[of E i ?P])
      case (2 q k r c st')
      then have "calls_only (pass_req g a) (k r)" using snoc by (auto simp: list_all_length)
      with snoc 2 NodeStep show ?thesis by (simp add: list_all_length nth_list_update)
    qed (use snoc NodeStep in simp)
  next
    case (NodePanic i v)
    with snoc show ?thesis
      by (auto simp: node_panic_def list_all_length nth_list_update recovered_calls split: proc.splits)
  qed (use snoc in simp)
  then show ?case by (simp add: run_pool_def)
qed

subsection \<open>What an observation of a node writes into the job store\<close>

lemma context_modify:
  assumes "js_UpdateContextState g i n s js = (None, js')"
  shows "ctx_at (context_of js' g j) m = (if j = i \<and> m = n then s else ctx_at (context_of js g j) m)"
    and "isl (js_Get g j js') = isl (js_Get g j js)"
  using assms
  by (auto simp: js_UpdateContextState_def context_of_def js_Get_def makeJobKey_def UpdateContextState_def
      split: option.splits if_splits)

lemma js_Get_error: "js_Get g i js = Inl e \<Longrightarrow> errors_is e ErrNotFound"
  by (auto simp: js_Get_def go_errors split: option.splits)

text \<open>An observation never fails on the store, and writes exactly the reported states of known jobs.\<close>

lemma observe_statuses_contexts:
  assumes "observe_statuses g n ss js = (r, js')" and "distinct (map js_job_id ss)"
  shows "r = None \<and> (\<forall>j. isl (js_Get g j js') = isl (js_Get g j js)) \<and>
    (\<forall>j m. ctx_at (context_of js' g j) m =
       (case map_of (map (\<lambda>s. (js_job_id s, js_state s)) ss) j of
          Some s \<Rightarrow> if m = n \<and> \<not> isl (js_Get g j js) then translateJobState s else ctx_at (context_of js g j) m
        | None \<Rightarrow> ctx_at (context_of js g j) m))"
  using assms
proof (induction ss arbitrary: js)
  case (Cons t ss)
  have t: "map_of (map (\<lambda>s. (js_job_id s, js_state s)) ss) (js_job_id t) = None"
    using Cons.prems(2) by (auto simp: map_of_eq_None_iff image_iff comp_def)
  show ?case
  proof (cases "js_Get g (js_job_id t) js")
    case (Inl e)
    with Cons js_Get_error[OF Inl] t show ?thesis by (auto split: option.splits)
  next
    case (Inr job)
    then obtain js1 where u: "js_UpdateContextState g (js_job_id t) n (translateJobState (js_state t)) js = (None, js1)"
      by (auto simp: js_UpdateContextState_def js_Get_def split: option.splits)
    note c = context_modify[OF u]
    from Cons.prems Inr u have "observe_statuses g n ss js1 = (r, js')" by simp
    from Cons.IH[OF this] Cons.prems(2) have i: "r = None \<and> (\<forall>j. isl (js_Get g j js') = isl (js_Get g j js1)) \<and>
      (\<forall>j m. ctx_at (context_of js' g j) m =
       (case map_of (map (\<lambda>s. (js_job_id s, js_state s)) ss) j of
          Some s \<Rightarrow> if m = n \<and> \<not> isl (js_Get g j js1) then translateJobState s else ctx_at (context_of js1 g j) m
        | None \<Rightarrow> ctx_at (context_of js1 g j) m))" by simp
    with t Inr show ?thesis by (auto simp: c split: option.splits)
  qed
qed simp

text \<open>The states an agent reports are those of its jobs.\<close>

lemma reported_states:
  assumes "sm_reach sm"
  shows "distinct (map js_job_id (GetJobStatus sm))"
    and "map_of (map (\<lambda>s. (js_job_id s, js_state s)) (GetJobStatus sm)) j = job_state sm j"
proof -
  show "distinct (map js_job_id (GetJobStatus sm))" using sm_jobs_ok[OF assms] by (simp add: GetJobStatus_def comp_def)
  have "map_of (map (\<lambda>x. (fst x, aj_State (snd x))) xs) j = map_option aj_State (map_of xs j)" for xs
    by (induction xs) auto
  then show "map_of (map (\<lambda>s. (js_job_id s, js_state s)) (GetJobStatus sm)) j = job_state sm j"
    by (simp add: GetJobStatus_def job_state_def comp_def)
qed

subsection \<open>What the controller knows of a node\<close>

type_synonym ('s, 'b) fleet_orch = "('s, 'b fleet grpc_world) orch"
type_synonym ('s, 'b) fleet_env = "('s, 'b fleet grpc_world) env"

text \<open>Every job that the store has as SAVED on node \<open>n\<close>, the ones in \<open>P\<close> at least, is SAVED on the agent.\<close>

definition knows :: "string \<Rightarrow> string \<Rightarrow> (string \<Rightarrow> bool) \<Rightarrow> ('s, 'b) fleet_orch \<Rightarrow> bool" where
  "knows g n P st \<longleftrightarrow> (\<forall>j. P j \<and> ctx_at (context_of (jobs st) g j) n = STATE_SAVED \<longrightarrow>
     job_state (node_manager n (world st)) j = Some JOB_STATE_SAVED)"

text \<open>The agent of the node has not forgotten a job the store has as SAVED there: it was not restarted.\<close>

definition remembers :: "string \<Rightarrow> string \<Rightarrow> ('s, 'b) fleet_orch \<Rightarrow> bool" where
  "remembers g n st \<longleftrightarrow> (\<forall>j. ctx_at (context_of (jobs st) g j) n = STATE_SAVED \<longrightarrow>
     job_state (node_manager n (world st)) j \<noteq> None)"

lemma translate_saved: "translateJobState s = STATE_SAVED \<longleftrightarrow> s = JOB_STATE_SAVED"
  by (simp add: translateJobState_def split: JobState.splits)

text \<open>
  One observation of a node, on the fleet: a job of the group that the agent has is recorded with the state the agent has,
  if the status request is answered; nothing else is recorded.
\<close>

lemma observe_node_view:
  assumes "observeNodeJobContext E g m st = (r, st')" and "agents E = grpc_agents (fleet_net cfg uuid L)"
    and "gr_cacheTTL (fst (world st)) \<le> 0" and "fleet_ok (snd (world st))"
    and x: "grpc_GetStatus (fleet_net cfg uuid L) m (world st) = (x, w)"
  shows "world st' = w" and "r = None" and "isl (js_Get g j (jobs st')) = isl (js_Get g j (jobs st))"
    and "ctx_at (context_of (jobs st') g j) n =
      (case job_state (node_manager m (world st)) j of
         Some s \<Rightarrow> if \<not> isl x \<and> n = m \<and> \<not> isl (js_Get g j (jobs st)) then translateJobState s else ctx_at (context_of (jobs st) g j) n
       | None \<Rightarrow> ctx_at (context_of (jobs st) g j) n)"
proof -
  note c = grpc_GetStatus_calm[OF x assms(3)]
  have reach: "sm_reach (node_manager m (world st))"
    using assms(4) sm_reach.start by (auto simp: node_manager_def manager_def fleet_ok_def split: option.splits)
  have o: "observeNodeJobContext E g m st = (case x of Inl err \<Rightarrow> (None, st\<lparr>world := w\<rparr>)
      | Inr ss \<Rightarrow> (case observe_statuses g m ss (jobs st) of (r, js) \<Rightarrow> (r, st\<lparr>world := w, jobs := js\<rparr>)))"
    by (simp add: observeNodeJobContext_def assms(2) grpc_agents_def x)
  show "world st' = w" using assms(1) unfolding o by (auto split: sum.splits prod.splits)
  have "r = None \<and> (\<forall>j. isl (js_Get g j (jobs st')) = isl (js_Get g j (jobs st))) \<and>
    (\<forall>j n. ctx_at (context_of (jobs st') g j) n =
      (case job_state (node_manager m (world st)) j of
         Some s \<Rightarrow> if \<not> isl x \<and> n = m \<and> \<not> isl (js_Get g j (jobs st)) then translateJobState s else ctx_at (context_of (jobs st) g j) n
       | None \<Rightarrow> ctx_at (context_of (jobs st) g j) n))"
  proof (cases x)
    case (Inl e)
    with assms(1) show ?thesis unfolding o by (auto split: option.splits)
  next
    case (Inr ss)
    then have ss: "ss = GetJobStatus (node_manager m (world st))" by (rule c(3))
    obtain js where "observe_statuses g m ss (jobs st) = (r, js)" "jobs st' = js"
      using assms(1) Inr unfolding o by (auto split: prod.splits)
    moreover have "\<not> isl x" using Inr by simp
    ultimately show ?thesis
      using observe_statuses_contexts[of g m ss "jobs st" r js] reported_states[OF reach] by (auto simp: ss split: option.splits)
  qed
  then show "r = None" "isl (js_Get g j (jobs st')) = isl (js_Get g j (jobs st))"
    "ctx_at (context_of (jobs st') g j) n =
      (case job_state (node_manager m (world st)) j of
         Some s \<Rightarrow> if \<not> isl x \<and> n = m \<and> \<not> isl (js_Get g j (jobs st)) then translateJobState s else ctx_at (context_of (jobs st) g j) n
       | None \<Rightarrow> ctx_at (context_of (jobs st) g j) n)" by blast+
qed

lemma observe_node:
  assumes "observeNodeJobContext E g m st = (r, st')" and "agents E = grpc_agents (fleet_net cfg uuid L)"
    and "gr_cacheTTL (fst (world st)) \<le> 0" and "fleet_ok (snd (world st))"
  shows "r = None" and "calm prot (world st) (world st')" and "snd (world st') = snd (world st)"
    and "n \<noteq> m \<Longrightarrow> ctx_at (context_of (jobs st') g j) n = ctx_at (context_of (jobs st) g j) n"
    and "ctx_at (context_of (jobs st') g j) m = ctx_at (context_of (jobs st) g j) m \<or>
      (\<exists>s. job_state (node_manager m (world st)) j = Some s \<and> ctx_at (context_of (jobs st') g j) m = translateJobState s)"
    and "ln_dial L (resolveNodeAddress (fst (world st)) m) (snd (world st)) = None \<Longrightarrow>
      ln_status L (resolveNodeAddress (fst (world st)) m) (snd (world st)) = None \<Longrightarrow>
      job_state (node_manager m (world st)) j = Some s \<Longrightarrow> \<not> isl (js_Get g j (jobs st)) \<Longrightarrow>
      ctx_at (context_of (jobs st') g j) m = translateJobState s"
    and "isl (js_Get g j (jobs st')) = isl (js_Get g j (jobs st))"
proof -
  obtain x w where x: "grpc_GetStatus (fleet_net cfg uuid L) m (world st) = (x, w)" by (metis prod.exhaust)
  note c = grpc_GetStatus_calm[OF x assms(3)]
  note v = observe_node_view[OF assms x]
  show "calm prot (world st) (world st')" "snd (world st') = snd (world st)" unfolding v(1) by (rule c(1), rule c(2))
  show "r = None" "isl (js_Get g j (jobs st')) = isl (js_Get g j (jobs st))" by (rule v)+
  from v(4)[of j] show "n \<noteq> m \<Longrightarrow> ctx_at (context_of (jobs st') g j) n = ctx_at (context_of (jobs st) g j) n"
    "ctx_at (context_of (jobs st') g j) m = ctx_at (context_of (jobs st) g j) m \<or>
      (\<exists>s. job_state (node_manager m (world st)) j = Some s \<and> ctx_at (context_of (jobs st') g j) m = translateJobState s)"
    by (auto split: option.splits)
  assume l: "ln_dial L (resolveNodeAddress (fst (world st)) m) (snd (world st)) = None"
    "ln_status L (resolveNodeAddress (fst (world st)) m) (snd (world st)) = None"
    and j: "job_state (node_manager m (world st)) j = Some s" "\<not> isl (js_Get g j (jobs st))"
  have "map_of (fl_servers (snd (world st))) (resolveNodeAddress (fst (world st)) m) \<noteq> None"
    using j(1) by (auto simp: node_manager_def manager_def NewStateManager_def job_state_def split: option.splits)
  with c(4) l have "\<not> isl x" by auto
  with v(4)[of j m] j show "ctx_at (context_of (jobs st') g j) m = translateJobState s" by simp
qed

lemma observe_knows:
  assumes "observeNodeJobContext E g m st = (r, st')" and "agents E = grpc_agents (fleet_net cfg uuid L)"
    and "gr_cacheTTL (fst (world st)) \<le> 0" and "fleet_ok (snd (world st))" and "knows g n P st"
  shows "knows g n P st'"
  unfolding knows_def
proof (intro allI impI, elim conjE)
  fix j assume j: "P j" "ctx_at (context_of (jobs st') g j) n = STATE_SAVED"
  note o = observe_node[OF assms(1-4)]
  have eq: "node_manager n (world st') = node_manager n (world st)"
    using o(3) calm_address[OF o(2)[of "\<lambda>_ _. True"], of n] by (simp add: node_manager_def)
  show "job_state (node_manager n (world st')) j = Some JOB_STATE_SAVED"
  proof (cases "ctx_at (context_of (jobs st') g j) n = ctx_at (context_of (jobs st) g j) n")
    case True
    with j assms(5) show ?thesis by (simp add: eq knows_def)
  next
    case False
    with o(4) have "n = m" by blast
    with o(5) False obtain s where "job_state (node_manager n (world st)) j = Some s" "ctx_at (context_of (jobs st') g j) n = translateJobState s"
      by auto
    with j(2) show ?thesis by (simp add: eq translate_saved)
  qed
qed

text \<open>The agent of a node answers: it accepts connections and status requests.\<close>

definition answers :: "'b link \<Rightarrow> string \<Rightarrow> bool" where
  "answers L a \<longleftrightarrow> (\<forall>F. ln_dial L a F = None \<and> ln_status L a F = None)"

text \<open>Observing all nodes of the group establishes what the passes rely on.\<close>

lemma observe_nodes_knows:
  assumes "observe_nodes E g ns st = (r, st')" and "agents E = grpc_agents (fleet_net cfg uuid L)"
    and "gr_cacheTTL (fst (world st)) \<le> 0" and "fleet_ok (snd (world st))"
  shows "calm prot (world st) (world st')" and "snd (world st') = snd (world st)"
    and "knows g n P st \<Longrightarrow> knows g n P st'"
    and "n \<in> set ns \<Longrightarrow> answers L (resolveNodeAddress (fst (world st)) n) \<Longrightarrow> remembers g n st \<Longrightarrow> knows g n P st'"
  using assms(1,3,4)
proof (atomize (full), induction ns arbitrary: st)
  case (Cons m ns)
  obtain r1 st1 where o1: "observeNodeJobContext E g m st = (r1, st1)" by fastforce
  note o = observe_node[OF o1 assms(2) Cons.prems(2,3)]
  have rest: "observe_nodes E g ns st1 = (r, st')" using Cons.prems(1) o1 o(1) by simp
  have pre: "gr_cacheTTL (fst (world st1)) \<le> 0" "fleet_ok (snd (world st1))"
    using Cons.prems(2,3) o(2)[of "\<lambda>_ _. True"] o(3) by (simp_all add: calm_def)
  have a: "resolveNodeAddress (fst (world st1)) n = resolveNodeAddress (fst (world st)) n" for n by (rule calm_address[OF o(2)[of "\<lambda>_ _. True"]])
  have man: "node_manager n (world st1) = node_manager n (world st)" for n by (simp add: node_manager_def a o(3))
  note IH = Cons.IH[OF rest pre]
  have same: "ctx_at (context_of (jobs st1) g j) n = ctx_at (context_of (jobs st) g j) n" if "n \<noteq> m" for j n
    using o(4) that by blast
  have here: "knows g n P st1" if "n = m" "answers L (resolveNodeAddress (fst (world st)) n)" "remembers g n st"
    unfolding knows_def man
  proof (intro allI impI, elim conjE)
    fix j assume j: "ctx_at (context_of (jobs st1) g j) n = STATE_SAVED"
    from o(5)[of j] that(3) j obtain s where s: "job_state (node_manager n (world st)) j = Some s"
      unfolding \<open>n = m\<close> remembers_def by (metis not_None_eq)
    have "\<not> isl (js_Get g j (jobs st))"
      using j o(7)[of j] by (cases "js_Get g j (jobs st1)") (auto simp: context_of_def)
    with o(6)[of j s] s that(2) j have "translateJobState s = STATE_SAVED" unfolding \<open>n = m\<close> answers_def by simp
    with s show "job_state (node_manager n (world st)) j = Some JOB_STATE_SAVED" by (simp add: translate_saved)
  qed
  show ?case
  proof (intro conjI impI)
    show "calm prot (world st) (world st')" using calm_trans[OF o(2)] IH by blast
    show "snd (world st') = snd (world st)" using IH o(3) by simp
    show "knows g n P st'" if "knows g n P st"
      using IH observe_knows[OF o1 assms(2) Cons.prems(2,3) that] by blast
    show "knows g n P st'" if "n \<in> set (m # ns)" "answers L (resolveNodeAddress (fst (world st)) n)" "remembers g n st"
    proof (cases "n = m")
      case True
      with here that IH show ?thesis by blast
    next
      case False
      then have "remembers g n st1" using that(3) same by (simp add: remembers_def man)
      with IH that False a show ?thesis by simp
    qed
  qed
qed (simp add: knows_def)

subsection \<open>The passes on the fleet\<close>

text \<open>
  What the calls of the passes on node \<open>n\<close>, with their answers, tell about its agent: other jobs listed as
  SAVED are saved, accepted snapshots are operations of their jobs, operations reported complete are complete.
\<close>

definition log_ok :: "string \<Rightarrow> string \<Rightarrow> string \<Rightarrow> (node_req \<times> node_resp) set \<Rightarrow> StateManager \<Rightarrow> bool" where
  "log_ok g n a l sm \<longleftrightarrow>
     (\<forall>js. (ListJobs g, RJobs (Inr js)) \<in> l \<longrightarrow> distinct (map j_jobID js) \<and>
        (\<forall>job \<in> set js. j_jobID job \<noteq> a \<and> ctx_at (contextState job) n = STATE_SAVED \<longrightarrow>
           job_state sm (j_jobID job) = Some JOB_STATE_SAVED)) \<and>
     (\<forall>j g' c i. (AgentSnapshot n j g' c, ROpId (Inr i)) \<in> l \<and> j \<noteq> a \<longrightarrow> snap_ok sm j i) \<and>
     (\<forall>i resp. (AgentGetOperation n i, ROp (Inr resp)) \<in> l \<and> gor_status resp = OPERATION_STATUS_COMPLETE \<longrightarrow>
        (\<exists>op. sm_GetOperation i sm = Some op \<and> op_Status op = OPERATION_STATUS_COMPLETE))"

lemma log_ok_insert: "log_ok g n a (insert x l) sm \<longleftrightarrow> log_ok g n a {x} sm \<and> log_ok g n a l sm"
  unfolding log_ok_def by blast

lemma log_ok_mono: "log_ok g n a l sm \<Longrightarrow> l' \<subseteq> l \<Longrightarrow> log_ok g n a l' sm"
  unfolding log_ok_def by blast

lemma complete_kept:
  assumes "sm_steps sm sm'" and "sm_reach sm" and "sm_GetOperation i sm = Some op" and "op_Status op = OPERATION_STATUS_COMPLETE"
  shows "sm_GetOperation i sm' = Some op"
  using op_done_steps[OF assms(1,2), of i op] assms(3,4) by (simp add: op_done_def)

lemma log_ok_keeps:
  assumes "keeps (\<lambda>j. j \<noteq> a) sm sm'" and "sm_reach sm" and "log_ok g n a l sm"
  shows "log_ok g n a l sm'"
  using assms(1,3) complete_kept[OF _ assms(2)] unfolding log_ok_def keeps_def by blast

lemma node_manager_reach: "fleet_ok (snd w) \<Longrightarrow> sm_reach (node_manager n w)"
  using sm_reach.start by (auto simp: node_manager_def manager_def fleet_ok_def split: option.splits)

lemma knows_calm:
  assumes "calm (\<lambda>_. P) (world st) (world st')" and "fleet_ok (snd (world st))" and "knows g n P st"
    and "\<And>j. context_of (jobs st') g j = context_of (jobs st) g j"
  shows "knows g n P st'"
  using calm_keeps(2)[OF assms(1,2), of n] assms(3,4) by (simp add: knows_def keeps_def)

text \<open>The rest of the process and of the cluster does not ask for a restore of another job of the node.\<close>

definition calm_env :: "('s, 'b) fleet_env \<Rightarrow> bool" where
  "calm_env E \<longleftrightarrow> (\<forall>c w. calm (\<lambda>_ _. True) w (snd (ctx_done E c w))) \<and> (\<forall>w. calm (\<lambda>_ _. True) w (snd (time_now E w)))"

definition bystander :: "string \<Rightarrow> string \<Rightarrow> (('s, 'b) fleet_orch \<Rightarrow> ('s, 'b) fleet_orch) \<Rightarrow> bool" where
  "bystander g a f \<longleftrightarrow> (\<forall>st. calm (\<lambda>_ j. j \<noteq> a) (world st) (world (f st)) \<and>
     (\<forall>j. context_of (jobs (f st)) g j = context_of (jobs st) g j) \<and> (js_inv (jobs st) \<longrightarrow> js_inv (jobs (f st))))"

definition fleet_inv :: "string \<Rightarrow> string \<Rightarrow> string \<Rightarrow> ('s, 'b) fleet_orch \<Rightarrow> bool" where
  "fleet_inv g n a st \<longleftrightarrow> fleet_ok (snd (world st)) \<and> gr_cacheTTL (fst (world st)) \<le> 0 \<and> js_inv (jobs st) \<and>
     knows g n (\<lambda>j. j \<noteq> a) st"

lemma answer_world:
  assumes "answer E c q st = (r, c', st')" and "agents E = grpc_agents (fleet_net cfg uuid L)" and "fresh_ids uuid"
    and "calm_env E" and "pass_req g a q" and "fleet_inv g n a st"
  shows "calm (\<lambda>_ j. j \<noteq> a) (world st) (world st')"
proof (cases q)
  case (AgentSnapshot m j g' cf)
  obtain x w where x: "grpc_Snapshot (fleet_net cfg uuid L) m j g' cf (world st) = (x, w)" by (metis prod.exhaust)
  then have "world st' = w" using assms(1,2) AgentSnapshot by (auto simp: grpc_agents_def)
  with grpc_Snapshot_calm(1)[OF x assms(3)] show ?thesis by simp
next
  case (AgentRestore m j g' cf)
  obtain x w where x: "grpc_Restore (fleet_net cfg uuid L) m j g' cf (world st) = (x, w)" by (metis prod.exhaust)
  then have "world st' = w" using assms(1,2) AgentRestore by (auto simp: grpc_agents_def)
  moreover have "j = a" using assms(5) AgentRestore by simp
  ultimately show ?thesis using grpc_Restore_calm[OF x assms(3), of "\<lambda>_ j. j \<noteq> a"] by simp
next
  case (AgentGetOperation m i)
  obtain x w where x: "grpc_GetOperation (fleet_net cfg uuid L) m i (world st) = (x, w)" by (metis prod.exhaust)
  then have "world st' = w" using assms(1,2) AgentGetOperation by (auto simp: grpc_agents_def)
  with grpc_GetOperation_calm(1)[OF x] show ?thesis by simp
next
  case SelectTick
  have "calm (\<lambda>_ _. True) (world st) (snd (ctx_done E c (world st)))" using assms(4) unfolding calm_env_def by blast
  from calm_mono[OF this] have "calm (\<lambda>_ j. j \<noteq> a) (world st) (snd (ctx_done E c (world st)))" by blast
  with SelectTick assms(1) show ?thesis by (cases "ctx_done E c (world st)") auto
next
  case (RefreshNode g' m)
  with assms(1) obtain x where "observeNodeJobContext E g' m st = (x, st')" by (auto split: prod.splits)
  from observe_node(2)[OF this assms(2)] assms(6) show ?thesis by (simp add: fleet_inv_def)
qed (use assms(1) in auto)

lemma answer_log:
  assumes "answer E c q st = (r, c', st')" and "agents E = grpc_agents (fleet_net cfg uuid L)" and "fresh_ids uuid"
    and "colon_free g" and "fleet_inv g n a st"
  shows "log_ok g n a {(q, r)} (node_manager n (world st'))"
proof (cases q)
  case (AgentSnapshot m j g' cf)
  obtain x w where x: "grpc_Snapshot (fleet_net cfg uuid L) m j g' cf (world st) = (x, w)" by (metis prod.exhaust)
  then have "world st' = w" "r = ROpId x" using assms(1,2) AgentSnapshot by (auto simp: grpc_agents_def)
  with grpc_Snapshot_calm(2)[OF x assms(3)] AgentSnapshot show ?thesis by (auto simp: log_ok_def)
next
  case (AgentGetOperation m i)
  obtain x w where x: "grpc_GetOperation (fleet_net cfg uuid L) m i (world st) = (x, w)" by (metis prod.exhaust)
  then have "world st' = w" "r = ROp x" using assms(1,2) AgentGetOperation by (auto simp: grpc_agents_def)
  with grpc_GetOperation_calm(2)[OF x] AgentGetOperation show ?thesis by (auto simp: log_ok_def)
next
  case (ListJobs g')
  have inv: "js_inv (jobs st)" "knows g n (\<lambda>j. j \<noteq> a) st" using assms(5) by (simp_all add: fleet_inv_def)
  have "job_state (node_manager n (world st)) (j_jobID job) = Some JOB_STATE_SAVED"
    if "job \<in> set (ListByGroup g (jobs st))" "j_jobID job \<noteq> a" "ctx_at (contextState job) n = STATE_SAVED" for job
    using that inv ListByGroup_iff[OF inv(1) assms(4), of job] by (simp add: knows_def context_of_def)
  with ListJobs assms(1) ListByGroup_distinct_ids[OF inv(1), of g] show ?thesis by (auto simp: log_ok_def)
qed (auto simp: log_ok_def)

lemma answer_inv:
  assumes "answer E c q st = (r, c', st')" and "agents E = grpc_agents (fleet_net cfg uuid L)" and "fresh_ids uuid"
    and "calm_env E" and "pass_req g a q" and "fleet_inv g n a st"
  shows "fleet_inv g n a st'"
proof -
  note w = answer_world[OF assms]
  have i: "fleet_ok (snd (world st))" "gr_cacheTTL (fst (world st)) \<le> 0" "js_inv (jobs st)" "knows g n (\<lambda>j. j \<noteq> a) st"
    using assms(6) by (simp_all add: fleet_inv_def)
  have "knows g n (\<lambda>j. j \<noteq> a) st'"
  proof (cases "\<exists>g' m. q = RefreshNode g' m")
    case True
    then obtain m where "q = RefreshNode g m" using assms(5) by auto
    with assms(1) obtain x where "observeNodeJobContext E g m st = (x, st')" by (auto split: prod.splits)
    from observe_knows[OF this assms(2) i(2,1,4)] show ?thesis .
  next
    case False
    then have "jobs st' = jobs st" using assms(1) by (cases q) (auto split: prod.splits)
    then show ?thesis using knows_calm[OF w i(1,4)] by simp
  qed
  then show ?thesis
    using calm_keeps(1)[OF w i(1)] w i(2,3) answer_frame[OF assms(1)] by (simp add: fleet_inv_def calm_def)
qed

lemma fleet_inv_bystander:
  assumes "bystander g a f" and "fleet_inv g n a st"
  shows "fleet_inv g n a (f st)"
    and "log_ok g n a l (node_manager n (world st)) \<Longrightarrow> log_ok g n a l (node_manager n (world (f st)))"
proof -
  have c: "calm (\<lambda>_ j. j \<noteq> a) (world st) (world (f st))" using assms(1) unfolding bystander_def by blast
  have i: "fleet_ok (snd (world st))" "knows g n (\<lambda>j. j \<noteq> a) st" using assms(2) by (simp_all add: fleet_inv_def)
  have "knows g n (\<lambda>j. j \<noteq> a) (f st)"
    by (rule knows_calm[OF c i]) (use assms(1) in \<open>unfold bystander_def, blast\<close>)
  moreover have "js_inv (jobs (f st))" using assms unfolding bystander_def fleet_inv_def by blast
  ultimately show "fleet_inv g n a (f st)"
    using calm_keeps(1)[OF c i(1)] c assms(2) by (simp add: fleet_inv_def calm_def)
  show "log_ok g n a l (node_manager n (world (f st)))" if "log_ok g n a l (node_manager n (world st))"
    by (rule log_ok_keeps[OF calm_keeps(2)[OF c i(1)] node_manager_reach[OF i(1)] that])
qed

lemma pool_on_fleet:
  assumes "agents E = grpc_agents (fleet_net cfg uuid L)" and "fresh_ids uuid" and "calm_env E" and "colon_free g"
    and "fleet_inv g n a st" and "\<And>f. Other f \<in> set sch \<Longrightarrow> bystander g a f"
    and "P = run_pool E sch (start_pool fuel g a ns st)"
  shows "fleet_inv g n a (pstate P) \<and> log_ok g n a (snd ` set (plog P)) (node_manager n (world (pstate P)))"
  using assms(6,7)
proof (induction sch arbitrary: P rule: rev_induct)
  case Nil
  with assms(5) show ?case by (simp add: run_pool_def start_pool_def log_ok_def)
next
  case (snoc x sch)
  define R where "R = run_pool E sch (start_pool fuel g a ns st)"
  have IH: "fleet_inv g n a (pstate R)" "log_ok g n a (snd ` set (plog R)) (node_manager n (world (pstate R)))"
    using snoc.IH[OF _ R_def] snoc.prems(1) by auto
  have P: "P = pool_step E x R" using snoc.prems(2) by (simp add: R_def run_pool_def)
  show ?case
  proof (cases x)
    case (NodeStep i)
    show ?thesis
    proof (cases rule: node_step_cases[of E i R])
      case (2 q k r c st')
      have "calls_only (pass_req g a) (Call q k)"
        using pool_calls[of g a E sch fuel ns st] 2(1,2) unfolding R_def[symmetric] by (metis list_all_length)
      then have q: "pass_req g a q" by simp
      note w = answer_world[OF 2(3) assms(1-3) q IH(1)]
      have ok: "fleet_ok (snd (world (pstate R)))" using IH(1) by (simp add: fleet_inv_def)
      have "log_ok g n a (snd ` set (plog R)) (node_manager n (world st'))"
        by (rule log_ok_keeps[OF calm_keeps(2)[OF w ok] node_manager_reach[OF ok] IH(2)])
      with answer_log[OF 2(3) assms(1,2,4) IH(1)] answer_inv[OF 2(3) assms(1-3) q IH(1)] show ?thesis
        using P NodeStep 2(4) by (simp add: log_ok_insert[of g n a "(q, r)" "snd ` set (plog R)"])
    qed (use IH P NodeStep in simp)
  next
    case (NodePanic i v)
    with IH P show ?thesis by (auto simp: node_panic_def split: proc.splits)
  next
    case (Other f)
    with fleet_inv_bystander[OF snoc.prems(1) IH(1)] IH(2) P show ?thesis by auto
  qed
qed

subsection \<open>From the decision to the restore\<close>

lemma Now_calm: "calm_env E \<Longrightarrow> Now E st = (t, st') \<Longrightarrow> calm (\<lambda>_ _. True) (world st) (world st')"
  unfolding calm_env_def Now_def by (cases "time_now E (world st)") (metis Pair_inject case_prod_conv orch.select_convs(6) orch.surjective orch.update_convs(6) snd_conv)

lemma settle_entry_calm:
  assumes "calm_env E" and "settle_entry E g a st = (entry, st')"
  shows "calm (\<lambda>_ _. True) (world st) (world st')"
  using assms(2) Now_calm[OF assms(1), of st]
  by (auto simp: settle_entry_def Let_def split: option.splits if_splits prod.splits)

lemma settlement_calm:
  assumes "calm_env E" and "waitForGrantSettlement E grp st = (r, st')"
  shows "calm (\<lambda>_ _. True) (world st) (world st')"
proof -
  obtain entry st1 where en: "settle_entry E (gid grp) (activeJob (spec grp)) st = (entry, st1)" by fastforce
  obtain t st2 where n: "Now E st1 = (t, st2)" by fastforce
  note c = calm_trans[OF settle_entry_calm[OF assms(1) en] Now_calm[OF assms(1) n]]
  from assms(2) en n have "world st' = world st \<or> world st' = world st2"
    by (auto simp: waitForGrantSettlement_def clearSettle_def Let_def split: if_splits sum.splits)
  with c show ?thesis by auto
qed

text \<open>What the decision of a reconciliation does between the observation of the agents and the passes.\<close>

lemma decide_observed:
  assumes "decide E g st = (Inr grp, st')"
  obtains st1 st2 grp1 where "ObserveGroupState E g st = (None, st1)" "ObserveJobContext E g st1 = (None, st2)"
    "jobs st' = jobs st2" "calm_env E \<Longrightarrow> calm (\<lambda>_ _. True) (world st2) (world st')"
    "gs_Get g (groups st1) = Inr grp1" "nodes (status grp) = nodes (status grp1)"
proof -
  from assms obtain st1 st2 st3 st4 grp1 b where d: "ObserveGroupState E g st = (None, st1)"
    "ObserveJobContext E g st1 = (None, st2)" "gs_Get g (groups st2) = Inr grp1" "deduceActive g st2 = (None, st3)"
    "settle E g st3 = (None, st4)" "promote E g st4 = (Inr b, st')" "gs_Get g (groups st') = Inr grp"
    by (auto simp: decide_def split: prod.splits option.splits sum.splits)
  have g1: "gs_Get g (groups st1) = Inr grp1" using d(3) ObserveJobContext_frame[OF d(2)] by simp
  obtain grp3 where g3: "map_of (groups st3) g = Some grp3" "nodes (status grp3) = nodes (status grp1)" "jobs st3 = jobs st2"
    "world st3 = world st2"
    using d(3,4) by (auto simp: deduceActive_def gs_Get_Inr_iff tryDeduceActiveJob_def split: if_splits sum.splits option.splits)
  have w4: "waitForGrantSettlement E grp3 st3 = (None, st4)" using d(5) g3(1) by (simp add: settle_def)
  note f = waitForGrantSettlement_frame[OF w4]
  have "nodes (status grp) = nodes (status grp1)" "jobs st' = jobs st2" "world st' = world st4"
    using d(6,7) g3 f by (auto simp: promote_def gs_Get_Inr_iff split: prod.splits)
  with that[OF d(1,2) _ _ g1] settlement_calm[OF _ w4] g3(4) show thesis by simp
qed

text \<open>The snapshot that parked a job found no live process of it and stored nothing.\<close>

definition found_exited :: "string \<Rightarrow> string \<Rightarrow> node_trace \<Rightarrow> StateManager \<Rightarrow> bool" where
  "found_exited n j t sm \<longleftrightarrow>
     (\<exists>g c i op. (AgentSnapshot n j g c, ROpId (Inr i)) \<in> set t \<and> sm_GetOperation i sm = Some op \<and> op_JobID op = j \<and>
        op_Status op = OPERATION_STATUS_COMPLETE \<and> op_StorageBytes op = 0)"

lemma parked_on_agent:
  assumes "log_ok g n a (set t) sm" and "Node_Pass.op_done (AgentSnapshot n j g c) g n t" and "j \<noteq> a"
  shows "job_state sm j = Some JOB_STATE_SAVED \<or> found_exited n j t sm"
proof -
  from assms(2) obtain i resp where t: "(AgentSnapshot n j g c, ROpId (Inr i)) \<in> set t"
    "(AgentGetOperation n i, ROp (Inr resp)) \<in> set t" "gor_status resp = OPERATION_STATUS_COMPLETE"
    unfolding Node_Pass.op_done_def by fastforce
  from assms(1,3) t(1) have s: "snap_ok sm j i" unfolding log_ok_def by blast
  from assms(1) t(2,3) obtain op where "sm_GetOperation i sm = Some op" "op_Status op = OPERATION_STATUS_COMPLETE"
    unfolding log_ok_def by blast
  with s t(1) show ?thesis by (auto simp: snap_ok_def found_exited_def)
qed

text \<open>What the log of a pass about to restore says of each other job that was listed, on the agent itself.\<close>

lemma parked_all_on_agent:
  assumes l: "log_ok g n a (set l) sm" and "l \<noteq> []" "hd l = (ListJobs g, RJobs (Inr js))"
    and p: "parked_all g n a js l" and job: "job \<in> set js" "j_jobID job \<noteq> a"
  shows "ctx_at (contextState job) n \<noteq> STATE_TRANSITIONING"
    and "ctx_at (contextState job) n \<in> {STATE_SAVED, STATE_RUNNING} \<Longrightarrow>
      job_state sm (j_jobID job) = Some JOB_STATE_SAVED \<or> found_exited n (j_jobID job) l sm"
proof -
  have li: "(ListJobs g, RJobs (Inr js)) \<in> set l" using assms(2,3) by (metis list.set_sel(1))
  then have dist: "distinct (map j_jobID js)" using l unfolding log_ok_def by blast
  have ctx: "ctx_at (agentJobStates n js []) (j_jobID job) = ctx_at (contextState job) n"
    using agentJobStates_lookup[OF dist, of n "[]" "j_jobID job"] find_id[OF dist job(1)] by (simp add: ctx_at_def)
  show "ctx_at (contextState job) n \<noteq> STATE_TRANSITIONING" using p job ctx by (auto simp: parked_all_def)
  assume "ctx_at (contextState job) n \<in> {STATE_SAVED, STATE_RUNNING}"
  then consider "ctx_at (contextState job) n = STATE_SAVED" | "ctx_at (contextState job) n = STATE_RUNNING" by blast
  then show "job_state sm (j_jobID job) = Some JOB_STATE_SAVED \<or> found_exited n (j_jobID job) l sm"
  proof cases
    case 1
    with li l job show ?thesis unfolding log_ok_def by blast
  next
    case 2
    with p job ctx obtain cf where "Node_Pass.op_done (AgentSnapshot n (j_jobID job) g cf) g n l"
      by (auto simp: parked_all_def)
    from parked_on_agent[OF l this job(2)] show ?thesis .
  qed
qed

text \<open>What the passes over the nodes of the group start from.\<close>

lemma decide_fleet_inv:
  assumes "agents E = grpc_agents (fleet_net cfg uuid L)" and "calm_env E"
    and "ObserveGroupState E g st = (None, st1)" and "js_inv (jobs st1)" and "fleet_ok (snd (world st1))"
    and "gr_cacheTTL (fst (world st1)) \<le> 0" and "answers L (resolveNodeAddress (fst (world st1)) n)" and "remembers g n st1"
    and "decide E g st = (Inr grp, st2)" and "n \<in> set (nodes (status grp))"
  shows "fleet_inv g n a st2"
proof -
  from decide_observed[OF assms(9)] obtain st1' so grp1 where d: "ObserveGroupState E g st = (None, st1')"
    "ObserveJobContext E g st1' = (None, so)" "jobs st2 = jobs so" "calm (\<lambda>_ _. True) (world so) (world st2)"
    "gs_Get g (groups st1') = Inr grp1" "nodes (status grp) = nodes (status grp1)"
    using assms(2) by metis
  have [simp]: "st1' = st1" using d(1) assms(3) by simp
  have obs: "observe_nodes E g (nodes (status grp)) st1 = (None, so)" using d(2,5,6) by (simp add: ObserveJobContext_def)
  have "knows g n (\<lambda>j. j \<noteq> a) so"
    using observe_nodes_knows(4)[OF obs assms(1,6,5)] assms(7,8,10) by simp
  moreover have w: "calm (\<lambda>_ j. j \<noteq> a) (world so) (world st2)" by (rule calm_mono[OF d(4)]) simp
  moreover have so: "fleet_ok (snd (world so))" "gr_cacheTTL (fst (world so)) \<le> 0" "js_inv (jobs so)"
    using observe_nodes_knows(1,2)[OF obs assms(1,6,5)] assms(5,6) observe_nodes_frame[OF obs] assms(4)
    by (auto simp: calm_def)
  ultimately have "knows g n (\<lambda>j. j \<noteq> a) st2" using knows_calm d(3) by metis
  then show ?thesis using so w calm_keeps(1)[OF w so(1)] d(3) by (simp add: fleet_inv_def calm_def)
qed


subsection \<open>A fleet of one agent\<close>

text \<open>Identifiers that are longer than all those in use.\<close>

definition known_ids :: "'b fleet \<Rightarrow> string list" where
  "known_ids F = concat (map (\<lambda>x. map fst (sm_operations (srv_state (snd x)))) (fl_servers F))"

definition fresh_id :: "'b fleet \<Rightarrow> string" where
  "fresh_id F = replicate (Suc (fold max (map length (known_ids F)) (length already_running))) (CHR ''x'')"

lemma fold_max_start: "(m::nat) \<le> fold max ns m"
  by (induction ns arbitrary: m) (auto intro: order.trans[OF max.cobounded2])

lemma fold_max_elem: "n \<in> set ns \<Longrightarrow> (n::nat) \<le> fold max ns m"
  by (induction ns arbitrary: m) (auto intro: order.trans[OF max.cobounded1 fold_max_start])

lemma fresh_id_fresh: "fresh_ids fresh_id"
  unfolding fresh_ids_def fresh_op_def
proof (intro allI impI conjI)
  fix F :: "'b fleet" and a s
  assume s: "map_of (fl_servers F) a = Some s"
  have l: "length i < length (fresh_id F)" if "i \<in> set (known_ids F) \<or> i = already_running" for i
    using that fold_max_start[of "length already_running" "map length (known_ids F)"]
      fold_max_elem[of "length i" "map length (known_ids F)" "length already_running"]
    by (auto simp: fresh_id_def less_Suc_eq_le)
  show "fresh_id F \<noteq> already_running" using l[of already_running] by auto
  show "map_of (sm_operations (srv_state s)) (fresh_id F) = None"
  proof (rule ccontr)
    assume "map_of (sm_operations (srv_state s)) (fresh_id F) \<noteq> None"
    then obtain op where "(fresh_id F, op) \<in> set (sm_operations (srv_state s))" by (auto dest: map_of_SomeD)
    then have "fresh_id F \<in> set (known_ids F)" using map_of_SomeD[OF s] by (force simp: known_ids_def)
    from l[OF disjI1[OF this]] show False by simp
  qed
qed

definition clear_link :: "'b link" where
  "clear_link = \<lparr>ln_dial = (\<lambda>a F. None), ln_status = (\<lambda>a F. None), ln_request = (\<lambda>a F. None), ln_answer = (\<lambda>a F. None)\<rparr>"

text \<open>The agent of node \<open>n1\<close>, with the CUDA backend; the watcher found job \<open>a\<close> saved and job \<open>b\<close> in state \<open>t\<close>.\<close>

definition n1_manager :: "JobState \<Rightarrow> StateManager" where
  "n1_manager t = snd (transitionTo t ''b'' [8] (RegisterJob ''b'' ''g''
     (snd (TransitionToSaved ''a'' [7] (RegisterJob ''a'' ''g'' NewStateManager)))))"

definition n1_fleet :: "JobState \<Rightarrow> (cmd list) fleet" where
  "n1_fleet t = \<lparr>fl_servers = [(''n1:1'', (NewServer [])\<lparr>srv_state := n1_manager t\<rparr>)], fl_pods = (\<lambda>_. demo_env), fl_time = 0\<rparr>"

definition n1_env :: "(cmd list) link \<Rightarrow> (mem_lock_store, cmd list) fleet_env" where
  "n1_env L = \<lparr>
     lockStore = Some MemLockStore,
     agents = grpc_agents (fleet_net (\<lambda>_. demo_cfg) fresh_id L),
     workqueue = \<lparr>wq_Add = (\<lambda>g w. w), wq_AddRateLimited = (\<lambda>g w. w), wq_Forget = (\<lambda>g w. w),
       wq_Done = (\<lambda>g w. w), wq_Get = (\<lambda>w. Some ((''g'', False), w)), wq_ShutDown = (\<lambda>w. w)\<rparr>,
     nodeLister = (\<lambda>k v w. (Inr [\<lparr>node_name = ''n1'', node_labels = []\<rparr>], w)),
     podLister = (\<lambda>k v w. (Inr [\<lparr>pod_uid = ''ua'', pod_labels = Some [(JobLabelKey, ''a'')]\<rparr>,
                                  \<lparr>pod_uid = ''ub'', pod_labels = Some [(JobLabelKey, ''b'')]\<rparr>], w)),
     time_now = (\<lambda>w. (0, w)),
     ctx_done = (\<lambda>c w. (if c then Some (Sentinel CtxCanceled) else None, w)),
     SettleTimeout = 30\<rparr>"

text \<open>The first goroutine of the agent at an address ends.\<close>

definition end_operation :: "string \<Rightarrow> (mem_lock_store, cmd list) fleet_orch \<Rightarrow> (mem_lock_store, cmd list) fleet_orch" where
  "end_operation a st =
     (let F = snd (world st) in
      case map_of (fl_servers F) a of
        None \<Rightarrow> st
      | Some s \<Rightarrow>
          (case inflight (srv_state s) of
             [] \<Rightarrow> st
           | h # _ \<Rightarrow> st\<lparr>world := (fst (world st), put_server a (run_operation (fl_time F) (\<lambda>_. []) h s) F)\<rparr>))"

lemma end_operation_bystander: "bystander g b (end_operation a)"
proof -
  have "calm (\<lambda>_ j. j \<noteq> b) (world st) (world (end_operation a st)) \<and> jobs (end_operation a st) = jobs st" for st
  proof (cases "map_of (fl_servers (snd (world st))) a")
    case (Some s)
    show ?thesis
    proof (cases "inflight (srv_state s)")
      case (Cons h hs)
      from fleet_step.ends[OF Some, of h] Cons Some show ?thesis
        by (auto simp: end_operation_def Let_def calm_def intro: fleet_steps_step)
    qed (simp add: end_operation_def Some)
  qed (simp add: end_operation_def)
  then show ?thesis by (simp add: bystander_def)
qed

text \<open>Job \<open>a\<close> holds the group; job \<open>b\<close> was last seen in state \<open>t\<close> on node \<open>n1\<close>.\<close>

definition n1_state :: "string \<Rightarrow> ContextState \<Rightarrow> JobState \<Rightarrow> (mem_lock_store, cmd list) fleet_orch" where
  "n1_state holder t u =
     \<lparr>groups = [(''g'', \<lparr>gid = ''g'', spec = \<lparr>lockingJob = holder, queue = NewWaitingJobQueue, activeJob = holder\<rparr>,
         status = \<lparr>nodes = [''n1''], gstate = GROUP_STATE_SWITCHING, stateTimestamp = 0, loadedJob = []\<rparr>\<rparr>)],
      jobs = [(''g:a'', \<lparr>j_jobID = ''a'', j_groupID = ''g'', pods = [''ua''], contextState = [(''n1'', STATE_SAVED)], backendConfig = None\<rparr>),
              (''g:b'', \<lparr>j_jobID = ''b'', j_groupID = ''g'', pods = [''ub''], contextState = [(''n1'', t)], backendConfig = None\<rparr>)],
      locks = [(''g'', holder)], settleSince = [], meters = no_metrics,
      world = (NewGRPCSnapshotAgentStore 0 1, n1_fleet u)\<rparr>"

text \<open>
  The pass lists the jobs, reads the configuration of \<open>b\<close> and requests its snapshot; the agent runs it; the pass polls
  once, refreshes the node, reads the active job and its configuration.
\<close>

definition n1_schedule :: "(mem_lock_store, (cmd list) fleet grpc_world) sched list" where
  "n1_schedule = replicate 3 (NodeStep 0) @ Other (end_operation ''n1:1'') # replicate 6 (NodeStep 0)"

definition n1_pool :: "(mem_lock_store, (cmd list) fleet grpc_world) pool" where
  "n1_pool = run_pool (n1_env clear_link) n1_schedule (start_pool 1 ''g'' ''a'' [''n1'']
     (snd (decide (n1_env clear_link) ''g'' (n1_state ''a'' STATE_RUNNING JOB_STATE_RUNNING))))"

lemma n1_env_calm: "calm_env (n1_env L)"
  by (simp add: calm_env_def n1_env_def)

lemma n1_manager_reach: "t \<in> {JOB_STATE_RUNNING, JOB_STATE_SAVED} \<Longrightarrow> sm_reach (n1_manager t)"
  unfolding n1_manager_def
  by (auto simp: TransitionToRunning_def[symmetric] TransitionToSaved_def[symmetric]
      intro!: reach_running reach_register sm_reach.start sm_reach.step[OF _ sm_step.saved[OF surjective_pairing]])

text \<open>A fleet is in order when its managers are reachable and no operation was started yet.\<close>

lemma fleet_okI:
  assumes "list_all (\<lambda>x. srv_state (snd x) = sm \<and> length (srv_workers (snd x)) = 0) (fl_servers F)" and "sm_reach sm"
  shows "fleet_ok F"
  using assms by (auto simp: fleet_ok_def list_all_iff workers_ok_def dest!: map_of_SomeD)

lemma n1_observed:
  defines "o1 \<equiv> ObserveGroupState (n1_env clear_link) ''g'' (n1_state ''a'' STATE_RUNNING JOB_STATE_RUNNING)"
  shows "fst o1 = None" and "jobs (snd o1) = jobs (n1_state ''a'' STATE_RUNNING JOB_STATE_RUNNING)"
    and "gr_cacheTTL (fst (world (snd o1))) \<le> 0" and "fleet_ok (snd (world (snd o1)))"
    and "job_state (node_manager ''n1'' (world (snd o1))) ''a'' \<noteq> None"
    and "job_state (node_manager ''n1'' (world (snd o1))) ''b'' \<noteq> None"
proof -
  have "list_all (\<lambda>x. srv_state (snd x) = n1_manager JOB_STATE_RUNNING \<and> length (srv_workers (snd x)) = 0)
      (fl_servers (snd (world (snd o1))))" unfolding o1_def by code_simp
  then show "fleet_ok (snd (world (snd o1)))" by (rule fleet_okI) (simp add: n1_manager_reach)
qed (unfold o1_def, code_simp+)

lemma n1_decided:
  "\<exists>grp. fst (decide (n1_env clear_link) ''g'' (n1_state ''a'' STATE_RUNNING JOB_STATE_RUNNING)) = Inr grp \<and>
     activeJob (spec grp) = ''a'' \<and> nodes (status grp) = [''n1'']"
proof -
  have "case fst (decide (n1_env clear_link) ''g'' (n1_state ''a'' STATE_RUNNING JOB_STATE_RUNNING)) of
      Inr grp \<Rightarrow> activeJob (spec grp) = ''a'' \<and> nodes (status grp) = [''n1''] | _ \<Rightarrow> False" by code_simp
  then show ?thesis by (auto split: sum.splits)
qed

lemma n1_pool_facts:
  "\<exists>k. procs n1_pool ! 0 = Call (AgentRestore ''n1'' ''a'' ''g'' None) k" "0 < length (procs n1_pool)"
  "\<exists>js job. hd (calls_of 0 (plog n1_pool)) = (ListJobs ''g'', RJobs (Inr js)) \<and> job \<in> set js \<and>
     j_jobID job = ''b'' \<and> ctx_at (contextState job) ''n1'' = STATE_RUNNING"
proof -
  have "case procs n1_pool ! 0 of Call q k \<Rightarrow> q = AgentRestore ''n1'' ''a'' ''g'' None | _ \<Rightarrow> False" by code_simp
  then show "\<exists>k. procs n1_pool ! 0 = Call (AgentRestore ''n1'' ''a'' ''g'' None) k" by (auto split: proc.splits)
  show "0 < length (procs n1_pool)" by code_simp
  have "case hd (calls_of 0 (plog n1_pool)) of (ListJobs g, RJobs (Inr js)) \<Rightarrow> g = ''g'' \<and>
      list_ex (\<lambda>job. j_jobID job = ''b'' \<and> ctx_at (contextState job) ''n1'' = STATE_RUNNING) js | _ \<Rightarrow> False" by code_simp
  then show "\<exists>js job. hd (calls_of 0 (plog n1_pool)) = (ListJobs ''g'', RJobs (Inr js)) \<and> job \<in> set js \<and>
     j_jobID job = ''b'' \<and> ctx_at (contextState job) ''n1'' = STATE_RUNNING"
    by (auto simp: list_ex_iff split: prod.splits node_req.splits node_resp.splits sum.splits)
qed


end
