(* ===== verification/Lost_Status.thy ===== *)
theory Lost_Status
  imports Handover Orch_Server
begin

text \<open>
  A run of the orchestrator against the agent of one node while status requests are lost and all others get
  through. The controller logs a failed status request and goes on with what it knew before
  (\<^verbatim>\<open>observeNodeJobContext\<close>). The run shows what that leads to: both jobs of the group run on the node.
\<close>

text \<open>Status requests fail from the first operation of the agent on.\<close>

definition lossy_link :: "(cmd list) link" where
  "lossy_link = clear_link\<lparr>ln_status := (\<lambda>a F. case map_of (fl_servers F) a of
      None \<Rightarrow> None
    | Some s \<Rightarrow> if sm_operations (srv_state s) = [] then None else Some (Status Code_Unavailable ''connection reset''))\<rparr>"

definition ls_env :: "(mem_lock_store, cmd list) fleet_env" where
  "ls_env = n1_env lossy_link"

text \<open>The pass requests the restore, the agent runs it, the pass polls it and refreshes the node.\<close>

definition ls_steps :: "(mem_lock_store, (cmd list) fleet grpc_world) sched list" where
  "ls_steps = replicate 4 (NodeStep 0) @ Other (end_operation ''n1:1'') # replicate 4 (NodeStep 0)"

text \<open>Both jobs are saved; \<open>b\<close> holds the group, and the reconciliation restores it.\<close>

definition ls_start :: "(mem_lock_store, cmd list) fleet_orch" where
  "ls_start = n1_state ''b'' STATE_SAVED JOB_STATE_SAVED"

definition ls_restored :: "go_error option option \<times> (mem_lock_store, cmd list) fleet_orch" where
  "ls_restored = reconcileGroup ls_env 1 ls_steps ''g'' ls_start"

text \<open>\<open>b\<close> gives the group back, \<open>a\<close> asks for it, and the next reconciliation restores \<open>a\<close>.\<close>

definition ls_asked :: "(mem_lock_store, cmd list) fleet_orch \<Rightarrow> (mem_lock_store, cmd list) fleet_orch" where
  "ls_asked st = snd (acquire_request ls_env ''g'' ''a'' (snd (Yield ls_env ''g'' ''b'' None st)))"

definition ls_both :: "go_error option option \<times> (mem_lock_store, cmd list) fleet_orch" where
  "ls_both = reconcileGroup ls_env 1 ls_steps ''g'' (ls_asked (snd ls_restored))"

subsection \<open>The run by stages\<close>

definition ls_pool :: "string \<Rightarrow> (mem_lock_store, cmd list) fleet_orch \<Rightarrow> (mem_lock_store, (cmd list) fleet grpc_world) pool" where
  "ls_pool a st = run_pool ls_env ls_steps (start_pool 1 ''g'' a [''n1''] (snd (decide ls_env ''g'' st)))"

definition decided :: "string \<Rightarrow> (mem_lock_store, cmd list) fleet_orch \<Rightarrow> bool" where
  "decided a st \<longleftrightarrow> (case fst (decide ls_env ''g'' st) of
     Inr grp \<Rightarrow> activeJob (spec grp) = a \<and> nodes (status grp) = [''n1''] | _ \<Rightarrow> False)"

lemma reconcile_by_stages:
  assumes "decided a st" and "results (procs (ls_pool a st)) = Some [None]"
  shows "reconcileGroup ls_env 1 ls_steps ''g'' st =
    (Some (fst (publish ls_env ''g'' (pstate (ls_pool a st)))), snd (publish ls_env ''g'' (pstate (ls_pool a st))))"
proof -
  from assms(1) obtain grp where g: "fst (decide ls_env ''g'' st) = Inr grp" "activeJob (spec grp) = a" "nodes (status grp) = [''n1'']"
    by (auto simp: decided_def split: sum.splits)
  then have d: "decide ls_env ''g'' st = (Inr grp, snd (decide ls_env ''g'' st))" by (metis prod.collapse)
  have j: "errors_join [None] = None" by (simp add: errors_join_None_iff)
  have p: "run_pool ls_env ls_steps (start_pool 1 ''g'' a [''n1''] (snd (decide ls_env ''g'' st))) = ls_pool a st"
    by (simp only: ls_pool_def)
  show ?thesis
    unfolding reconcileGroup_def by (subst d) (simp only: prod.case sum.case g Let_def p assms(2) option.case j case_prod_unfold fst_conv snd_conv)
qed

definition ls_one :: "(mem_lock_store, cmd list) fleet_orch" where
  "ls_one = snd (publish ls_env ''g'' (pstate (ls_pool ''b'' ls_start)))"

lemma ls_first:
  "decided ''b'' ls_start" "results (procs (ls_pool ''b'' ls_start)) = Some [None]"
  "fst (publish ls_env ''g'' (pstate (ls_pool ''b'' ls_start))) = None"
  by code_simp+

lemma ls_restored_eq: "ls_restored = (Some None, ls_one)"
  unfolding ls_restored_def reconcile_by_stages[OF ls_first(1,2)] ls_one_def ls_first(3) ..

lemma ls_second:
  "decided ''a'' (ls_asked ls_one)" "results (procs (ls_pool ''a'' (ls_asked ls_one))) = Some [None]"
  "fst (publish ls_env ''g'' (pstate (ls_pool ''a'' (ls_asked ls_one)))) = None"
  by code_simp+

definition ls_two :: "(mem_lock_store, cmd list) fleet_orch" where
  "ls_two = snd (publish ls_env ''g'' (pstate (ls_pool ''a'' (ls_asked ls_one))))"

lemma ls_both_eq: "ls_both = (Some None, ls_two)"
  unfolding ls_both_def ls_restored_eq snd_conv reconcile_by_stages[OF ls_second(1,2)] ls_two_def ls_second(3) ..


end
