(* ===== verification/Agent_Poll.thy ===== *)
theory Agent_Poll
  imports Node_Pass Agent_Server
begin

text \<open>
  The orchestrator's wait for an operation against the agent that runs it: what the agent
  answers to \<^verbatim>\<open>GetOperation\<close> decides whether \<^verbatim>\<open>waitForOperation\<close> returns.
\<close>

text \<open>The identifier that stands for a restore that was not needed never names an operation.\<close>

lemma already_running_unknown:
  assumes "sm_reach (srv_state srv)"
  shows "\<exists>m. agent_GetOperation now already_running srv = Inl (Status Code_NotFound m)"
  using sm_reach_inv[OF assms] by (auto simp: sm_inv_def agent_GetOperation_def sm_GetOperation_def)

text \<open>C40: A restore of a job that already runs blocks the orchestrator. For a job that is RUNNING
  with no slot the agent accepts a restore without doing anything and answers with the identifier
  \<^verbatim>\<open>already-running\<close>. No operation ever has that identifier: in every later state of the
  agent, polling it fails with NotFound. The orchestrator's wait for it makes no progress: after
  any number of polls, at any times and in any later states of the agent, it is back at the start
  of its loop.\<close>

theorem already_running_is_polled_forever:
  assumes "sm_reach (srv_state srv)"
    and "checkFeatureGates s (ar_backend_config req) = None"
    and "map_of (backendMap s) (getSnapshotBackendType s (ar_backend_config req)) = Some be"
    and "buildRestoreFn s (ar_job_id req) (getSnapshotBackendType s (ar_backend_config req)) be (ar_backend_config req) = Inr fn"
    and "memoryRegionsSlot (ar_backend_config req) (ar_job_id req) = []"
    and "map_of (sm_jobs (srv_state srv)) (ar_job_id req) = Some job"
    and "aj_State job = JOB_STATE_RUNNING" and "aj_Slot job = []" and "opID \<noteq> already_running"
    and "list_all (\<lambda>(t, srv'). sm_steps (srv_state srv) (srv_state srv')) later"
    and "as = map (\<lambda>(t, srv'). agent_GetOperation t already_running srv') later"
  shows "agent_Restore s opID now req srv = (Inr already_running, srv) \<and>
    after (waitForOperation (fuel + length as) g j n already_running ty) (polls n already_running as) =
      Some (waitForOperation fuel g j n already_running ty)"
proof
  show "agent_Restore s opID now req srv = (Inr already_running, srv)"
    using assms(2-9)
    by (simp add: agent_Restore_def keep_worker_def StartRestoreSlot_def getOrCreateJob_def)
  have "unfinished (agent_GetOperation t already_running srv')" if "(t, srv') \<in> set later" for t srv'
  proof -
    have "sm_steps (srv_state srv) (srv_state srv')" using assms(10) that by (auto simp: list_all_iff)
    then have "sm_reach (srv_state srv')" using assms(1) sm_steps_reach by blast
    then show ?thesis using already_running_unknown[of srv' t] by (auto simp: unfinished_def)
  qed
  then have "list_all unfinished as" unfolding assms(11) by (auto simp: list_all_iff)
  from wait_polls[OF this, of fuel g j n already_running ty "[]"]
  show "after (waitForOperation (fuel + length as) g j n already_running ty) (polls n already_running as) =
      Some (waitForOperation fuel g j n already_running ty)" by simp
qed

lemma already_running_is_polled_forever_witness:
  "agent_Restore demo_cfg ''op'' 5 \<lparr>ar_job_id = ''j'', ar_group = ''g'', ar_backend_config = None\<rparr> running_server =
     (Inr already_running, running_server) \<and>
   after (waitForOperation (1 + length [agent_GetOperation 6 already_running running_server, agent_GetOperation 7 already_running running_server])
       ''g'' ''j'' ''n'' already_running ''restore'')
     (polls ''n'' already_running [agent_GetOperation 6 already_running running_server, agent_GetOperation 7 already_running running_server]) =
   Some (waitForOperation 1 ''g'' ''j'' ''n'' already_running ''restore'')"
proof -
  let ?req = "\<lparr>ar_job_id = ''j'', ar_group = ''g'', ar_backend_config = None\<rparr>"
  have r: "sm_reach (srv_state running_server)"
    by (simp add: running_server_def NewServer_def) (intro reach_running reach_register sm_reach.start)
  have j: "map_of (sm_jobs (srv_state running_server)) (ar_job_id ?req) =
      Some \<lparr>aj_ID = ''j'', aj_Group = ''g'', aj_State = JOB_STATE_RUNNING, aj_PIDs = [7], aj_Slot = []\<rparr>"
    by (simp add: running_server_def NewServer_def TransitionToRunning_def transitionTo_def RegisterJob_def
        getOrCreateJob_def NewStateManager_def set_job_def newAgentJob_def Let_def)
  obtain fn where f: "buildRestoreFn demo_cfg (ar_job_id ?req) (getSnapshotBackendType demo_cfg (ar_backend_config ?req))
      (NewCudaCheckpoint one_failure_host) (ar_backend_config ?req) = Inr fn"
    using demo_facts(1) by (simp add: buildRestoreFn_def getSnapshotBackendType_def demo_cfg_def)
  have b: "map_of (backendMap demo_cfg) (getSnapshotBackendType demo_cfg (ar_backend_config ?req)) = Some (NewCudaCheckpoint one_failure_host)"
    by (simp add: demo_cfg_def getSnapshotBackendType_def)
  have l: "list_all (\<lambda>(t, srv'). sm_steps (srv_state running_server) (srv_state srv')) [(6, running_server), (7, running_server)]"
    by (simp add: sm_steps.none)
  have c: "checkFeatureGates demo_cfg (ar_backend_config ?req) = None"
    and m: "memoryRegionsSlot (ar_backend_config ?req) (ar_job_id ?req) = []"
    by (simp_all add: checkFeatureGates_def memoryRegionsSlot_def)
  have st: "aj_State \<lparr>aj_ID = ''j'', aj_Group = ''g'', aj_State = JOB_STATE_RUNNING, aj_PIDs = [7], aj_Slot = []\<rparr> = JOB_STATE_RUNNING"
    and sl: "aj_Slot \<lparr>aj_ID = ''j'', aj_Group = ''g'', aj_State = JOB_STATE_RUNNING, aj_PIDs = [7], aj_Slot = []\<rparr> = []"
    and ne: "''op'' \<noteq> already_running"
    by (simp_all add: already_running_def)
  show ?thesis
    using already_running_is_polled_forever[OF r c b f m j st sl ne l refl, of 5 1 "''g''" "''j''" "''n''" "''restore''"]
    by (simp only: list.map prod.case)
qed

end
