(* ===== verification/Workload_Channel.thy ===== *)
theory Workload_Channel
  imports Backends Agent_State
begin

text \<open>
  Workload channels of the snapshot agent: the registry of workload sessions and the dispatch of
  commands to them (\<^verbatim>\<open>backends/app_channel.go\<close>), and the handler of a workload's stream
  (\<^verbatim>\<open>server/workload_channel.go\<close>).

  A session is a pointer: sessions live in a heap under numbers, and the registry maps a job to
  the number of its current session. The Go channel on which a dispatch waits is named by the
  command's identifier; it buffers one result. \<^verbatim>\<open>Dispatch\<close> blocks between sending and its
  select, so it is two operations: \<open>dispatch_send\<close>, and \<open>dispatch_end\<close> with the branch of the
  select that was taken. The lists \<open>ch_received\<close> and \<open>ch_ids\<close> record the results read off the
  streams and the command identifiers (UUIDs) handed out.
\<close>

record WorkloadCapabilities =
  wc_default_mode :: int
  wc_supported_modes :: "int list"

record CommandResult =
  cr_command_id :: string
  cr_ok :: bool
  cr_error :: string

datatype AgentCommand =
    SnapshotCommand int "string list"
  | RestoreCommand "string list"

record WorkloadSession =
  ws_jobID :: string
  ws_caps :: "WorkloadCapabilities option"
  ws_pending :: "string list"
  ws_closed :: bool

record chan_state =
  ch_sessions :: "(nat \<times> WorkloadSession) list"
  ch_registry :: "(string \<times> nat) list"
  ch_next :: nat
  ch_results :: "(string \<times> CommandResult) list"
  ch_waiting :: "(string \<times> nat) list"
  ch_sent :: "(string \<times> nat \<times> AgentCommand) list"
  ch_received :: "(nat \<times> CommandResult) list"
  ch_ids :: "string list"

definition NewChannelRegistry :: chan_state where
  "NewChannelRegistry =
     \<lparr>ch_sessions = [], ch_registry = [], ch_next = 0, ch_results = [], ch_waiting = [], ch_sent = [], ch_received = [], ch_ids = []\<rparr>"

definition set_session :: "nat \<Rightarrow> WorkloadSession \<Rightarrow> chan_state \<Rightarrow> chan_state" where
  "set_session sid s st = st\<lparr>ch_sessions := AList.update sid s (ch_sessions st)\<rparr>"

subsection \<open>Sessions\<close>

definition session_close :: "nat \<Rightarrow> chan_state \<Rightarrow> chan_state" where
  "session_close sid st =
     (case map_of (ch_sessions st) sid of
        None \<Rightarrow> st
      | Some s \<Rightarrow> set_session sid (s\<lparr>ws_closed := True\<rparr>) st)"

definition HandleResult :: "nat \<Rightarrow> CommandResult \<Rightarrow> chan_state \<Rightarrow> chan_state" where
  "HandleResult sid res st =
     (case map_of (ch_sessions st) sid of
        None \<Rightarrow> st
      | Some s \<Rightarrow>
          let st1 = st\<lparr>ch_received := (sid, res) # ch_received st\<rparr> in
          if cr_command_id res \<in> set (ws_pending s)
          then (set_session sid (s\<lparr>ws_pending := removeAll (cr_command_id res) (ws_pending s)\<rparr>) st1)
                 \<lparr>ch_results := AList.update (cr_command_id res) res (ch_results st)\<rparr>
          else st1)"

text \<open>The deferred removal of a command from its session.\<close>

definition forget_command :: "nat \<Rightarrow> string \<Rightarrow> chan_state \<Rightarrow> chan_state" where
  "forget_command sid c st =
     (case map_of (ch_sessions st) sid of
        None \<Rightarrow> st
      | Some s \<Rightarrow> set_session sid (s\<lparr>ws_pending := removeAll c (ws_pending s)\<rparr>) st)"

definition dispatch_send ::
  "nat \<Rightarrow> string \<Rightarrow> AgentCommand \<Rightarrow> go_error option \<Rightarrow> chan_state \<Rightarrow> go_error option \<times> chan_state" where
  "dispatch_send sid c cmd sendErr st =
     (case map_of (ch_sessions st) sid of
        None \<Rightarrow> (None, st)
      | Some s \<Rightarrow>
          let st1 = (set_session sid (s\<lparr>ws_pending := List.insert c (ws_pending s)\<rparr>) st)\<lparr>ch_ids := c # ch_ids st\<rparr> in
          (case sendErr of
             Some err \<Rightarrow>
               (Some (Wrap (errorf [''failed to send command to workload '', ws_jobID s]) err), forget_command sid c st1)
           | None \<Rightarrow>
               (None, st1\<lparr>ch_sent := (c, sid, cmd) # ch_sent st, ch_waiting := AList.update c sid (ch_waiting st)\<rparr>)))"

datatype select_branch = BrResult | BrClosed | BrCtx go_error

text \<open>\<open>None\<close>: the branch is not ready, or nobody waits for this command.\<close>

definition dispatch_end :: "string \<Rightarrow> select_branch \<Rightarrow> chan_state \<Rightarrow> (go_error option \<times> chan_state) option" where
  "dispatch_end c br st =
     (case map_of (ch_waiting st) c of
        None \<Rightarrow> None
      | Some sid \<Rightarrow>
          (case map_of (ch_sessions st) sid of
             None \<Rightarrow> None
           | Some s \<Rightarrow>
               let st1 = (forget_command sid c st)\<lparr>ch_waiting := AList.delete c (ch_waiting st)\<rparr> in
               (case br of
                  BrResult \<Rightarrow>
                    (case map_of (ch_results st) c of
                       None \<Rightarrow> None
                     | Some res \<Rightarrow>
                         let st2 = st1\<lparr>ch_results := AList.delete c (ch_results st)\<rparr> in
                         if \<not> cr_ok res
                         then Some (Some (Text (errorf [''workload '', ws_jobID s, '' failed command: '', cr_error res])), st2)
                         else Some (None, st2))
                | BrClosed \<Rightarrow>
                    if ws_closed s
                    then Some (Some (Text (errorf [''workload '', ws_jobID s, '' disconnected before completing command''])), st1)
                    else None
                | BrCtx err \<Rightarrow>
                    Some (Some (Wrap (errorf [''timed out waiting for workload '', ws_jobID s, '' to complete command'']) err), st1))))"

subsection \<open>The registry\<close>

definition Register :: "string \<Rightarrow> WorkloadCapabilities option \<Rightarrow> chan_state \<Rightarrow> nat \<times> chan_state" where
  "Register jobID caps st =
     (let sid = ch_next st;
          st1 = (set_session sid \<lparr>ws_jobID = jobID, ws_caps = caps, ws_pending = [], ws_closed = False\<rparr> st)
                  \<lparr>ch_next := Suc sid, ch_registry := AList.update jobID sid (ch_registry st)\<rparr>
      in (sid, (case map_of (ch_registry st) jobID of None \<Rightarrow> st1 | Some old \<Rightarrow> session_close old st1)))"

definition Unregister :: "nat \<Rightarrow> chan_state \<Rightarrow> chan_state" where
  "Unregister sid st =
     (case map_of (ch_sessions st) sid of
        None \<Rightarrow> st
      | Some s \<Rightarrow>
          let st1 = (if map_of (ch_registry st) (ws_jobID s) = Some sid
                     then st\<lparr>ch_registry := AList.delete (ws_jobID s) (ch_registry st)\<rparr> else st)
          in session_close sid st1)"

definition Session :: "string \<Rightarrow> chan_state \<Rightarrow> go_error + nat" where
  "Session jobID st =
     (case map_of (ch_registry st) jobID of
        None \<Rightarrow> Inl (Text (errorf [''no workload channel registered for job '', jobID]))
      | Some sid \<Rightarrow> Inr sid)"

definition default_mode :: "WorkloadCapabilities option \<Rightarrow> int" where
  "default_mode caps = (case caps of None \<Rightarrow> SUSPEND_MODE_UNSPECIFIED | Some c \<Rightarrow> wc_default_mode c)"

definition supported_modes :: "WorkloadCapabilities option \<Rightarrow> int list" where
  "supported_modes caps = (case caps of None \<Rightarrow> [] | Some c \<Rightarrow> wc_supported_modes c)"

definition mode_text :: "int \<Rightarrow> string" where
  "mode_text m = (case SuspendMode_name m of Some n \<Rightarrow> n | None \<Rightarrow> Itoa m)"

definition resolveSuspendMode :: "int \<Rightarrow> WorkloadCapabilities option \<Rightarrow> go_error + int" where
  "resolveSuspendMode requested caps =
     (let mode0 = (if requested = SUSPEND_MODE_UNSPECIFIED then default_mode caps else requested);
          mode = (if mode0 = SUSPEND_MODE_UNSPECIFIED then SUSPEND_MODE_OFFLOAD else mode0)
      in if length (supported_modes caps) = 0 then Inr mode
         else if mode \<in> set (supported_modes caps) then Inr mode
         else Inl (Text (errorf [''workload does not support suspend mode '', mode_text mode,
                '' (supports '', strings_join '' '' (map mode_text (supported_modes caps)), '')''])))"

subsection \<open>The backend\<close>

text \<open>
  \<^verbatim>\<open>AppChannelBackend.Snapshot\<close> and \<^verbatim>\<open>Restore\<close> up to the select of the dispatch: the
  error with which they return at once, or the command they wait for.
\<close>

definition session_caps :: "nat \<Rightarrow> chan_state \<Rightarrow> WorkloadCapabilities option" where
  "session_caps sid st = (case map_of (ch_sessions st) sid of None \<Rightarrow> None | Some s \<Rightarrow> ws_caps s)"

definition dispatch_start ::
  "nat \<Rightarrow> string \<Rightarrow> AgentCommand \<Rightarrow> go_error option \<Rightarrow> chan_state \<Rightarrow> (go_error + string) \<times> chan_state" where
  "dispatch_start sid c cmd sendErr st =
     (case dispatch_send sid c cmd sendErr st of
        (Some err, st1) \<Rightarrow> (Inl err, st1)
      | (None, st1) \<Rightarrow> (Inr c, st1))"

definition channel_Snapshot ::
  "string \<Rightarrow> go_error option \<Rightarrow> Request \<Rightarrow> chan_state \<Rightarrow> (go_error + string) \<times> chan_state" where
  "channel_Snapshot c sendErr req st =
     (case rq_Config req of
        Some (AppChannel cfg) \<Rightarrow>
          (case Session (rq_JobID req) st of
             Inl err \<Rightarrow> (Inl err, st)
           | Inr sid \<Rightarrow>
               (case resolveSuspendMode (ac_mode cfg) (session_caps sid st) of
                  Inl err \<Rightarrow> (Inl (Wrap (errorf [''cannot snapshot job '', rq_JobID req]) err), st)
                | Inr mode \<Rightarrow> dispatch_start sid c (SnapshotCommand mode (ac_tags cfg)) sendErr st))
      | _ \<Rightarrow> (Inl (Text (errorf [''app_channel config is required''])), st))"

definition channel_Restore ::
  "string \<Rightarrow> go_error option \<Rightarrow> Request \<Rightarrow> chan_state \<Rightarrow> (go_error + string) \<times> chan_state" where
  "channel_Restore c sendErr req st =
     (case rq_Config req of
        Some (AppChannel cfg) \<Rightarrow>
          (case Session (rq_JobID req) st of
             Inl err \<Rightarrow> (Inl err, st)
           | Inr sid \<Rightarrow> dispatch_start sid c (RestoreCommand (ac_tags cfg)) sendErr st)
      | _ \<Rightarrow> (Inl (Text (errorf [''app_channel config is required''])), st))"

subsection \<open>The stream handler\<close>

record RegisterWorkload =
  rw_job_id :: string
  rw_group :: string
  rw_capabilities :: "WorkloadCapabilities option"

datatype WorkloadMessage =
    MsgRegister RegisterWorkload
  | MsgResult CommandResult
  | MsgNone

text \<open>
  The handler between two calls of \<^verbatim>\<open>Recv\<close>: waiting for the registration, registered, or
  returned with its result. \<open>Inl\<close> is an error from \<^verbatim>\<open>Recv\<close>.
\<close>

datatype stream_handler =
    AwaitRegistration
  | Registered nat
  | Returned "go_error option"

definition WorkloadChannel ::
  "(go_error \<Rightarrow> string) \<Rightarrow> stream_handler \<Rightarrow> go_error + WorkloadMessage \<Rightarrow> chan_state \<times> StateManager \<Rightarrow>
     stream_handler \<times> (chan_state \<times> StateManager)" where
  "WorkloadChannel errText h event w =
     (case h of
        AwaitRegistration \<Rightarrow>
          (case event of
             Inl err \<Rightarrow>
               (Returned (Some (Status Code_InvalidArgument (errorf [''failed to receive registration message: '', errText err]))), w)
           | Inr (MsgRegister reg) \<Rightarrow>
               if rw_job_id reg = []
               then (Returned (Some (Status Code_InvalidArgument (errorf [''job_id is required to register a workload'']))), w)
               else (case Register (rw_job_id reg) (rw_capabilities reg) (fst w) of
                       (sid, st1) \<Rightarrow> (Registered sid, (st1, RegisterJob (rw_job_id reg) (rw_group reg) (snd w))))
           | Inr _ \<Rightarrow>
               (Returned (Some (Status Code_InvalidArgument (errorf [''first message on the workload channel must be a RegisterWorkload'']))), w))
      | Registered sid \<Rightarrow>
          (case event of
             Inl err \<Rightarrow>
               (Returned (if errors_is err IoEOF then None else Some err), (Unregister sid (fst w), snd w))
           | Inr (MsgResult res) \<Rightarrow> (Registered sid, (HandleResult sid res (fst w), snd w))
           | Inr (MsgRegister reg) \<Rightarrow>
               (Returned (Some (Status Code_InvalidArgument (errorf [''workload is already registered on this stream'']))),
                (Unregister sid (fst w), snd w))
           | Inr MsgNone \<Rightarrow> (Registered sid, w))
      | Returned r \<Rightarrow> (Returned r, w))"

subsection \<open>Reachable states\<close>

inductive ch_step :: "chan_state \<Rightarrow> chan_state \<Rightarrow> bool" where
  register: "Register jobID caps st = (sid, st') \<Longrightarrow> ch_step st st'"
| unregister: "ch_step st (Unregister sid st)"
| result: "ch_step st (HandleResult sid res st)"
| send: "c \<notin> set (ch_ids st) \<Longrightarrow> dispatch_send sid c cmd sendErr st = (r, st') \<Longrightarrow> ch_step st st'"
| finish: "dispatch_end c br st = Some (r, st') \<Longrightarrow> ch_step st st'"

inductive ch_reach :: "chan_state \<Rightarrow> bool" where
  start: "ch_reach NewChannelRegistry"
| step: "ch_reach st \<Longrightarrow> ch_step st st' \<Longrightarrow> ch_reach st'"

subsection \<open>The invariant\<close>

abbreviation session_at :: "chan_state \<Rightarrow> nat \<Rightarrow> WorkloadSession option" where
  "session_at st sid \<equiv> map_of (ch_sessions st) sid"

text \<open>The registered sessions are open sessions of their jobs, and numbers are not reused.\<close>

definition registry_ok :: "chan_state \<Rightarrow> bool" where
  "registry_ok st \<longleftrightarrow>
     (\<forall>j sid. map_of (ch_registry st) j = Some sid \<longrightarrow>
        (\<exists>s. session_at st sid = Some s \<and> ws_jobID s = j \<and> \<not> ws_closed s)) \<and>
     (\<forall>sid s. session_at st sid = Some s \<longrightarrow> sid < ch_next st)"

text \<open>
  A pending command is one a dispatch waits for on that session, with an empty channel; a waiting
  dispatch has its command pending or its result in the channel; a result is in the channel of
  the command it names and came off the stream of the session the dispatch waits on.
\<close>

definition commands_ok :: "chan_state \<Rightarrow> bool" where
  "commands_ok st \<longleftrightarrow>
     (\<forall>sid s c. session_at st sid = Some s \<longrightarrow> c \<in> set (ws_pending s) \<longrightarrow>
        map_of (ch_waiting st) c = Some sid \<and> map_of (ch_results st) c = None) \<and>
     (\<forall>c sid. map_of (ch_waiting st) c = Some sid \<longrightarrow> c \<in> set (ch_ids st) \<and>
        (\<exists>s. session_at st sid = Some s \<and> (c \<in> set (ws_pending s) \<or> map_of (ch_results st) c \<noteq> None))) \<and>
     (\<forall>c res. map_of (ch_results st) c = Some res \<longrightarrow> c \<in> set (ch_ids st) \<and> cr_command_id res = c \<and>
        (\<forall>sid. map_of (ch_waiting st) c = Some sid \<longrightarrow> (sid, res) \<in> set (ch_received st)))"

lemmas chan_ops =
  session_close_def HandleResult_def forget_command_def dispatch_send_def dispatch_end_def Register_def Unregister_def
  set_session_def Let_def

lemma commands_ok_pending:
  assumes "commands_ok st" and "session_at st sid = Some s" and "c \<in> set (ws_pending s)"
  shows "map_of (ch_waiting st) c = Some sid" and "map_of (ch_results st) c = None"
  using assms unfolding commands_ok_def by blast+

lemma commands_ok_waiting:
  assumes "commands_ok st" and "map_of (ch_waiting st) c = Some sid"
  obtains s where "c \<in> set (ch_ids st)" "session_at st sid = Some s" "c \<in> set (ws_pending s) \<or> map_of (ch_results st) c \<noteq> None"
  using assms unfolding commands_ok_def by blast

lemma commands_ok_result:
  assumes "commands_ok st" and "map_of (ch_results st) c = Some res"
  shows "c \<in> set (ch_ids st)" and "cr_command_id res = c"
    and "map_of (ch_waiting st) c = Some sid \<Longrightarrow> (sid, res) \<in> set (ch_received st)"
  using assms unfolding commands_ok_def by blast+

lemma commands_okI:
  assumes "\<And>sid s c. session_at st sid = Some s \<Longrightarrow> c \<in> set (ws_pending s) \<Longrightarrow>
      map_of (ch_waiting st) c = Some sid \<and> map_of (ch_results st) c = None"
    and "\<And>c sid. map_of (ch_waiting st) c = Some sid \<Longrightarrow> c \<in> set (ch_ids st) \<and>
      (\<exists>s. session_at st sid = Some s \<and> (c \<in> set (ws_pending s) \<or> map_of (ch_results st) c \<noteq> None))"
    and "\<And>c res. map_of (ch_results st) c = Some res \<Longrightarrow> c \<in> set (ch_ids st) \<and> cr_command_id res = c \<and>
      (\<forall>sid. map_of (ch_waiting st) c = Some sid \<longrightarrow> (sid, res) \<in> set (ch_received st))"
  shows "commands_ok st"
  using assms unfolding commands_ok_def by blast

text \<open>Changes that leave the commands alone.\<close>

lemma commands_ok_frame:
  assumes "commands_ok st" and "ch_waiting st' = ch_waiting st" and "ch_results st' = ch_results st"
    and "set (ch_received st) \<subseteq> set (ch_received st')" and "ch_ids st' = ch_ids st"
    and "\<And>sid. map_option ws_pending (session_at st' sid) = map_option ws_pending (session_at st sid) \<or>
           session_at st sid = None \<and> (\<exists>s. session_at st' sid = Some s \<and> ws_pending s = [])"
  shows "commands_ok st'"
  unfolding commands_ok_def assms(2,3,5)
proof (intro conjI allI impI)
  fix sid s c
  assume s: "session_at st' sid = Some s" "c \<in> set (ws_pending s)"
  then obtain s0 where "session_at st sid = Some s0" "c \<in> set (ws_pending s0)"
    using assms(6)[of sid] by (cases "session_at st sid") auto
  then show "map_of (ch_waiting st) c = Some sid" "map_of (ch_results st) c = None"
    using commands_ok_pending[OF assms(1)] by blast+
next
  fix c sid
  assume "map_of (ch_waiting st) c = Some sid"
  with assms(1) obtain s where s: "c \<in> set (ch_ids st)" "session_at st sid = Some s"
    "c \<in> set (ws_pending s) \<or> map_of (ch_results st) c \<noteq> None" by (rule commands_ok_waiting)
  from s(2) assms(6)[of sid] obtain s' where "session_at st' sid = Some s'" "ws_pending s' = ws_pending s" by auto
  with s show "c \<in> set (ch_ids st)"
    "\<exists>s. session_at st' sid = Some s \<and> (c \<in> set (ws_pending s) \<or> map_of (ch_results st) c \<noteq> None)" by auto
next
  fix c res
  assume r: "map_of (ch_results st) c = Some res"
  show "c \<in> set (ch_ids st)" "cr_command_id res = c" using commands_ok_result[OF assms(1) r] by auto
  show "(sid, res) \<in> set (ch_received st')" if "map_of (ch_waiting st) c = Some sid" for sid
    using commands_ok_result(3)[OF assms(1) r that] assms(4) by blast
qed

lemma session_close_views [simp]:
  "session_at (session_close k st) sid = (if sid = k then map_option (\<lambda>s. s\<lparr>ws_closed := True\<rparr>) (session_at st k) else session_at st sid)"
  "ch_registry (session_close k st) = ch_registry st" "ch_next (session_close k st) = ch_next st"
  "ch_results (session_close k st) = ch_results st" "ch_waiting (session_close k st) = ch_waiting st"
  "ch_sent (session_close k st) = ch_sent st" "ch_received (session_close k st) = ch_received st" "ch_ids (session_close k st) = ch_ids st"
  by (auto simp: session_close_def set_session_def split: option.splits)

lemma Register_views:
  assumes "registry_ok st" and "Register j caps st = (sid, st')"
  shows "session_at st' k =
      (if k = ch_next st then Some \<lparr>ws_jobID = j, ws_caps = caps, ws_pending = [], ws_closed = False\<rparr>
       else if map_of (ch_registry st) j = Some k then map_option (\<lambda>s. s\<lparr>ws_closed := True\<rparr>) (session_at st k)
       else session_at st k)"
    and "ch_registry st' = AList.update j (ch_next st) (ch_registry st)" and "ch_next st' = Suc (ch_next st)" and "sid = ch_next st"
    and "ch_waiting st' = ch_waiting st" and "ch_results st' = ch_results st" and "ch_received st' = ch_received st" and "ch_ids st' = ch_ids st"
proof -
  have "old \<noteq> ch_next st" if "map_of (ch_registry st) j = Some old" for old
    using assms(1) that by (fastforce simp: registry_ok_def)
  with assms(2) show "session_at st' k =
      (if k = ch_next st then Some \<lparr>ws_jobID = j, ws_caps = caps, ws_pending = [], ws_closed = False\<rparr>
       else if map_of (ch_registry st) j = Some k then map_option (\<lambda>s. s\<lparr>ws_closed := True\<rparr>) (session_at st k)
       else session_at st k)"
    by (auto simp: Register_def set_session_def Let_def split: option.splits)
qed (use assms(2) in \<open>auto simp: Register_def set_session_def Let_def split: option.splits\<close>)

lemma commands_ok_more_ids:
  assumes "commands_ok st" and "ch_sessions st' = ch_sessions st" and "ch_waiting st' = ch_waiting st"
    and "ch_results st' = ch_results st" and "ch_received st' = ch_received st" and "set (ch_ids st) \<subseteq> set (ch_ids st')"
  shows "commands_ok st'"
  using assms(1,6) unfolding commands_ok_def assms(2-5) by blast

lemma Register_ok:
  assumes "registry_ok st" and "commands_ok st" and "Register j caps st = (sid, st')"
  shows "registry_ok st'" and "commands_ok st'"
proof -
  note v = Register_views[OF assms(1,3)]
  have reg: "map_of (ch_registry st) i = Some k \<Longrightarrow> \<exists>s. session_at st k = Some s \<and> ws_jobID s = i \<and> \<not> ws_closed s"
    and lt: "session_at st k = Some s \<Longrightarrow> k < ch_next st" for i k s
    using assms(1) by (auto simp: registry_ok_def)
  show "registry_ok st'"
    unfolding registry_ok_def
  proof (intro conjI allI impI)
    fix i k
    assume i: "map_of (ch_registry st') i = Some k"
    show "\<exists>s. session_at st' k = Some s \<and> ws_jobID s = i \<and> \<not> ws_closed s"
    proof (cases "i = j")
      case False
      with i v(2) have "map_of (ch_registry st) i = Some k" by simp
      from reg[OF this] obtain s where s: "session_at st k = Some s" "ws_jobID s = i" "\<not> ws_closed s" by blast
      then have "k \<noteq> ch_next st" using lt by blast
      moreover have "map_of (ch_registry st) j \<noteq> Some k" using reg[of j k] s False by auto
      ultimately show ?thesis using s v(1) by simp
    qed (use i v in simp)
  next
    fix k s
    assume "session_at st' k = Some s"
    then show "k < ch_next st'" using lt[of k] unfolding v by (auto split: if_splits simp: less_SucI)
  qed
  have "session_at st (ch_next st) = None" using lt by (cases "session_at st (ch_next st)") auto
  then show "commands_ok st'"
    by (intro commands_ok_frame[OF assms(2)]) (auto simp: v option.map_comp comp_def)
qed

lemma Unregister_ok:
  assumes "registry_ok st" and "commands_ok st"
  shows "registry_ok (Unregister sid st)" and "commands_ok (Unregister sid st)"
proof -
  show "registry_ok (Unregister sid st)"
    using assms(1) unfolding Unregister_def registry_ok_def
    by (cases "session_at st sid") (auto simp: Let_def split: if_splits, (metis option.inject)+)
  show "commands_ok (Unregister sid st)"
    by (rule commands_ok_frame[OF assms(2)])
      (cases "session_at st sid"; auto simp: Unregister_def Let_def option.map_comp comp_def)+
qed

lemma registry_ok_frame:
  assumes "registry_ok st" and "ch_registry st' = ch_registry st" and "ch_next st' = ch_next st"
    and "\<And>k. map_option (\<lambda>s. (ws_jobID s, ws_closed s)) (session_at st' k) = map_option (\<lambda>s. (ws_jobID s, ws_closed s)) (session_at st k)"
  shows "registry_ok st'"
proof -
  have "session_at st' k = Some s \<Longrightarrow> session_at st k \<noteq> None" for k s using assms(4)[of k] by (cases "session_at st k") auto
  moreover have "\<exists>s. session_at st' k = Some s \<and> ws_jobID s = j \<and> \<not> ws_closed s"
    if "session_at st k = Some s0" "ws_jobID s0 = j" "\<not> ws_closed s0" for k s0 j
    using that assms(4)[of k] by (cases "session_at st' k") auto
  ultimately show ?thesis using assms(1) unfolding registry_ok_def assms(2,3) by blast
qed

text \<open>Changing the pending commands of one session.\<close>

definition with_pending :: "nat \<Rightarrow> (string list \<Rightarrow> string list) \<Rightarrow> chan_state \<Rightarrow> chan_state" where
  "with_pending sid f st =
     st\<lparr>ch_sessions := (case session_at st sid of
          None \<Rightarrow> ch_sessions st
        | Some s \<Rightarrow> AList.update sid (s\<lparr>ws_pending := f (ws_pending s)\<rparr>) (ch_sessions st))\<rparr>"

lemma with_pending_views [simp]:
  "session_at (with_pending sid f st) k = (if k = sid then map_option (\<lambda>s. s\<lparr>ws_pending := f (ws_pending s)\<rparr>) (session_at st sid) else session_at st k)"
  "ch_registry (with_pending sid f st) = ch_registry st" "ch_next (with_pending sid f st) = ch_next st"
  "ch_results (with_pending sid f st) = ch_results st" "ch_waiting (with_pending sid f st) = ch_waiting st"
  "ch_sent (with_pending sid f st) = ch_sent st" "ch_received (with_pending sid f st) = ch_received st"
  "ch_ids (with_pending sid f st) = ch_ids st"
  by (auto simp: with_pending_def split: option.splits)

lemma forget_command_pending: "forget_command sid c st = with_pending sid (removeAll c) st"
  by (auto simp: forget_command_def with_pending_def set_session_def split: option.splits)

lemma registry_ok_pending: "registry_ok st \<Longrightarrow> registry_ok (with_pending sid f st)"
  by (rule registry_ok_frame) (auto simp: option.map_comp comp_def)

lemma HandleResult_alt:
  "HandleResult sid res st =
     (case session_at st sid of
        None \<Rightarrow> st
      | Some s \<Rightarrow>
          if cr_command_id res \<in> set (ws_pending s)
          then (with_pending sid (removeAll (cr_command_id res)) st)
             \<lparr>ch_received := (sid, res) # ch_received st, ch_results := AList.update (cr_command_id res) res (ch_results st)\<rparr>
          else st\<lparr>ch_received := (sid, res) # ch_received st\<rparr>)"
  by (auto simp: HandleResult_def with_pending_def set_session_def Let_def split: option.splits)

lemma HandleResult_ok:
  assumes "registry_ok st" and "commands_ok st"
  shows "registry_ok (HandleResult sid res st)" and "commands_ok (HandleResult sid res st)"
proof -
  let ?c = "cr_command_id res"
  show "registry_ok (HandleResult sid res st)"
    by (rule registry_ok_frame[OF assms(1)]) (auto simp: HandleResult_alt option.map_comp comp_def split: option.splits)
  show "commands_ok (HandleResult sid res st)"
  proof (cases "\<exists>s. session_at st sid = Some s \<and> ?c \<in> set (ws_pending s)")
    case True
    then obtain s where s: "session_at st sid = Some s" "?c \<in> set (ws_pending s)" by blast
    note w = commands_ok_pending[OF assms(2) s]
    have one: "k = sid" if "session_at st k = Some s'" "?c \<in> set (ws_pending s')" for k s'
      using commands_ok_pending(1)[OF assms(2) that] w(1) by simp
    have id: "?c \<in> set (ch_ids st)" using commands_ok_waiting[OF assms(2) w(1)] by blast
    let ?st = "(with_pending sid (removeAll ?c) st)
        \<lparr>ch_received := (sid, res) # ch_received st, ch_results := AList.update ?c res (ch_results st)\<rparr>"
    have "commands_ok ?st"
    proof (rule commands_okI)
      fix k s' d
      assume a: "session_at ?st k = Some s'" "d \<in> set (ws_pending s')"
      then obtain s0 where s0: "session_at st k = Some s0" "d \<in> set (ws_pending s0)" "k = sid \<longrightarrow> d \<noteq> ?c"
        by (cases "k = sid") auto
      then have "d \<noteq> ?c" using one by blast
      then show "map_of (ch_waiting ?st) d = Some k \<and> map_of (ch_results ?st) d = None"
        using commands_ok_pending[OF assms(2) s0(1,2)] by simp
    next
      fix d k
      assume "map_of (ch_waiting ?st) d = Some k"
      then have "map_of (ch_waiting st) d = Some k" by simp
      with assms(2) obtain s' where "d \<in> set (ch_ids st)" "session_at st k = Some s'"
        "d \<in> set (ws_pending s') \<or> map_of (ch_results st) d \<noteq> None" by (rule commands_ok_waiting)
      then show "d \<in> set (ch_ids ?st) \<and>
          (\<exists>s. session_at ?st k = Some s \<and> (d \<in> set (ws_pending s) \<or> map_of (ch_results ?st) d \<noteq> None))"
        by auto
    next
      fix d r
      assume a: "map_of (ch_results ?st) d = Some r"
      show "d \<in> set (ch_ids ?st) \<and> cr_command_id r = d \<and>
          (\<forall>k. map_of (ch_waiting ?st) d = Some k \<longrightarrow> (k, r) \<in> set (ch_received ?st))"
        using a id w(1) commands_ok_result[OF assms(2), of d r] by (auto split: if_splits)
    qed
    with s show ?thesis by (simp add: HandleResult_alt)
  next
    case False
    show ?thesis
      by (rule commands_ok_frame[OF assms(2)]) (use False in \<open>auto simp: HandleResult_alt split: option.splits\<close>)
  qed
qed

text \<open>A command that is sent waits for its result in the session it was sent over.\<close>

lemma commands_ok_sent:
  assumes ok: "commands_ok st" and "c \<notin> set (ch_ids st)" and s: "session_at st sid = Some s"
  shows "commands_ok ((with_pending sid (List.insert c) st)\<lparr>ch_ids := c # ch_ids st, ch_sent := (c, sid, cmd) # ch_sent st,
    ch_waiting := AList.update c sid (ch_waiting st)\<rparr>)" (is "commands_ok ?st")
proof (rule commands_okI)
  have new: "map_of (ch_waiting st) c = None" "map_of (ch_results st) c = None"
    using commands_ok_waiting[OF ok, of c] commands_ok_result(1)[OF ok, of c] assms(2) by fastforce+
  have np: "c \<notin> set (ws_pending s)" if "session_at st k = Some s" for k s
    using commands_ok_pending(1)[OF ok that] new by auto
  show "map_of (ch_waiting ?st) d = Some k \<and> map_of (ch_results ?st) d = None"
    if "session_at ?st k = Some s'" "d \<in> set (ws_pending s')" for k s' d
    using commands_ok_pending[OF ok] np new s that by (auto split: if_splits)
  show "d \<in> set (ch_ids ?st) \<and> cr_command_id r = d \<and> (\<forall>k. map_of (ch_waiting ?st) d = Some k \<longrightarrow> (k, r) \<in> set (ch_received ?st))"
    if "map_of (ch_results ?st) d = Some r" for d r
    using commands_ok_result[OF ok, of d r] new that by auto
  fix d k
  assume d: "map_of (ch_waiting ?st) d = Some k"
  show "d \<in> set (ch_ids ?st) \<and> (\<exists>s. session_at ?st k = Some s \<and> (d \<in> set (ws_pending s) \<or> map_of (ch_results ?st) d \<noteq> None))"
  proof (cases "d = c")
    case True
    with d s show ?thesis by auto
  next
    case False
    with d have "map_of (ch_waiting st) d = Some k" by simp
    with ok obtain s' where "d \<in> set (ch_ids st)" "session_at st k = Some s'"
      "d \<in> set (ws_pending s') \<or> map_of (ch_results st) d \<noteq> None" by (rule commands_ok_waiting)
    then show ?thesis by auto
  qed
qed

lemma dispatch_send_ok:
  assumes "registry_ok st" and "commands_ok st" and "c \<notin> set (ch_ids st)" and "dispatch_send sid c cmd e st = (r, st')"
  shows "registry_ok st'" and "commands_ok st'"
proof -
  show "registry_ok st'"
    by (rule registry_ok_frame[OF assms(1)])
      (use assms(4) in \<open>auto simp: dispatch_send_def set_session_def forget_command_def Let_def option.map_comp comp_def split: option.splits if_splits\<close>)
  show "commands_ok st'"
  proof (cases "session_at st sid")
    case None
    then show ?thesis using assms(2,4) by (simp add: dispatch_send_def)
  next
    case s: (Some s)
    show ?thesis
    proof (cases e)
      case None
      then have "st' = (with_pending sid (List.insert c) st)\<lparr>ch_ids := c # ch_ids st, ch_sent := (c, sid, cmd) # ch_sent st,
          ch_waiting := AList.update c sid (ch_waiting st)\<rparr>"
        using assms(4) s by (simp add: dispatch_send_def with_pending_def set_session_def Let_def)
      with commands_ok_sent[OF assms(2,3) s] show ?thesis by simp
    next
      case (Some err)
      have eq: "removeAll c (List.insert c p) = removeAll c p" for p by (simp add: List.insert_def)
      have st': "st' = (with_pending sid (removeAll c) st)\<lparr>ch_ids := c # ch_ids st\<rparr>"
        using assms(4) Some s
        by (auto simp: dispatch_send_def with_pending_def forget_command_def set_session_def Let_def eq intro!: chan_state.equality)
      have "c \<notin> set (ws_pending s)"
        using commands_ok_pending(1)[OF assms(2) s] commands_ok_waiting[OF assms(2), of c] assms(3) by blast
      then have "removeAll c (ws_pending s) = ws_pending s" by simp
      then have "commands_ok (with_pending sid (removeAll c) st)"
        using s by (intro commands_ok_frame[OF assms(2)]) auto
      then show ?thesis unfolding st' by (rule commands_ok_more_ids) auto
    qed
  qed
qed

lemma dispatch_end_ok:
  assumes "registry_ok st" and "commands_ok st" and "dispatch_end c br st = Some (r, st')"
  shows "registry_ok st'" and "commands_ok st'"
proof -
  from assms(3) obtain sid s where s: "map_of (ch_waiting st) c = Some sid" "session_at st sid = Some s"
    by (auto simp: dispatch_end_def split: option.splits)
  define rs where "rs = ch_results st'"
  have st': "st' = (with_pending sid (removeAll c) st)\<lparr>ch_waiting := AList.delete c (ch_waiting st), ch_results := rs\<rparr>"
    and rs: "map_of rs d = Some x \<Longrightarrow> map_of (ch_results st) d = Some x" "d \<noteq> c \<Longrightarrow> map_of rs d = map_of (ch_results st) d" for d x
    using assms(3) s unfolding rs_def
    by (auto simp: dispatch_end_def forget_command_pending Let_def split: select_branch.splits option.splits if_splits)
  show "registry_ok st'"
    by (rule registry_ok_frame[OF assms(1)]) (auto simp: st' option.map_comp comp_def)
  show "commands_ok st'"
  proof (rule commands_okI)
    fix k s' d
    assume a: "session_at st' k = Some s'" "d \<in> set (ws_pending s')"
    then obtain s0 where s0: "session_at st k = Some s0" "d \<in> set (ws_pending s0)" "k = sid \<longrightarrow> d \<noteq> c"
      unfolding st' by (cases "k = sid") auto
    note w = commands_ok_pending[OF assms(2) s0(1,2)]
    have "d \<noteq> c" using w(1) s(1) s0(3) by auto
    then show "map_of (ch_waiting st') d = Some k \<and> map_of (ch_results st') d = None"
      using w rs(2) unfolding st' by simp
  next
    fix d k
    assume "map_of (ch_waiting st') d = Some k"
    then have d: "d \<noteq> c" "map_of (ch_waiting st) d = Some k" unfolding st' by (auto split: if_splits)
    from assms(2) d(2) obtain s' where "d \<in> set (ch_ids st)" "session_at st k = Some s'"
      "d \<in> set (ws_pending s') \<or> map_of (ch_results st) d \<noteq> None" by (rule commands_ok_waiting)
    then show "d \<in> set (ch_ids st') \<and> (\<exists>s. session_at st' k = Some s \<and> (d \<in> set (ws_pending s) \<or> map_of (ch_results st') d \<noteq> None))"
      using d(1) rs(2)[of d] unfolding st' by auto
  next
    fix d x
    assume "map_of (ch_results st') d = Some x"
    then have "map_of (ch_results st) d = Some x" using rs(1) unfolding st' by simp
    from commands_ok_result[OF assms(2) this]
    show "d \<in> set (ch_ids st') \<and> cr_command_id x = d \<and> (\<forall>k. map_of (ch_waiting st') d = Some k \<longrightarrow> (k, x) \<in> set (ch_received st'))"
      unfolding st' by (auto split: if_splits)
  qed
qed

lemma ch_reach_ok: "ch_reach st \<Longrightarrow> registry_ok st \<and> commands_ok st"
proof (induction rule: ch_reach.induct)
  case start
  show ?case by (simp add: NewChannelRegistry_def registry_ok_def commands_ok_def)
next
  case (step st st')
  from step.IH have r: "registry_ok st" and c: "commands_ok st" by auto
  from step(2) show ?case
  proof (cases rule: ch_step.cases)
    case (register j caps sid)
    then show ?thesis using Register_ok[OF r c] by simp
  next
    case (unregister sid)
    then show ?thesis using Unregister_ok[OF r c] by simp
  next
    case (result sid res)
    then show ?thesis using HandleResult_ok[OF r c] by simp
  next
    case (send i sid cmd e x)
    then show ?thesis using dispatch_send_ok[OF r c] by simp
  next
    case (finish i br x)
    then show ?thesis using dispatch_end_ok[OF r c] by simp
  qed
qed

subsection \<open>Properties\<close>

text \<open>C20: The registry of workload channels. In every reachable state: the session found for a
  job is an open session of that job; when a workload registers again, its new session is the one
  found afterwards, the session it replaces is closed, and the end of the replaced stream does not
  evict the new session; and after the end of the current stream no session is found for the job.\<close>

theorem replaced_session_does_not_evict:
  assumes "ch_reach st" and "Register j caps st = (sid, st1)" and "Session j st = Inr old"
  shows "(\<exists>s. session_at st old = Some s \<and> ws_jobID s = j \<and> \<not> ws_closed s) \<and>
    old \<noteq> sid \<and> Session j st1 = Inr sid \<and> (\<exists>s. session_at st1 old = Some s \<and> ws_closed s) \<and>
    Session j (Unregister old st1) = Inr sid \<and> (\<exists>s. session_at (Unregister old st1) sid = Some s \<and> \<not> ws_closed s) \<and>
    (\<exists>e. Session j (Unregister sid st1) = Inl e)"
proof -
  have ok: "registry_ok st" using ch_reach_ok[OF assms(1)] by simp
  note v = Register_views[OF ok assms(2)]
  have o: "map_of (ch_registry st) j = Some old" using assms(3) by (auto simp: Session_def split: option.splits)
  then obtain s where s: "session_at st old = Some s" "ws_jobID s = j" "\<not> ws_closed s" "old < ch_next st"
    using ok by (fastforce simp: registry_ok_def)
  then show ?thesis using o v
    by (auto simp: Session_def Unregister_def Let_def)
qed

text \<open>C21: Results reach the command they answer. In every reachable state: a result that arrives
  for a command that is still pending finds the channel of that command empty, so the stream
  handler does not block; a dispatch that waits can end as soon as its result is there, its session
  is closed or its context is done; and a dispatch ends without error only with a positive result
  for its own command, read off the stream of the session it was sent to.\<close>

theorem dispatch_success_is_the_workloads_answer:
  assumes "ch_reach st"
  shows "(session_at st sid = Some s \<and> c \<in> set (ws_pending s) \<longrightarrow> map_of (ch_results st) c = None) \<and>
    (map_of (ch_waiting st) c = Some sid \<longrightarrow>
       (map_of (ch_results st) c \<noteq> None \<longrightarrow> dispatch_end c BrResult st \<noteq> None) \<and>
       (session_at st sid = Some s \<and> ws_closed s \<longrightarrow> dispatch_end c BrClosed st \<noteq> None) \<and>
       dispatch_end c (BrCtx e) st \<noteq> None) \<and>
    (dispatch_end c br st = Some (None, st') \<longrightarrow>
       (\<exists>sid' res. map_of (ch_waiting st) c = Some sid' \<and> (sid', res) \<in> set (ch_received st) \<and> cr_command_id res = c \<and> cr_ok res))"
proof -
  have ok: "commands_ok st" using ch_reach_ok[OF assms] by simp
  have "dispatch_end c BrResult st \<noteq> None" if "map_of (ch_waiting st) c = Some sid" "map_of (ch_results st) c \<noteq> None"
    using ok that(1) by (rule commands_ok_waiting) (use that in \<open>auto simp: dispatch_end_def Let_def\<close>)
  moreover have "dispatch_end c (BrCtx e) st \<noteq> None" if "map_of (ch_waiting st) c = Some sid"
    using ok that by (rule commands_ok_waiting) (use that in \<open>auto simp: dispatch_end_def Let_def\<close>)
  moreover have "\<exists>sid' res. map_of (ch_waiting st) c = Some sid' \<and> (sid', res) \<in> set (ch_received st) \<and> cr_command_id res = c \<and> cr_ok res"
    if d: "dispatch_end c br st = Some (None, st')"
  proof -
    from d obtain k res where k: "map_of (ch_waiting st) c = Some k" "map_of (ch_results st) c = Some res" "cr_ok res"
      by (auto simp: dispatch_end_def Let_def split: option.splits select_branch.splits if_splits)
    then show ?thesis using commands_ok_result(2,3)[OF ok k(2)] by blast
  qed
  ultimately show ?thesis using commands_ok_pending(2)[OF ok] by (auto simp: dispatch_end_def Let_def)
qed

text \<open>
  The suspend mode sent to a workload is always a definite one: never UNSPECIFIED, the
  requested mode when one was requested, and one of the modes the workload declared, if it declared
  any; a mode the workload does not support is refused before anything is sent.\<close>

theorem resolved_suspend_mode:
  "(resolveSuspendMode requested caps = Inr mode \<longrightarrow>
      mode \<noteq> SUSPEND_MODE_UNSPECIFIED \<and> (requested \<noteq> SUSPEND_MODE_UNSPECIFIED \<longrightarrow> mode = requested) \<and>
      (supported_modes caps = [] \<or> mode \<in> set (supported_modes caps))) \<and>
   (rq_Config req = Some (AppChannel cfg) \<and> Session (rq_JobID req) st = Inr sid \<and>
      resolveSuspendMode (ac_mode cfg) (session_caps sid st) = Inl err \<longrightarrow>
      snd (channel_Snapshot c e req st) = st)"
  by (auto simp: resolveSuspendMode_def channel_Snapshot_def Let_def enum_defs split: if_splits)

text \<open>A workload that registers, gets a command and answers it.\<close>

definition one_session :: chan_state where
  "one_session = snd (Register ''j'' None NewChannelRegistry)"

definition one_answer :: chan_state where
  "one_answer = HandleResult 0 \<lparr>cr_command_id = ''c'', cr_ok = True, cr_error = []\<rparr>
     (snd (dispatch_send 0 ''c'' (RestoreCommand []) None one_session))"

lemma one_session_reach: "ch_reach one_session" "ch_reach one_answer"
proof -
  show a: "ch_reach one_session" unfolding one_session_def
    by (rule ch_reach.step[OF ch_reach.start ch_step.register[OF surjective_pairing]])
  have "''c'' \<notin> set (ch_ids one_session)" by code_simp
  from ch_reach.step[OF a ch_step.send[OF this surjective_pairing]]
  have "ch_reach (snd (dispatch_send 0 ''c'' (RestoreCommand []) None one_session))" .
  then show "ch_reach one_answer" unfolding one_answer_def by (rule ch_reach.step[OF _ ch_step.result])
qed

lemma replaced_session_does_not_evict_witness:
  "Session ''j'' one_session = Inr 0 \<and>
   Session ''j'' (Unregister 0 (snd (Register ''j'' None one_session))) = Inr (fst (Register ''j'' None one_session))"
proof -
  have s: "Session ''j'' one_session = Inr 0" by code_simp
  from replaced_session_does_not_evict[OF one_session_reach(1) surjective_pairing s] s show ?thesis by blast
qed

lemma dispatch_success_is_the_workloads_answer_witness:
  "\<exists>st' sid res. dispatch_end ''c'' BrResult one_answer = Some (None, st') \<and> map_of (ch_waiting one_answer) ''c'' = Some sid \<and>
     (sid, res) \<in> set (ch_received one_answer) \<and> cr_command_id res = ''c'' \<and> cr_ok res"
proof -
  have "dispatch_end ''c'' BrResult one_answer \<noteq> None \<and> fst (the (dispatch_end ''c'' BrResult one_answer)) = None" by code_simp
  then obtain st' where d: "dispatch_end ''c'' BrResult one_answer = Some (None, st')" by auto
  with dispatch_success_is_the_workloads_answer[OF one_session_reach(2), THEN conjunct2, THEN conjunct2] show ?thesis by blast
qed

lemma resolved_suspend_mode_witness:
  "resolveSuspendMode SUSPEND_MODE_DISCARD (Some \<lparr>wc_default_mode = 1, wc_supported_modes = [1, 2]\<rparr>) = Inr SUSPEND_MODE_DISCARD \<and>
   SUSPEND_MODE_DISCARD \<in> set (supported_modes (Some \<lparr>wc_default_mode = 1, wc_supported_modes = [1, 2]\<rparr>))"
proof -
  have a: "resolveSuspendMode SUSPEND_MODE_DISCARD (Some \<lparr>wc_default_mode = 1, wc_supported_modes = [1, 2]\<rparr>) = Inr SUSPEND_MODE_DISCARD"
    and b: "supported_modes (Some \<lparr>wc_default_mode = 1, wc_supported_modes = [1, 2]\<rparr>) \<noteq> []" by code_simp+
  from resolved_suspend_mode a b show ?thesis by blast
qed

end
