(* ===== verification/Go_Path.thy ===== *)
theory Go_Path
  imports Go_Text
begin

text \<open>
  What the agent uses of the Go package \<^verbatim>\<open>path/filepath\<close> on Unix: \<^verbatim>\<open>Clean\<close>,
  \<^verbatim>\<open>Join\<close>, \<^verbatim>\<open>Rel\<close> and \<^verbatim>\<open>Base\<close>, on the level of path elements, with
  the lemma the store of memory dumps relies on: a path below a directory whose relative name is one
  element is a direct child of that directory.
\<close>

abbreviation slash :: char where "slash \<equiv> CHR ''/''"

definition rooted :: "string \<Rightarrow> bool" where
  "rooted p \<longleftrightarrow> (case p of [] \<Rightarrow> False | c # _ \<Rightarrow> c = slash)"

text \<open>The elements that are kept, most recent first, with \<^verbatim>\<open>..\<close> resolved.\<close>

definition clean_step :: "bool \<Rightarrow> string list \<Rightarrow> string \<Rightarrow> string list" where
  "clean_step r out e =
     (if e = [] \<or> e = ''.'' then out
      else if e = ''..'' then
        (case out of
           [] \<Rightarrow> if r then [] else [''..'']
         | x # xs \<Rightarrow> if x = ''..'' then ''..'' # out else xs)
      else e # out)"

definition clean_elems :: "bool \<Rightarrow> string list \<Rightarrow> string list \<Rightarrow> string list" where
  "clean_elems r out es = foldl (clean_step r) out es"

definition elems :: "string \<Rightarrow> string list" where
  "elems p = rev (clean_elems (rooted p) [] (Split slash p))"

definition Clean :: "string \<Rightarrow> string" where
  "Clean p =
     (if rooted p then slash # strings_join [slash] (elems p)
      else if elems p = [] then ''.'' else strings_join [slash] (elems p))"

definition path_Join :: "string list \<Rightarrow> string" where
  "path_Join ps = (case dropWhile (\<lambda>p. p = []) ps of [] \<Rightarrow> [] | qs \<Rightarrow> Clean (strings_join [slash] qs))"

text \<open>The elements of a path as it is written, without a leading slash.\<close>

definition written_elems :: "string \<Rightarrow> string list" where
  "written_elems p = (let q = (if rooted p then tl p else p) in if q = [] then [] else Split slash q)"

fun strip_common :: "string list \<Rightarrow> string list \<Rightarrow> string list \<times> string list" where
  "strip_common (b # bs) (t # ts) = (if b = t then strip_common bs ts else (b # bs, t # ts))"
| "strip_common bs ts = (bs, ts)"

text \<open>\<open>None\<close> is an error: the target cannot be reached from the base lexically.\<close>

definition Rel :: "string \<Rightarrow> string \<Rightarrow> string option" where
  "Rel basepath targpath =
     (let base = Clean basepath; targ = Clean targpath in
      if targ = base then Some ''.''
      else if rooted base \<noteq> rooted targ then None
      else
        (case strip_common (if base = ''.'' then [] else written_elems base) (written_elems targ) of
           (bs, ts) \<Rightarrow>
             if bs \<noteq> [] \<and> hd bs = ''..'' then None
             else Some (strings_join [slash] (replicate (length bs) ''..'' @ ts))))"

text \<open>The last element of a path, without trailing slashes.\<close>

definition Base :: "string \<Rightarrow> string" where
  "Base p =
     (if p = [] then ''.''
      else
        let q = rev (dropWhile (\<lambda>c. c = slash) (rev p)) in
        if q = [] then [slash] else rev (takeWhile (\<lambda>c. c \<noteq> slash) (rev q)))"

subsection \<open>Elements\<close>

text \<open>A name that stands for a directory entry.\<close>

definition plain_elem :: "string \<Rightarrow> bool" where
  "plain_elem e \<longleftrightarrow> e \<noteq> [] \<and> e \<noteq> ''.'' \<and> e \<noteq> ''..'' \<and> slash \<notin> set e"

definition kept_elem :: "string \<Rightarrow> bool" where
  "kept_elem e \<longleftrightarrow> e \<noteq> [] \<and> e \<noteq> ''.'' \<and> slash \<notin> set e"

lemma plain_kept: "plain_elem e \<Longrightarrow> kept_elem e"
  by (simp add: plain_elem_def kept_elem_def)

lemma Split_set: "w \<in> set (Split sep s) \<Longrightarrow> sep \<notin> set w"
  by (induction s arbitrary: w) (auto split: if_splits list.splits)

lemma Split_append_sep: "Split sep (a @ sep # b) = Split sep a @ Split sep b"
  by (induction a) (auto split: list.splits)

lemma clean_step_kept: "list_all kept_elem out \<Longrightarrow> slash \<notin> set e \<Longrightarrow> list_all kept_elem (clean_step r out e)"
  by (auto simp: clean_step_def kept_elem_def split: list.split)

lemma clean_elems_kept:
  "list_all kept_elem out \<Longrightarrow> list_all (\<lambda>e. slash \<notin> set e) es \<Longrightarrow> list_all kept_elem (clean_elems r out es)"
  by (induction es arbitrary: out) (simp_all add: clean_elems_def clean_step_kept)

lemma elems_kept: "list_all kept_elem (elems p)"
  unfolding elems_def list_all_rev by (rule clean_elems_kept) (auto simp: list_all_iff dest: Split_set)

lemma elems_no_slash: "e \<in> set (elems p) \<Longrightarrow> slash \<notin> set e"
  using elems_kept[of p] by (auto simp: list_all_iff kept_elem_def)

lemma clean_elems_append: "clean_elems r out (es @ fs) = clean_elems r (clean_elems r out es) fs"
  by (simp add: clean_elems_def)

lemma clean_elems_plain: "plain_elem e \<Longrightarrow> clean_elems r out [e] = e # out"
  by (simp add: clean_elems_def clean_step_def plain_elem_def)

lemma rooted_append: "d \<noteq> [] \<Longrightarrow> rooted (d @ x) = rooted d"
  by (cases d) (simp_all add: rooted_def)

lemma strings_join_not_Nil:
  assumes "list_all kept_elem es" and "es \<noteq> []"
  shows "strings_join [slash] es \<noteq> [] \<and> \<not> rooted (strings_join [slash] es)"
proof -
  obtain e fs where e: "es = e # fs" using assms(2) by (cases es) auto
  have "e \<noteq> []" and "\<not> rooted e" using assms(1) e by (auto simp: kept_elem_def rooted_def split: list.splits)
  then show ?thesis using e by (cases fs) (auto simp: rooted_append)
qed

text \<open>A cleaned path shows its elements.\<close>

lemma rooted_Clean [simp]: "rooted (Clean p) = rooted p"
proof (cases "rooted p")
  case True
  then show ?thesis by (simp add: Clean_def rooted_def[of "slash # _"])
next
  case False
  then show ?thesis
    using strings_join_not_Nil[OF elems_kept[of p]] by (auto simp: Clean_def rooted_def[of "''.''"])
qed

lemma Split_elems: "elems p \<noteq> [] \<Longrightarrow> Split slash (strings_join [slash] (elems p)) = elems p"
  by (rule Split_strings_join) (auto dest: elems_no_slash)

lemma written_Clean: "(if Clean p = ''.'' then [] else written_elems (Clean p)) = elems p"
proof (cases "elems p = []")
  case True
  then show ?thesis by (simp add: Clean_def written_elems_def rooted_def Let_def)
next
  case False
  have nd: "strings_join [slash] (elems p) \<noteq> ''.''"
  proof
    assume "strings_join [slash] (elems p) = ''.''"
    then have "elems p = [''.'']" using Split_elems[OF False] by simp
    then show False using elems_kept[of p] by (simp add: kept_elem_def)
  qed
  with False show ?thesis
    using strings_join_not_Nil[OF elems_kept[of p] False] Split_elems[OF False]
    by (auto simp: Clean_def written_elems_def rooted_def[of "slash # _"] Let_def)
qed

lemma Clean_eqI: "rooted p = rooted q \<Longrightarrow> elems p = elems q \<Longrightarrow> Clean p = Clean q"
  by (simp add: Clean_def)

lemma Join_two: "d \<noteq> [] \<Longrightarrow> path_Join [d, n] = Clean (d @ slash # n)"
  by (simp add: path_Join_def)

lemma elems_child: "d \<noteq> [] \<Longrightarrow> plain_elem n \<Longrightarrow> elems (d @ slash # n) = elems d @ [n]"
  by (simp add: elems_def rooted_append Split_append_sep clean_elems_append Split_no_sep clean_elems_plain plain_elem_def)

lemma strings_join_single:
  assumes "ts \<noteq> []" and "slash \<notin> set (strings_join [slash] ts)"
  shows "\<exists>t. ts = [t]"
  using assms by (cases ts rule: list.exhaust; cases "tl ts") auto

lemma strip_common_parts:
  "strip_common bs ts = (bs', ts') \<Longrightarrow> \<exists>c. bs = c @ bs' \<and> ts = c @ ts'"
  by (induction bs ts rule: strip_common.induct) (auto split: if_splits)

lemma strip_common_prefix: "strip_common bs (bs @ ts) = ([], ts)"
  by (induction bs) (cases ts; simp)+

subsection \<open>Cleaning a clean path\<close>

definition clean_stack :: "bool \<Rightarrow> string list \<Rightarrow> bool" where
  "clean_stack r out \<longleftrightarrow> (\<exists>ps k. out = ps @ replicate k ''..'' \<and> list_all plain_elem ps \<and> (r \<longrightarrow> k = 0))"

lemma clean_stackI: "out = ps @ replicate k ''..'' \<Longrightarrow> list_all plain_elem ps \<Longrightarrow> (r \<longrightarrow> k = 0) \<Longrightarrow> clean_stack r out"
  by (auto simp: clean_stack_def)

lemma clean_step_stack:
  assumes "clean_stack r out" and "slash \<notin> set e"
  shows "clean_stack r (clean_step r out e)"
proof -
  obtain ps k where o: "out = ps @ replicate k ''..''" "list_all plain_elem ps" "r \<longrightarrow> k = 0"
    using assms(1) by (auto simp: clean_stack_def)
  consider "e = [] \<or> e = ''.''" | "e = ''..''" | "plain_elem e" using assms(2) by (auto simp: plain_elem_def)
  then show ?thesis
  proof cases
    case 1
    then show ?thesis using assms(1) by (simp add: clean_step_def)
  next
    case 3
    then have "clean_step r out e = (e # ps) @ replicate k ''..''" using o(1) by (simp add: clean_step_def plain_elem_def)
    then show ?thesis by (rule clean_stackI) (use o 3 in simp_all)
  next
    case 2
    show ?thesis
    proof (cases ps)
      case (Cons p qs)
      then have "clean_step r out e = qs @ replicate k ''..''" using 2 o by (auto simp: clean_step_def plain_elem_def)
      then show ?thesis by (rule clean_stackI) (use o Cons in simp_all)
    next
      case Nil
      then have "clean_step r out e = [] @ replicate (if r then 0 else Suc k) ''..''"
        using 2 o by (cases k) (auto simp: clean_step_def)
      then show ?thesis by (rule clean_stackI) simp_all
    qed
  qed
qed

lemma clean_elems_stack: "clean_stack r out \<Longrightarrow> list_all (\<lambda>e. slash \<notin> set e) es \<Longrightarrow> clean_stack r (clean_elems r out es)"
  by (induction es arbitrary: out) (simp_all add: clean_elems_def clean_step_stack)

lemma elems_stack: "clean_stack (rooted p) (rev (elems p))"
proof -
  have "clean_stack (rooted p) []" by (simp add: clean_stack_def)
  then show ?thesis
    unfolding elems_def rev_rev_ident by (rule clean_elems_stack) (auto simp: list_all_iff dest: Split_set)
qed

lemma clean_elems_dots: "clean_elems False (replicate j ''..'') (replicate k ''..'') = replicate (k + j) ''..''"
proof (induction k arbitrary: j)
  case (Suc k)
  have "clean_step False (replicate j ''..'') ''..'' = replicate (Suc j) ''..''" by (cases j) (simp_all add: clean_step_def)
  then show ?case using Suc[of "Suc j"] by (simp add: clean_elems_def)
qed (simp add: clean_elems_def)

lemma clean_elems_plains: "list_all plain_elem ps \<Longrightarrow> clean_elems r out ps = rev ps @ out"
  by (induction ps arbitrary: out) (simp_all add: clean_elems_def clean_step_def plain_elem_def)

lemma clean_elems_id: "clean_stack r out \<Longrightarrow> clean_elems r [] (rev out) = out"
proof -
  assume "clean_stack r out"
  then obtain ps k where o: "out = ps @ replicate k ''..''" "list_all plain_elem ps" "r \<longrightarrow> k = 0"
    by (auto simp: clean_stack_def)
  have "clean_elems r [] (replicate k ''..'') = replicate k ''..''"
    using o(3) clean_elems_dots[of 0 k] by (cases r) (simp_all add: clean_elems_def)
  then show ?thesis using o by (simp add: clean_elems_append clean_elems_plains list_all_rev)
qed

lemma elems_Clean [simp]: "elems (Clean p) = elems p"
proof -
  have id: "clean_elems (rooted p) [] (elems p) = rev (elems p)"
    using clean_elems_id[OF elems_stack[of p]] by simp
  have Split_Clean: "Split slash (Clean p) = (if rooted p then [[]] else []) @ (if elems p = [] then [if rooted p then [] else ''.''] else elems p)"
    using Split_elems[of p] by (simp add: Clean_def)
  have "clean_elems (rooted p) [] (Split slash (Clean p)) = rev (elems p)"
    using id by (auto simp: Split_Clean clean_elems_def clean_step_def)
  then show ?thesis by (simp add: elems_def[of "Clean p"])
qed

lemma Clean_Clean [simp]: "Clean (Clean p) = Clean p"
  by (rule Clean_eqI) simp_all

subsection \<open>Children of a directory\<close>

lemma Clean_eq_iff: "Clean p = Clean q \<longleftrightarrow> rooted p = rooted q \<and> elems p = elems q"
  by (metis Clean_eqI elems_Clean rooted_Clean)

lemma Join_child: "d \<noteq> [] \<Longrightarrow> plain_elem n \<Longrightarrow> elems (path_Join [d, n]) = elems d @ [n] \<and> rooted (path_Join [d, n]) = rooted d"
  by (simp add: Join_two elems_child rooted_append)

lemma Rel_child:
  assumes "d \<noteq> []" and "plain_elem n"
  shows "Rel d (path_Join [d, n]) = Some n"
proof -
  have ne: "Clean (path_Join [d, n]) \<noteq> Clean d" using Join_child[OF assms] by (simp add: Clean_eq_iff)
  have nd: "Clean (path_Join [d, n]) \<noteq> ''.''"
  proof
    assume "Clean (path_Join [d, n]) = ''.''"
    then have "elems d @ [n] = elems ''.''" using Join_child[OF assms] elems_Clean by metis
    then show False by (simp add: elems_def rooted_def clean_elems_def clean_step_def)
  qed
  have "strip_common (elems d) (elems d @ [n]) = ([], [n])" by (rule strip_common_prefix)
  then show ?thesis
    using ne nd Join_child[OF assms] written_Clean[of d] written_Clean[of "path_Join [d, n]"] by (simp add: Rel_def Let_def)
qed

lemma Rel_single:
  assumes d: "d \<noteq> []" and rel: "Rel d (path_Join [d, c]) = Some n"
    and "n \<noteq> ''.''" and "\<not> HasPrefix n ''..''" and "slash \<notin> set n"
  shows "plain_elem n \<and> path_Join [d, c] = path_Join [d, n]"
proof -
  let ?t = "path_Join [d, c]"
  have ne: "Clean ?t \<noteq> Clean d" using rel assms(3) by (auto simp: Rel_def)
  obtain bs ts where sc: "strip_common (elems d) (written_elems (Clean ?t)) = (bs, ts)" by fastforce
  have n: "n = strings_join [slash] (replicate (length bs) ''..'' @ ts)" and r: "rooted d = rooted ?t"
    using rel ne sc written_Clean[of d] by (auto simp: Rel_def Let_def split: if_splits)
  have "bs = []"
  proof (rule ccontr)
    assume "bs \<noteq> []"
    then obtain b cs where "bs = b # cs" by (cases bs) auto
    then have "HasPrefix n ''..''" using n by (cases "replicate (length cs) ''..'' @ ts") (auto simp: HasPrefix_def)
    with assms(4) show False ..
  qed
  then have w: "written_elems (Clean ?t) = elems d @ ts" and n': "n = strings_join [slash] ts"
    using strip_common_parts[OF sc] n by auto
  have nd: "Clean ?t \<noteq> ''.''"
  proof
    assume t: "Clean ?t = ''.''"
    then have "elems d @ ts = [''.'']" using w by (simp add: written_elems_def rooted_def)
    then consider "ts = []" "elems d = [''.'']" | "ts = [''.'']" by (metis append_eq_Cons_conv append_is_Nil_conv)
    then show False using assms(3) n' elems_kept[of d] by cases (simp_all add: kept_elem_def)
  qed
  then have e: "elems ?t = elems d @ ts" using written_Clean[of ?t] w by simp
  have "ts \<noteq> []" using ne r e by (auto simp: Clean_eq_iff)
  then obtain t where "ts = [t]" using strings_join_single[of ts] assms(5) n' by auto
  then have tn: "ts = [n]" using n' by simp
  then have "kept_elem n" using elems_kept[of ?t] e by simp
  then have p: "plain_elem n" using assms(4) by (auto simp: kept_elem_def plain_elem_def HasPrefix_def)
  have "Clean (d @ slash # c) = Clean (d @ slash # n)"
    using e tn r p d by (simp add: Clean_eq_iff Join_two elems_child rooted_append)
  then show ?thesis using p d by (simp add: Join_two)
qed

end
