(* ===== verification/Tpu_Discovery.thy ===== *)
theory Tpu_Discovery
  imports Pod_Utils Go_Path
begin

text \<open>
  Which processes use the TPUs of a node, and the gate a restore waits at (\<^verbatim>\<open>tpu/tpu.go\<close>).
  Procfs is the record \<open>procfs\<close>; the polls of the gate are numbered, and what the devices, the clock
  and the context answer at a poll is the record \<open>vfio_env\<close>.
\<close>

subsection \<open>Discovery\<close>

record procfs =
  pf_ReadDir :: "string \<Rightarrow> go_error + string list"
  pf_ReadFile :: "string \<Rightarrow> go_error + string"
  pf_Readlink :: "string \<Rightarrow> go_error + string"
  pf_lines :: "string \<Rightarrow> file_lines"

definition procRoot :: string where "procRoot = ''/proc''"
definition vfioRoot :: string where "vfioRoot = ''/dev/vfio''"

text \<open>\<^verbatim>\<open>controlThreadRe\<close>: the name of a control thread, eight hexadecimal digits after \<^verbatim>\<open>libtpu\<close>.\<close>

definition controlThreadRe :: "string \<Rightarrow> bool" where
  "controlThreadRe s \<longleftrightarrow> HasPrefix s ''libtpu'' \<and> length s = 14 \<and> list_all (base_digit 16) (drop 6 s)"

fun any_control :: "procfs \<Rightarrow> string \<Rightarrow> string list \<Rightarrow> bool" where
  "any_control p name [] = False"
| "any_control p name (t # ts) =
     (case pf_ReadFile p (path_Join [procRoot, name, ''task'', t, ''comm'']) of
        Inl err \<Rightarrow> any_control p name ts
      | Inr comm \<Rightarrow> if controlThreadRe (TrimSpace comm) then True else any_control p name ts)"

fun list_loop :: "procfs \<Rightarrow> string list \<Rightarrow> int list \<Rightarrow> int list" where
  "list_loop p [] pids = pids"
| "list_loop p (name # names) pids =
     (case Atoi name of
        Inl err \<Rightarrow> list_loop p names pids
      | Inr pid \<Rightarrow>
          (case pf_ReadDir p (path_Join [procRoot, name, ''task'']) of
             Inl err \<Rightarrow> list_loop p names pids
           | Inr tasks \<Rightarrow> list_loop p names (if any_control p name tasks then pids @ [pid] else pids)))"

definition listProcesses :: "procfs \<Rightarrow> go_error + int list" where
  "listProcesses p =
     (case pf_ReadDir p procRoot of
        Inl err \<Rightarrow> Inl (Wrap (errorf [''failed to read '', procRoot]) err)
      | Inr procs \<Rightarrow> Inr (list_loop p procs []))"

fun held_loop :: "procfs \<Rightarrow> string \<Rightarrow> string list \<Rightarrow> string list \<Rightarrow> string list" where
  "held_loop p fdDir [] held = held"
| "held_loop p fdDir (fd # fds) held =
     (case pf_Readlink p (path_Join [fdDir, fd]) of
        Inl err \<Rightarrow> held_loop p fdDir fds held
      | Inr target \<Rightarrow> held_loop p fdDir fds (if HasPrefix target ''/dev/vfio/'' then held @ [target] else held))"

definition vfioFdsHeld :: "procfs \<Rightarrow> int \<Rightarrow> string list" where
  "vfioFdsHeld p pid =
     (let fdDir = procRoot @ ''/'' @ Itoa pid @ ''/fd'' in
      case pf_ReadDir p fdDir of Inl err \<Rightarrow> [] | Inr fds \<Rightarrow> held_loop p fdDir fds [])"

fun attached_loop :: "procfs \<Rightarrow> string \<Rightarrow> int list \<Rightarrow> int list \<Rightarrow> int list" where
  "attached_loop p podUID [] pids = pids"
| "attached_loop p podUID (pid # rest) pids =
     (case IsPIDInPodCgroupInternal (pf_lines p (procRoot @ ''/'' @ Itoa pid @ ''/cgroup'')) podUID of
        (err, inCgroup) \<Rightarrow>
          if err \<noteq> None \<or> \<not> inCgroup then attached_loop p podUID rest pids
          else attached_loop p podUID rest (if 0 < length (vfioFdsHeld p pid) then pids @ [pid] else pids))"

definition tpu_GetPodPIDs :: "procfs \<Rightarrow> go_error + k8s_client \<Rightarrow> string \<Rightarrow> string \<Rightarrow> go_error + int list" where
  "tpu_GetPodPIDs p client podName ns =
     (case GetPodUID client podName ns of
        Inl err \<Rightarrow> Inl (Wrap (errorf [''failed to get pod UID'']) err)
      | Inr podUID \<Rightarrow>
          (case listProcesses p of
             Inl err \<Rightarrow> Inl err
           | Inr candidates \<Rightarrow> Inr (attached_loop p podUID candidates [])))"

definition HasProcesses :: "procfs \<Rightarrow> go_error + bool" where
  "HasProcesses p =
     (case listProcesses p of
        Inl err \<Rightarrow> Inl err
      | Inr candidates \<Rightarrow> Inr (list_ex (\<lambda>pid. 0 < length (vfioFdsHeld p pid)) candidates))"

text \<open>The holders of each group, for the log: a map from a group to the processes, in order.\<close>

fun hold_groups :: "string \<Rightarrow> string list \<Rightarrow> string list \<Rightarrow> (string \<Rightarrow> string list) \<Rightarrow> string \<Rightarrow> string list" where
  "hold_groups who [] seen holders = holders"
| "hold_groups who (g # gs) seen holders =
     (if g \<in> set seen then hold_groups who gs seen holders
      else hold_groups who gs (g # seen) (holders(g := holders g @ [who])))"

fun holders_loop :: "procfs \<Rightarrow> string list \<Rightarrow> (string \<Rightarrow> string list) \<Rightarrow> string \<Rightarrow> string list" where
  "holders_loop p [] holders = holders"
| "holders_loop p (name # names) holders =
     (case Atoi name of
        Inl err \<Rightarrow> holders_loop p names holders
      | Inr pid \<Rightarrow>
          if vfioFdsHeld p pid = [] then holders_loop p names holders
          else
            let comm = (case pf_ReadFile p (path_Join [procRoot, name, ''comm'']) of Inr b \<Rightarrow> TrimSpace b | Inl err \<Rightarrow> ''?'') in
            holders_loop p names
              (hold_groups (Itoa pid @ ''('' @ comm @ '')'') (vfioFdsHeld p pid) [] holders))"

definition VfioGroupHolders :: "procfs \<Rightarrow> string \<Rightarrow> string list" where
  "VfioGroupHolders p =
     (case pf_ReadDir p procRoot of Inl err \<Rightarrow> (\<lambda>_. []) | Inr procs \<Rightarrow> holders_loop p procs (\<lambda>_. []))"

subsection \<open>The gate\<close>

record vfio_env =
  vg_ReadDir :: "go_error + string list"
  vg_open :: "nat \<Rightarrow> string \<Rightarrow> go_error option"
  vg_start :: int
  vg_now :: "nat \<Rightarrow> int"
  vg_ctxDone :: "nat \<Rightarrow> go_error option"

definition busy_groups :: "vfio_env \<Rightarrow> string list \<Rightarrow> nat \<Rightarrow> string list" where
  "busy_groups v groups k = filter (\<lambda>g. vg_open v k g \<noteq> None) groups"

text \<open>
  The polling loop; the outer \<open>None\<close> is a loop that never ends, the inner \<open>None\<close> a return without
  error. The error text leaves out the holders.
\<close>

partial_function (option) vfio_poll :: "vfio_env \<Rightarrow> string list \<Rightarrow> int \<Rightarrow> nat \<Rightarrow> go_error option option" where
  "vfio_poll v groups deadline k =
     (if busy_groups v groups k = [] then Some None
      else if deadline < vg_now v k
      then Some (Some (Text (errorf [''vfio gate: groups still busy: '', strings_join '' '' (busy_groups v groups k)])))
      else
        (case vg_ctxDone v k of
           Some err \<Rightarrow> Some (Some (Wrap (errorf [''vfio gate'']) err))
         | None \<Rightarrow> vfio_poll v groups deadline (Suc k)))"

definition vfio_groups :: "string list \<Rightarrow> string list" where
  "vfio_groups names =
     map (\<lambda>n. path_Join [vfioRoot, n]) (filter (\<lambda>n. case Atoi n of Inr _ \<Rightarrow> True | Inl _ \<Rightarrow> False) names)"

definition WaitVfioFree :: "vfio_env \<Rightarrow> int \<Rightarrow> go_error option option" where
  "WaitVfioFree v timeout =
     (case vg_ReadDir v of
        Inl err \<Rightarrow> Some None
      | Inr entries \<Rightarrow>
          if length (vfio_groups entries) = 0 then Some None
          else vfio_poll v (vfio_groups entries) (vg_start v + timeout) 0)"

subsection \<open>Properties\<close>

definition has_control_thread :: "procfs \<Rightarrow> string \<Rightarrow> bool" where
  "has_control_thread p name \<longleftrightarrow>
     (\<exists>tasks t comm. pf_ReadDir p (path_Join [procRoot, name, ''task'']) = Inr tasks \<and> t \<in> set tasks \<and>
        pf_ReadFile p (path_Join [procRoot, name, ''task'', t, ''comm'']) = Inr comm \<and> controlThreadRe (TrimSpace comm))"

definition holds_vfio :: "procfs \<Rightarrow> int \<Rightarrow> bool" where
  "holds_vfio p pid \<longleftrightarrow>
     (\<exists>fds fd target. pf_ReadDir p (procRoot @ ''/'' @ Itoa pid @ ''/fd'') = Inr fds \<and> fd \<in> set fds \<and>
        pf_Readlink p (path_Join [procRoot @ ''/'' @ Itoa pid @ ''/fd'', fd]) = Inr target \<and> HasPrefix target ''/dev/vfio/'')"

lemma any_control_iff:
  "any_control p name ts \<longleftrightarrow>
     (\<exists>t comm. t \<in> set ts \<and> pf_ReadFile p (path_Join [procRoot, name, ''task'', t, ''comm'']) = Inr comm \<and> controlThreadRe (TrimSpace comm))"
  by (induction ts) (auto split: sum.split)

lemma list_loop_set:
  "set (list_loop p names pids) = set pids \<union> {pid. \<exists>name. name \<in> set names \<and> Atoi name = Inr pid \<and> has_control_thread p name}"
proof (induction p names pids rule: list_loop.induct)
  case (2 p name names pids)
  then show ?case
    by (cases "Atoi name"; cases "pf_ReadDir p (path_Join [procRoot, name, ''task''])")
      (auto simp: has_control_thread_def any_control_iff)
qed simp

lemma held_loop_empty:
  "held_loop p d fds held = [] \<longleftrightarrow>
     held = [] \<and> \<not> (\<exists>fd target. fd \<in> set fds \<and> pf_Readlink p (path_Join [d, fd]) = Inr target \<and> HasPrefix target ''/dev/vfio/'')"
proof (induction p d fds held rule: held_loop.induct)
  case (2 p d fd fds held)
  then show ?case by (cases "pf_Readlink p (path_Join [d, fd])") auto
qed simp

lemma vfioFdsHeld_iff: "vfioFdsHeld p pid \<noteq> [] \<longleftrightarrow> holds_vfio p pid"
  by (auto simp: vfioFdsHeld_def holds_vfio_def Let_def held_loop_empty split: sum.splits)

lemma attached_loop_set:
  "set (attached_loop p uid cs pids) =
     set pids \<union> {pid. pid \<in> set cs \<and> in_cgroup (pf_lines p) uid pid \<and> holds_vfio p pid}"
proof (induction cs arbitrary: pids)
  case (Cons pid rest)
  obtain err b where c: "IsPIDInPodCgroupInternal (pf_lines p (procRoot @ ''/'' @ Itoa pid @ ''/cgroup'')) uid = (err, b)" by fastforce
  have i: "in_cgroup (pf_lines p) uid pid \<longleftrightarrow> err = None \<and> b"
    using c by (simp add: in_cgroup_def isPIDInPodCgroup_def procRoot_def)
  show ?case
    using Cons.IH c i vfioFdsHeld_iff[of p pid] by auto
qed simp

text \<open>C23:
  The processes found for a pod are exactly those that run a libtpu control thread, lie in a cgroup
  of the pod and hold a vfio group open; a process that was checkpointed, which has released its
  groups, is not among them. A process or thread whose entries cannot be read does not hide others.
\<close>

theorem tpu_processes_exact:
  assumes "GetPodUID client podName ns = Inr uid" and "pf_ReadDir p procRoot = Inr procs"
  shows "\<exists>pids. tpu_GetPodPIDs p client podName ns = Inr pids \<and>
    set pids = {pid. (\<exists>name. name \<in> set procs \<and> Atoi name = Inr pid \<and> has_control_thread p name) \<and>
      in_cgroup (pf_lines p) uid pid \<and> holds_vfio p pid}"
  using assms by (auto simp: tpu_GetPodPIDs_def listProcesses_def attached_loop_set list_loop_set)

lemma vfio_poll_outcome:
  assumes "deadline < vg_now v (k + n)"
  shows "\<exists>j r. k \<le> j \<and> j \<le> k + n \<and> vfio_poll v groups deadline k = Some r \<and>
    (r = None \<longleftrightarrow> busy_groups v groups j = []) \<and> (r \<noteq> None \<longrightarrow> deadline < vg_now v j \<or> vg_ctxDone v j \<noteq> None)"
  using assms
proof (induction n arbitrary: k)
  case 0
  then show ?case by (subst vfio_poll.simps) auto
next
  case (Suc n)
  consider "busy_groups v groups k = [] \<or> deadline < vg_now v k \<or> vg_ctxDone v k \<noteq> None"
    | "busy_groups v groups k \<noteq> []" "\<not> deadline < vg_now v k" "vg_ctxDone v k = None" by blast
  then show ?case
  proof cases
    case 1
    then show ?thesis by (intro exI[of _ k], subst vfio_poll.simps) (auto split: option.split)
  next
    case 2
    then have "vfio_poll v groups deadline k = vfio_poll v groups deadline (Suc k)" by (subst vfio_poll.simps) simp
    moreover have "deadline < vg_now v (Suc k + n)" using Suc.prems by simp
    ultimately show ?thesis using Suc.IH[of "Suc k"] by (metis Suc_leD add_Suc_right add_Suc)
  qed
qed

text \<open>C24:
  The gate always returns, at the latest at the first poll after its timeout: without an error only
  if there is no vfio group to wait for, or if at one poll every group could be opened; with an error
  only if some group was busy after the timeout or when the context was done. So a restore that passes
  the gate does not start while a group has been busy at every poll.
\<close>

theorem vfio_gate_returns:
  assumes "vg_start v + timeout < vg_now v n"
  shows "\<exists>r. WaitVfioFree v timeout = Some r \<and>
    (r = None \<longrightarrow> (\<exists>err. vg_ReadDir v = Inl err) \<or>
      (\<exists>entries k. vg_ReadDir v = Inr entries \<and> k \<le> n \<and> busy_groups v (vfio_groups entries) k = [])) \<and>
    (r \<noteq> None \<longrightarrow> (\<exists>entries k. vg_ReadDir v = Inr entries \<and> k \<le> n \<and> busy_groups v (vfio_groups entries) k \<noteq> [] \<and>
      (vg_start v + timeout < vg_now v k \<or> vg_ctxDone v k \<noteq> None)))"
proof (cases "vg_ReadDir v")
  case (Inl err)
  then show ?thesis by (simp add: WaitVfioFree_def)
next
  case (Inr entries)
  show ?thesis
  proof (cases "vfio_groups entries = []")
    case True
    then show ?thesis using Inr by (auto simp: WaitVfioFree_def busy_groups_def)
  next
    case False
    have "vg_start v + timeout < vg_now v (0 + n)" using assms by simp
    from vfio_poll_outcome[OF this, of "vfio_groups entries"] obtain j r where
      "j \<le> n" "vfio_poll v (vfio_groups entries) (vg_start v + timeout) 0 = Some r"
      "r = None \<longleftrightarrow> busy_groups v (vfio_groups entries) j = []"
      "r \<noteq> None \<longrightarrow> vg_start v + timeout < vg_now v j \<or> vg_ctxDone v j \<noteq> None" by auto
    with Inr False show ?thesis by (auto simp: WaitVfioFree_def)
  qed
qed

definition demo_procfs :: procfs where
  "demo_procfs =
     \<lparr>pf_ReadDir = (\<lambda>p. if p = ''/proc'' then Inr [''self'', ''12''] else if p = ''/proc/12/task'' then Inr [''12'', ''13'']
        else if p = ''/proc/12/fd'' then Inr [''0'', ''5''] else Inl (Text ''gone'')),
      pf_ReadFile = (\<lambda>p. if p = ''/proc/12/task/13/comm'' then Inr ''libtpu00a1B2c3'' else Inl (Text ''gone'')),
      pf_Readlink = (\<lambda>p. if p = ''/proc/12/fd/5'' then Inr ''/dev/vfio/0'' else Inl (Text ''gone'')),
      pf_lines = (\<lambda>p. Inr ([''0::/kubepods/pod-u1''], None))\<rparr>"

definition uid_client :: "go_error + k8s_client" where
  "uid_client = Inr \<lparr>kc_ListPods = (\<lambda>_ _. Inr []), kc_GetPodUID = (\<lambda>_ _. Inr ''u1'')\<rparr>"

lemma demo_procfs_found: "tpu_GetPodPIDs demo_procfs uid_client ''p'' ''n'' = Inr [12]"
  by code_simp

theorem tpu_processes_exact_witness:
  "{12} = {pid. (\<exists>name. name \<in> set [''self'', ''12''] \<and> Atoi name = Inr pid \<and> has_control_thread demo_procfs name) \<and>
     in_cgroup (pf_lines demo_procfs) ''u1'' pid \<and> holds_vfio demo_procfs pid}"
proof -
  have "GetPodUID uid_client ''p'' ''n'' = Inr ''u1''" by (simp add: GetPodUID_def uid_client_def)
  moreover have "pf_ReadDir demo_procfs procRoot = Inr [''self'', ''12'']" by (simp add: demo_procfs_def procRoot_def)
  ultimately have "\<exists>pids. tpu_GetPodPIDs demo_procfs uid_client ''p'' ''n'' = Inr pids \<and>
      set pids = {pid. (\<exists>name. name \<in> set [''self'', ''12''] \<and> Atoi name = Inr pid \<and> has_control_thread demo_procfs name) \<and>
        in_cgroup (pf_lines demo_procfs) ''u1'' pid \<and> holds_vfio demo_procfs pid}"
    by (rule tpu_processes_exact)
  then show ?thesis unfolding demo_procfs_found by auto
qed

definition demo_vfio :: vfio_env where
  "demo_vfio =
     \<lparr>vg_ReadDir = Inr [''0'', ''vfio''], vg_open = (\<lambda>k g. if k < 2 then Some (Text ''busy'') else None), vg_start = 0,
      vg_now = (\<lambda>k. 250 * int k), vg_ctxDone = (\<lambda>k. None)\<rparr>"

theorem vfio_gate_returns_witness: "\<exists>r. WaitVfioFree demo_vfio 1000 = Some r"
proof -
  have "vg_start demo_vfio + 1000 < vg_now demo_vfio 5" by (simp add: demo_vfio_def)
  then show ?thesis using vfio_gate_returns by blast
qed

end
