(* ===== verification/Controller_Loop.thy ===== *)
theory Controller_Loop
  imports Reconcile
begin

text \<open>
  The goroutines of the controller (\<^verbatim>\<open>Run\<close>, \<^verbatim>\<open>until\<close>, \<^verbatim>\<open>runWorker\<close> and the
  resync loop of \<^verbatim>\<open>controller/controller.go\<close>): workers that take groups from the work
  queue, the periodic resync, start and shutdown, and panics. Every goroutine is a small state machine
  and the controller is their interleaving, together with whatever the rest of the process does.

  The work queue is client-go's; \<open>work_queue_contract\<close> states what it documents: a group that is
  being worked on is not handed out again before it is marked done, a queue that was shut down
  accepts nothing new and hands out the rest, and only a queue that was not shut down blocks.
\<close>

subsection \<open>Goroutines\<close>

text \<open>
  The loop of \<^verbatim>\<open>until\<close> around a body: before the test of the context, inside the body, in
  the sleep between two runs of the body, returned.
\<close>

datatype 'b until = Check | Body 'b | Sleep | Stopped

text \<open>The body of a worker: about to ask the queue, or working on a group.\<close>

datatype work = Getting | Working string

text \<open>The resync goroutine first waits for one period.\<close>

datatype resyncer = Unstarted | FirstWait | Loop "unit until"

datatype runner = Initialising | Serving | Returned "go_error option"

record ('s, 'w) ctl =
  c_run :: runner
  c_workers :: "work until list"
  c_resync :: resyncer
  c_cancelled :: bool
  c_state :: "('s, 'w) orch"

text \<open>
  The top of the loop of \<^verbatim>\<open>until\<close>; the sleep ends with the timer or, when the context is
  done, with the loop.
\<close>

definition until_enter :: "bool \<Rightarrow> 'b \<Rightarrow> 'b until" where
  "until_enter halt b = (if halt then Stopped else Body b)"

definition until_wake :: "bool \<Rightarrow> 'b until set" where
  "until_wake halt = (if halt then {Stopped, Check} else {Check})"

text \<open>
  A body that returns and a body that panics both lead to the sleep: \<^verbatim>\<open>handleCrash\<close> recovers
  the panic. A finished item leads to the next one.
\<close>

definition after_item :: "outcome \<Rightarrow> work until" where
  "after_item oc = (case oc of Finished _ \<Rightarrow> Body Getting | Panicked \<Rightarrow> Sleep)"

inductive worker_step ::
  "('s, 'w) env \<Rightarrow> bool \<Rightarrow> work until \<times> ('s, 'w) orch \<Rightarrow> work until \<times> ('s, 'w) orch \<Rightarrow> bool" for E halt where
  enter: "worker_step E halt (Check, st) (until_enter halt Getting, st)"
| get: "wq_Get (workqueue E) (world st) = Some ((g, False), w) \<Longrightarrow>
    worker_step E halt (Body Getting, st) (Body (Working g), st\<lparr>world := w\<rparr>)"
| drained: "wq_Get (workqueue E) (world st) = Some ((g, True), w) \<Longrightarrow>
    worker_step E halt (Body Getting, st) (Sleep, st\<lparr>world := w\<rparr>)"
| item: "worker_step E halt (Body (Working g), st) (after_item oc, hand_back E g oc st)"
| wake: "u \<in> until_wake halt \<Longrightarrow> worker_step E halt (Sleep, st) (u, st)"

inductive resync_step ::
  "('s, 'w) env \<Rightarrow> bool \<Rightarrow> resyncer \<times> ('s, 'w) orch \<Rightarrow> resyncer \<times> ('s, 'w) orch \<Rightarrow> bool" for E halt where
  first_stop: "halt \<Longrightarrow> resync_step E halt (FirstWait, st) (Loop Stopped, st)"
| first_tick: "resync_step E halt (FirstWait, st) (Loop Check, st)"
| enter: "resync_step E halt (Loop Check, st) (Loop (until_enter halt ()), st)"
| body: "resync_step E halt (Loop (Body ()), st) (Loop Sleep, resync E st)"
| wake: "u \<in> until_wake halt \<Longrightarrow> resync_step E halt (Loop Sleep, st) (Loop u, st)"

subsection \<open>The controller\<close>

definition shut_down :: "('s, 'w) env \<Rightarrow> ('s, 'w) orch \<Rightarrow> ('s, 'w) orch" where
  "shut_down E st = st\<lparr>world := wq_ShutDown (workqueue E) (world st)\<rparr>"

text \<open>
  \<^verbatim>\<open>Run\<close> up to the wait for the context: the infrastructure is initialised, then the workers and
  the resync goroutine are started. An error or a panic ends it with the queue shut down; the panic
  is recovered, so that no error is returned.
\<close>

definition Run_start :: "('s, 'w) env \<Rightarrow> int \<Rightarrow> outcome \<Rightarrow> ('s, 'w) ctl \<Rightarrow> ('s, 'w) ctl" where
  "Run_start E workers init c =
     (case init of
        Finished None \<Rightarrow>
          c\<lparr>c_run := Serving, c_workers := replicate (nat workers) Check, c_resync := FirstWait\<rparr>
      | Finished (Some err) \<Rightarrow>
          c\<lparr>c_run := Returned (Some (Wrap ''failed to initialize infrastructure'' err)), c_state := shut_down E (c_state c)\<rparr>
      | Panicked \<Rightarrow> c\<lparr>c_run := Returned None, c_state := shut_down E (c_state c)\<rparr>)"

text \<open>
  The moves of the workers, and all others: \<open>keeps\<close> says what the rest of the process, and the world
  around it, may do besides calling \<^verbatim>\<open>Add\<close>.
\<close>

inductive ctl_work :: "('s, 'w) env \<Rightarrow> ('s, 'w) ctl \<Rightarrow> ('s, 'w) ctl \<Rightarrow> bool" for E where
  worker: "i < length (c_workers c) \<Longrightarrow> worker_step E (c_cancelled c) (c_workers c ! i, c_state c) (u, st) \<Longrightarrow>
    ctl_work E c (c\<lparr>c_workers := (c_workers c)[i := u], c_state := st\<rparr>)"

inductive ctl_rest :: "('s, 'w) env \<Rightarrow> int \<Rightarrow> ('w \<Rightarrow> 'w \<Rightarrow> bool) \<Rightarrow> ('s, 'w) ctl \<Rightarrow> ('s, 'w) ctl \<Rightarrow> bool"
  for E workers keeps where
  start: "c_run c = Initialising \<Longrightarrow> ctl_rest E workers keeps c (Run_start E workers init c)"
| stop: "c_run c = Serving \<Longrightarrow> c_cancelled c \<Longrightarrow>
    ctl_rest E workers keeps c (c\<lparr>c_run := Returned None, c_state := shut_down E (c_state c)\<rparr>)"
| cancel: "ctl_rest E workers keeps c (c\<lparr>c_cancelled := True\<rparr>)"
| resync: "resync_step E (c_cancelled c) (c_resync c, c_state c) (r, st) \<Longrightarrow>
    ctl_rest E workers keeps c (c\<lparr>c_resync := r, c_state := st\<rparr>)"
| add: "ctl_rest E workers keeps c (c\<lparr>c_state := (c_state c)\<lparr>world := wq_Add (workqueue E) g (world (c_state c))\<rparr>\<rparr>)"
| other: "keeps (world (c_state c)) (world st) \<Longrightarrow> ctl_rest E workers keeps c (c\<lparr>c_state := st\<rparr>)"

definition ctl_start :: "('s, 'w) orch \<Rightarrow> ('s, 'w) ctl" where
  "ctl_start st = \<lparr>c_run = Initialising, c_workers = [], c_resync = Unstarted, c_cancelled = False, c_state = st\<rparr>"

text \<open>A run, with the number of moves the workers made in it.\<close>

inductive ctl_runs ::
  "('s, 'w) env \<Rightarrow> int \<Rightarrow> ('w \<Rightarrow> 'w \<Rightarrow> bool) \<Rightarrow> nat \<Rightarrow> ('s, 'w) ctl \<Rightarrow> ('s, 'w) ctl \<Rightarrow> bool"
  for E workers keeps where
  none: "ctl_runs E workers keeps 0 c c"
| work: "ctl_runs E workers keeps k c d \<Longrightarrow> ctl_work E d e \<Longrightarrow> ctl_runs E workers keeps (Suc k) c e"
| rest: "ctl_runs E workers keeps k c d \<Longrightarrow> ctl_rest E workers keeps d e \<Longrightarrow> ctl_runs E workers keeps k c e"

text \<open>
  A work item of the sequential model is such a sequence of moves: the queue hands out the group,
  the reconciliation runs, the worker hands the group back and asks for the next.
\<close>

lemma work_item_moves:
  assumes "processNextWorkItem E fuel sch st = (Some True, st')"
  obtains g st1 err st2 where "worker_step E halt (Body Getting, st) (Body (Working g), st1)"
    "reconcileGroup E fuel sch g st1 = (Some err, st2)" "worker_step E halt (Body (Working g), st2) (Body Getting, st')"
proof -
  from assms obtain g w err st2 where q: "wq_Get (workqueue E) (world st) = Some ((g, False), w)"
    and r: "reconcileGroup E fuel sch g (st\<lparr>world := w\<rparr>) = (Some err, st2)" and s: "st' = hand_back E g (Finished err) st2"
    by (auto simp: processNextWorkItem_def split: option.splits prod.splits if_splits)
  have "worker_step E halt (Body (Working g), st2) (Body Getting, st')"
    using worker_step.item[of E halt g st2 "Finished err"] s by (simp add: after_item_def)
  with that worker_step.get[OF q] r show thesis by blast
qed

lemma worker_can_step:
  assumes "u \<noteq> Stopped" and "wq_Get (workqueue E) (world st) = Some ((g, sd), w)"
  obtains v st' where "worker_step E halt (u, st) (v, st')"
proof (cases u)
  case (Body b)
  show thesis
  proof (cases b)
    case Getting
    then show thesis
      using Body that worker_step.get[of E st g w halt] worker_step.drained[of E st g w halt] assms(2) by (cases sd) auto
  qed (use Body that worker_step.item in blast)
next
  case Sleep
  moreover have "Check \<in> until_wake halt" by (simp add: until_wake_def)
  ultimately show thesis using that worker_step.wake by blast
qed (use that worker_step.enter assms(1) in blast)+

text \<open>How far a worker is from having returned, once it is to stop.\<close>

definition rank :: "work until \<Rightarrow> nat" where
  "rank u = (case u of Stopped \<Rightarrow> 0 | Check \<Rightarrow> 1 | Sleep \<Rightarrow> 2 | Body Getting \<Rightarrow> 3 | Body (Working g) \<Rightarrow> 4)"

lemma rank_simps [simp]: "rank Stopped = 0" "rank Check = 1" "rank Sleep = 2" "rank (Body Getting) = 3"
  "rank (Body (Working g)) = 4"
  by (simp_all add: rank_def)

lemma rank_le: "rank u \<le> 4"
  by (cases u rule: until.exhaust) (auto simp: rank_def split: work.splits)

subsection \<open>The contract of the work queue\<close>

text \<open>
  \<open>pending\<close> are the groups that wait to be handed out, \<open>processing\<close> those handed out and not yet
  marked done. A group may be both: it was added again while it was worked on.
\<close>

locale work_queue_contract =
  fixes ops :: "'w work_queue"
    and pending processing :: "'w \<Rightarrow> string set"
    and down :: "'w \<Rightarrow> bool"
    and keeps :: "'w \<Rightarrow> 'w \<Rightarrow> bool"
  assumes add: "processing (wq_Add ops g w) = processing w" "down (wq_Add ops g w) = down w"
      "pending (wq_Add ops g w) = (if down w then pending w else insert g (pending w))"
    and add_rate_limited: "processing (wq_AddRateLimited ops g w) = processing w"
      "down (wq_AddRateLimited ops g w) = down w" "pending w \<subseteq> pending (wq_AddRateLimited ops g w)"
      "down w \<Longrightarrow> pending (wq_AddRateLimited ops g w) = pending w"
    and forget: "processing (wq_Forget ops g w) = processing w" "down (wq_Forget ops g w) = down w"
      "pending (wq_Forget ops g w) = pending w"
    and marked_done: "processing (wq_Done ops g w) = processing w - {g}" "down (wq_Done ops g w) = down w"
      "pending (wq_Done ops g w) = pending w"
    and get_item: "wq_Get ops w = Some ((g, False), w') \<Longrightarrow>
      g \<in> pending w \<and> g \<notin> processing w \<and> processing w' = insert g (processing w) \<and>
      pending w' = pending w - {g} \<and> down w' = down w"
    and get_down: "wq_Get ops w = Some ((g, True), w') \<Longrightarrow>
      processing w' = processing w \<and> pending w' = pending w \<and> down w' = down w"
    and get_blocks: "wq_Get ops w = None \<Longrightarrow> \<not> down w"
    and shut: "processing (wq_ShutDown ops w) = processing w" "pending (wq_ShutDown ops w) = pending w"
      "down (wq_ShutDown ops w)"
    and keeps_queue: "keeps w w' \<Longrightarrow> processing w' = processing w \<and> down w' = down w \<and> pending w \<subseteq> pending w' \<and>
      (down w \<longrightarrow> pending w' = pending w)"
    and finite_pending: "finite (pending w)"
begin

lemmas queue_laws = add add_rate_limited forget marked_done shut

lemma fold_add:
  "processing (fold (wq_Add ops) gs w) = processing w" "down (fold (wq_Add ops) gs w) = down w"
  "pending (fold (wq_Add ops) gs w) = (if down w then pending w else set gs \<union> pending w)"
  by (induction gs arbitrary: w) (auto simp: add)

text \<open>What handing back an item does to the queue.\<close>

lemma hand_back_queue:
  assumes "workqueue E = ops"
  shows "processing (world (hand_back E g oc st)) = processing (world st) - {g}"
    and "down (world (hand_back E g oc st)) = down (world st)"
    and "pending (world st) \<subseteq> pending (world (hand_back E g oc st))"
    and "down (world st) \<Longrightarrow> pending (world (hand_back E g oc st)) = pending (world st)"
  using assms add_rate_limited(3) by (cases oc; auto simp: hand_back_def queue_laws split: option.splits)+

lemma resync_queue:
  assumes "workqueue E = ops"
  shows "processing (world (resync E st)) = processing (world st)"
    and "down (world (resync E st)) = down (world st)"
    and "pending (world (resync E st)) =
      (if down (world st) then pending (world st) else gid ` set (gs_List (groups st)) \<union> pending (world st))"
  using assms by (simp_all add: resync_def fold_add)

subsection \<open>One worker per group\<close>

definition one_worker :: "('s, 'w) ctl \<Rightarrow> bool" where
  "one_worker c \<longleftrightarrow>
     (\<forall>g. count (mset (c_workers c)) (Body (Working g)) = (if g \<in> processing (world (c_state c)) then 1 else 0))"

lemma one_worker_cong:
  assumes "one_worker c" and "c_workers d = c_workers c" and "processing (world (c_state d)) = processing (world (c_state c))"
  shows "one_worker d"
  using assms by (simp add: one_worker_def)

lemma one_worker_work:
  assumes E: "workqueue E = ops" and "one_worker c" and "ctl_work E c d"
  shows "one_worker d"
  using assms(3)
proof cases
  case (worker i u st)
  note c = assms(2)[unfolded one_worker_def]
  have m: "mset (c_workers d) = add_mset u (mset (c_workers c) - {#c_workers c ! i#})"
    using worker by (simp add: mset_update)
  from worker(3) show ?thesis
  proof cases
    case (get g w)
    then show ?thesis using c m worker(1) get_item[of "world (c_state c)" g w] by (auto simp: one_worker_def E)
  next
    case (drained g w)
    then show ?thesis using c m worker(1) get_down[of "world (c_state c)" g w] by (simp add: one_worker_def E)
  next
    case (item g oc)
    have "after_item oc \<noteq> Body (Working h)" for h by (simp add: after_item_def split: outcome.splits)
    moreover have "g \<in> processing (world (c_state c))"
      using c[rule_format, of g] item(1) worker(2) by (metis count_mset_0_iff nth_mem)
    ultimately show ?thesis using c m worker(1) item by (auto simp: one_worker_def hand_back_queue[OF E])
  qed (use c m worker(1) in \<open>auto simp: one_worker_def until_enter_def until_wake_def split: if_splits\<close>)
qed

lemma one_worker_rest:
  assumes E: "workqueue E = ops" and o: "one_worker c" and "ctl_rest E workers keeps c d"
    and i: "c_run c = Initialising \<longrightarrow> c_workers c = []"
  shows "one_worker d"
  using assms(3)
proof cases
  case (start init)
  with i o show ?thesis
    by (auto simp: one_worker_def Run_start_def shut_down_def shut E split: outcome.splits option.splits if_splits)
next
  case (resync r st)
  from resync(2) have "processing (world st) = processing (world (c_state c))"
    by cases (simp_all add: resync_queue(1)[OF E])
  with resync show ?thesis by (auto intro: one_worker_cong[OF o])
next
  case (other st)
  then show ?thesis using keeps_queue by (auto intro: one_worker_cong[OF o])
qed (auto intro!: one_worker_cong[OF o] simp: shut_down_def queue_laws E)

lemma one_worker_runs:
  assumes E: "workqueue E = ops" and "processing (world st) = {}" and "ctl_runs E workers keeps k (ctl_start st) d"
  shows "one_worker d \<and> (c_run d = Initialising \<longrightarrow> c_workers d = [])"
  using assms(3)
proof (induction "ctl_start st" d)
  case none
  then show ?case using assms(2) by (simp add: one_worker_def ctl_start_def)
next
  case (work k d e)
  then have "c_run e = Initialising \<longrightarrow> c_workers e = []" by (auto elim: ctl_work.cases)
  with work one_worker_work[OF E] show ?case by blast
next
  case (rest k d e)
  then have "c_run e = Initialising \<longrightarrow> c_workers e = []"
    by (auto elim!: ctl_rest.cases simp: Run_start_def split: outcome.splits option.splits)
  with rest one_worker_rest[OF E] show ?case by blast
qed

subsection \<open>Shutdown\<close>

text \<open>
  What is left to do once the context is done and the queue is shut down: every group that is still
  pending costs at most two moves more than it takes a worker to leave its loops.
\<close>

definition left_to_do :: "('s, 'w) ctl \<Rightarrow> nat" where
  "left_to_do c = 2 * card (pending (world (c_state c))) + sum_list (map rank (c_workers c))"

definition stopping :: "('s, 'w) ctl \<Rightarrow> bool" where
  "stopping c \<longleftrightarrow> c_cancelled c \<and> c_run c \<noteq> Initialising \<and> down (world (c_state c))"

lemma stopping_work:
  assumes E: "workqueue E = ops" and s: "stopping c" and "ctl_work E c d"
  shows "stopping d \<and> left_to_do d < left_to_do c"
  using assms(3)
proof cases
  case (worker i u st)
  let ?v = "c_workers c ! i"
  have l: "sum_list (map rank (c_workers d)) + rank ?v = sum_list (map rank (c_workers c)) + rank u"
    using worker(1,2) elem_le_sum_list[of i "map rank (c_workers c)"]
    by (simp add: map_update sum_list_update)
  have "down (world st) \<and> 2 * card (pending (world st)) + rank u < 2 * card (pending (world (c_state c))) + rank ?v"
    using worker(3)
  proof cases
    case (get g w)
    with get_item[of "world (c_state c)" g w] s card_Suc_Diff1[OF finite_pending, of g "world (c_state c)"] show ?thesis
      by (auto simp: E stopping_def)
  next
    case (item g oc)
    with s show ?thesis by (auto simp: stopping_def hand_back_queue[OF E] after_item_def split: outcome.splits)
  qed (use s get_down[of "world (c_state c)"] in \<open>auto simp: E stopping_def until_enter_def until_wake_def\<close>)
  with l worker s show ?thesis by (simp add: stopping_def left_to_do_def)
qed

lemma stopping_rest:
  assumes E: "workqueue E = ops" and s: "stopping c" and "ctl_rest E workers keeps c d"
  shows "stopping d \<and> left_to_do d = left_to_do c"
  using assms(3)
proof cases
  case (resync r st)
  from resync(2) have "down (world st)" "pending (world st) = pending (world (c_state c))"
    using s by (cases; simp add: resync_queue[OF E] stopping_def)+
  with resync s show ?thesis by (simp add: stopping_def left_to_do_def)
qed (use s keeps_queue in \<open>auto simp: stopping_def left_to_do_def shut_down_def queue_laws E\<close>)

lemma stopping_runs:
  assumes E: "workqueue E = ops" and "stopping c" and "ctl_runs E workers keeps k c d"
  shows "stopping d \<and> k + left_to_do d \<le> left_to_do c"
  using assms(3,2)
proof (induction rule: ctl_runs.induct)
  case (work k c d e)
  then show ?case using stopping_work[OF E, of d e] by linarith
next
  case (rest k c d e)
  then show ?case using stopping_rest[OF E, of d workers e] by linarith
qed simp

lemma stopping_not_stuck:
  assumes E: "workqueue E = ops" and "stopping c" and "\<nexists>d. ctl_work E c d"
  shows "set (c_workers c) \<subseteq> {Stopped}"
proof -
  have "c_workers c ! i = Stopped" if i: "i < length (c_workers c)" for i
  proof (rule ccontr)
    assume "c_workers c ! i \<noteq> Stopped"
    moreover obtain g sd w where "wq_Get (workqueue E) (world (c_state c)) = Some ((g, sd), w)"
      using get_blocks[of "world (c_state c)"] assms(2)
      by (cases "wq_Get ops (world (c_state c))") (auto simp: E stopping_def)
    ultimately obtain u st where "worker_step E (c_cancelled c) (c_workers c ! i, c_state c) (u, st)"
      by (rule worker_can_step)
    with i assms(3) show False by (blast intro: ctl_work.worker)
  qed
  then show ?thesis by (auto simp: in_set_conv_nth)
qed

text \<open>\<^verbatim>\<open>Run\<close> returns only with the queue shut down, and it stays shut down.\<close>

lemma returned_down:
  assumes E: "workqueue E = ops" and "ctl_runs E workers keeps k (ctl_start st) c"
  shows "c_run c = Returned r \<longrightarrow> down (world (c_state c))"
  using assms(2)
proof (induction "ctl_start st" c arbitrary: r)
  case none
  then show ?case by (simp add: ctl_start_def)
next
  case (work k d e)
  then obtain i u st where e: "e = d\<lparr>c_workers := (c_workers d)[i := u], c_state := st\<rparr>"
    and "worker_step E (c_cancelled d) (c_workers d ! i, c_state d) (u, st)" by (auto elim: ctl_work.cases)
  then have "down (world st) = down (world (c_state d))"
    using get_item get_down by (auto elim!: worker_step.cases simp: E hand_back_queue[OF E])
  with e work show ?case by simp
next
  case (rest k d e)
  from rest(3) show ?case
  proof cases
    case (resync r st)
    from resync(2) have "down (world st) = down (world (c_state d))" by cases (simp_all add: resync_queue[OF E])
    with resync rest(2) show ?thesis by simp
  qed (use rest(2) keeps_queue in \<open>auto simp: Run_start_def shut_down_def queue_laws E split: outcome.splits option.splits\<close>)
qed

end

subsection \<open>A work queue that keeps the contract\<close>

record queue_world =
  qw_dirty :: "string list"
  qw_processing :: "string list"
  qw_down :: bool

definition qw_add :: "string \<Rightarrow> queue_world \<Rightarrow> queue_world" where
  "qw_add g w = (if qw_down w \<or> g \<in> set (qw_dirty w) then w else w\<lparr>qw_dirty := qw_dirty w @ [g]\<rparr>)"

definition qw_get :: "queue_world \<Rightarrow> ((string \<times> bool) \<times> queue_world) option" where
  "qw_get w =
     (case filter (\<lambda>g. g \<notin> set (qw_processing w)) (qw_dirty w) of
        g # _ \<Rightarrow> Some ((g, False), w\<lparr>qw_dirty := removeAll g (qw_dirty w), qw_processing := g # qw_processing w\<rparr>)
      | [] \<Rightarrow> if qw_down w then Some (([], True), w) else None)"

definition simple_queue :: "queue_world work_queue" where
  "simple_queue = \<lparr>wq_Add = qw_add, wq_AddRateLimited = qw_add, wq_Forget = (\<lambda>g w. w),
     wq_Done = (\<lambda>g w. w\<lparr>qw_processing := removeAll g (qw_processing w)\<rparr>), wq_Get = qw_get,
     wq_ShutDown = (\<lambda>w. w\<lparr>qw_down := True\<rparr>)\<rparr>"

lemma simple_queue_get:
  assumes "qw_get w = Some ((g, b), w')"
  shows "if b then qw_down w \<and> w' = w
    else g \<in> set (qw_dirty w) \<and> g \<notin> set (qw_processing w) \<and>
      w' = w\<lparr>qw_dirty := removeAll g (qw_dirty w), qw_processing := g # qw_processing w\<rparr>"
proof (cases "filter (\<lambda>g. g \<notin> set (qw_processing w)) (qw_dirty w)")
  case (Cons h hs)
  then have "h \<in> {g \<in> set (qw_dirty w). g \<notin> set (qw_processing w)}" by (metis list.set_intros(1) set_filter)
  with Cons assms show ?thesis by (auto simp: qw_get_def)
qed (use assms in \<open>auto simp: qw_get_def split: if_splits\<close>)

interpretation simple_queue: work_queue_contract simple_queue "\<lambda>w. set (qw_dirty w)" "\<lambda>w. set (qw_processing w)" qw_down "(=)"
proof unfold_locales
  fix w g and w' :: queue_world
  show "wq_Get simple_queue w = Some ((g, False), w') \<Longrightarrow> g \<in> set (qw_dirty w) \<and> g \<notin> set (qw_processing w) \<and>
      set (qw_processing w') = insert g (set (qw_processing w)) \<and> set (qw_dirty w') = set (qw_dirty w) - {g} \<and> qw_down w' = qw_down w"
    using simple_queue_get[of w g False w'] by (auto simp: simple_queue_def)
  show "wq_Get simple_queue w = Some ((g, True), w') \<Longrightarrow>
      set (qw_processing w') = set (qw_processing w) \<and> set (qw_dirty w') = set (qw_dirty w) \<and> qw_down w' = qw_down w"
    using simple_queue_get[of w g True w'] by (auto simp: simple_queue_def)
  show "wq_Get simple_queue w = None \<Longrightarrow> \<not> qw_down w"
    by (auto simp: simple_queue_def qw_get_def split: list.splits if_splits)
qed (auto simp: simple_queue_def qw_add_def)

subsection \<open>Properties\<close>

text \<open>C8:
  No group is reconciled by two workers at the same time. With a work queue that keeps its contract,
  whatever workers, resync, handlers and panics do: a group that is being processed according to the queue
  is worked on by exactly one worker, and any other group by none, so that no group stays marked as being
  processed, and thereby locked out, after its worker let go of it.
\<close>

theorem one_worker_per_group:
  assumes "work_queue_contract (workqueue E) pending processing down keeps" and "processing (world st) = {}"
    and "ctl_runs E workers keeps k (ctl_start st) c"
  shows "count_list (c_workers c) (Body (Working g)) = (if g \<in> processing (world (c_state c)) then 1 else 0)"
  using work_queue_contract.one_worker_runs[OF assms(1) refl assms(2,3)]
  by (simp add: work_queue_contract.one_worker_def[OF assms(1)] count_mset)

text \<open>C19:
  The controller shuts down. Once its context is done and \<^verbatim>\<open>Run\<close> has returned, the workers make
  only a bounded number of moves, however the rest of the process interferes, and as long as not every
  worker has returned, one of them can move, provided reconciliations in progress return.
\<close>

theorem shutdown_ends:
  assumes "work_queue_contract (workqueue E) pending processing down keeps"
    and "ctl_runs E workers keeps j (ctl_start st) c" and "c_run c = Returned r" and "c_cancelled c"
    and "ctl_runs E workers keeps k c d"
  shows "k \<le> 2 * card (pending (world (c_state c))) + 4 * length (c_workers c) \<and>
    ((\<exists>e. ctl_work E d e) \<or> set (c_workers d) \<subseteq> {Stopped})"
proof -
  have b: "sum_list (map rank (c_workers c)) \<le> 4 * length (c_workers c)"
    using sum_list_mono[of "c_workers c" rank "\<lambda>_. 4"] rank_le by (simp add: sum_list_triv)
  have s: "work_queue_contract.stopping down c"
    using work_queue_contract.returned_down[OF assms(1) refl assms(2), of r] assms(3,4)
    by (simp add: work_queue_contract.stopping_def[OF assms(1)])
  note runs = work_queue_contract.stopping_runs[OF assms(1) refl s assms(5)]
  then have "k \<le> 2 * card (pending (world (c_state c))) + 4 * length (c_workers c)"
    using b by (simp add: work_queue_contract.left_to_do_def[OF assms(1)])
  with work_queue_contract.stopping_not_stuck[OF assms(1) refl] runs show ?thesis by blast
qed

text \<open>C29:
  A panic does not lose a group. When the reconciliation of a group panics, the group is marked done but, unlike
  after an error, it is not put on the queue again; the next periodic resync queues it, as it queues every
  group of the store, and the worker goes on after its sleep.
\<close>

theorem panicked_group_waits_for_resync:
  assumes "work_queue_contract (workqueue E) pending processing down keeps" and "gs_inv (groups st)"
    and "gs_Get g (groups st) = Inr grp" and "\<not> down (world st)"
  shows "g \<notin> processing (world (hand_back E g Panicked st)) \<and>
    pending (world (hand_back E g Panicked st)) = pending (world st) \<and>
    g \<in> pending (world (resync E (hand_back E g Panicked st))) \<and>
    worker_step E halt (Body (Working g), st) (Sleep, hand_back E g Panicked st)"
proof -
  let ?st = "hand_back E g Panicked st"
  note q = work_queue_contract.hand_back_queue[OF assms(1) refl] and
    r = work_queue_contract.resync_queue[OF assms(1) refl]
  have "groups ?st = groups st" by (simp add: hand_back_def)
  moreover have m: "map_of (groups st) g = Some grp" using assms(3) by (auto simp: gs_Get_def split: option.splits)
  then have "gid grp = g" "(g, grp) \<in> set (groups st)" using gs_inv_group[OF assms(2)] by (auto dest: map_of_SomeD)
  ultimately have "g \<in> gid ` set (gs_List (groups ?st))" by (force simp: gs_List_def)
  then have "g \<in> pending (world (resync E ?st))" using assms(4) by (simp add: r q)
  moreover have "pending (world ?st) = pending (world st)"
    by (simp add: hand_back_def work_queue_contract.marked_done[OF assms(1)])
  moreover have "worker_step E halt (Body (Working g), st) (Sleep, ?st)"
    using worker_step.item[of E halt g st Panicked] by (simp add: after_item_def)
  ultimately show ?thesis by (simp add: q)
qed

text \<open>
  Two workers; group \<open>g\<close> is handed out, added again while it is worked on, and its reconciliation
  panics; then the context is done.
\<close>

definition queue_env :: "(mem_lock_store, queue_world) env" where
  "queue_env = \<lparr>
     lockStore = Some MemLockStore,
     agents = \<lparr>as_GetStatus = (\<lambda>n w. (Inr [], w)), as_CloseClient = (\<lambda>n w. (None, w)),
       as_Snapshot = (\<lambda>n j g c w. (Inr ''op'', w)), as_GetOperation = (\<lambda>n i w. (Inl (Sentinel ErrNotFound), w)),
       as_Restore = (\<lambda>n j g c w. (Inr ''op'', w))\<rparr>,
     workqueue = simple_queue,
     nodeLister = (\<lambda>k v w. (Inr [], w)), podLister = (\<lambda>k v w. (Inr [], w)),
     time_now = (\<lambda>w. (0, w)),
     ctx_done = (\<lambda>c w. (None, w)), SettleTimeout = 30\<rparr>"

lemma queue_env_queue [simp]: "workqueue queue_env = simple_queue"
  by (simp add: queue_env_def)

definition queue_state :: "queue_world \<Rightarrow> (mem_lock_store, queue_world) orch" where
  "queue_state w = orch_start [] w"

lemma queue_state_world [simp]: "world (queue_state w) = w" "(queue_state w)\<lparr>world := v\<rparr> = queue_state v"
  by (simp_all add: queue_state_def orch_start_def)

abbreviation qw :: "string list \<Rightarrow> string list \<Rightarrow> bool \<Rightarrow> queue_world" where
  "qw d p b \<equiv> \<lparr>qw_dirty = d, qw_processing = p, qw_down = b\<rparr>"

abbreviation ctl_at :: "runner \<Rightarrow> work until list \<Rightarrow> resyncer \<Rightarrow> bool \<Rightarrow> queue_world \<Rightarrow> (mem_lock_store, queue_world) ctl" where
  "ctl_at run ws rs done w \<equiv> \<lparr>c_run = run, c_workers = ws, c_resync = rs, c_cancelled = done, c_state = queue_state w\<rparr>"

lemma runs_worker:
  assumes "ctl_runs E n K k c d" and "i < length (c_workers d)" and "c_workers d ! i = v"
    and "worker_step E (c_cancelled d) (v, c_state d) (u, st)"
  shows "ctl_runs E n K (Suc k) c (d\<lparr>c_workers := (c_workers d)[i := u], c_state := st\<rparr>)"
  using assms by (auto intro: ctl_runs.work ctl_work.worker)

lemma demo_steps:
  "worker_step queue_env False (Check, queue_state w) (Body Getting, queue_state w)"
  "worker_step queue_env False (Body Getting, queue_state (qw [''g''] [] False)) (Body (Working ''g''), queue_state (qw [] [''g''] False))"
  "worker_step queue_env False (Body (Working ''g''), queue_state (qw [] [''g''] False)) (Sleep, queue_state (qw [] [] False))"
  using worker_step.enter[of queue_env False "queue_state w"]
    worker_step.get[of queue_env "queue_state (qw [''g''] [] False)" "''g''" "qw [] [''g''] False" False]
    worker_step.item[of queue_env False "''g''" "queue_state (qw [] [''g''] False)" Panicked]
  by (simp_all add: until_enter_def simple_queue_def qw_get_def after_item_def hand_back_def)

lemma demo_working:
  "ctl_runs queue_env 2 (=) 3 (ctl_start (queue_state (qw [''g''] [] False)))
     (ctl_at Serving [Body (Working ''g''), Body Getting] FirstWait False (qw [] [''g''] False))"
proof -
  let ?r = "ctl_runs queue_env 2 (=)" and ?c = "ctl_start (queue_state (qw [''g''] [] False))"
  have "?r 0 ?c (ctl_at Serving [Check, Check] FirstWait False (qw [''g''] [] False))"
    using ctl_runs.rest[OF ctl_runs.none ctl_rest.start, of ?c queue_env 2 "(=)" "Finished None"]
    by (simp add: ctl_start_def Run_start_def numeral_2_eq_2)
  from runs_worker[OF this, of 0 Check "Body Getting", simplified, OF demo_steps(1)]
  have "?r 1 ?c (ctl_at Serving [Body Getting, Check] FirstWait False (qw [''g''] [] False))"
    by simp
  from runs_worker[OF this, of 1 Check "Body Getting", simplified, OF demo_steps(1)]
  have "?r 2 ?c (ctl_at Serving [Body Getting, Body Getting] FirstWait False (qw [''g''] [] False))"
    by (simp add: numeral_2_eq_2)
  from runs_worker[OF this, of 0 "Body Getting" "Body (Working ''g'')", simplified, OF demo_steps(2)]
  show ?thesis by simp
qed

theorem one_worker_per_group_witness:
  "count_list [Body (Working ''g''), Body Getting] (Body (Working ''g'')) = 1"
  using one_worker_per_group[OF simple_queue.work_queue_contract_axioms[folded queue_env_queue] _ demo_working, of "''g''"]
  by simp

lemma demo_stopped:
  "ctl_runs queue_env 2 (=) 4 (ctl_start (queue_state (qw [''g''] [] False)))
     (ctl_at (Returned None) [Sleep, Body Getting] FirstWait True (qw [] [] True))"
proof -
  let ?r = "ctl_runs queue_env 2 (=)" and ?c = "ctl_start (queue_state (qw [''g''] [] False))"
  from runs_worker[OF demo_working, of 0 "Body (Working ''g'')" Sleep, simplified, OF demo_steps(3)]
  have "?r 4 ?c (ctl_at Serving [Sleep, Body Getting] FirstWait False (qw [] [] False))" by simp
  from ctl_runs.rest[OF this ctl_rest.cancel]
  have "?r 4 ?c (ctl_at Serving [Sleep, Body Getting] FirstWait True (qw [] [] False))" by simp
  from ctl_runs.rest[OF this ctl_rest.stop] show ?thesis by (simp add: shut_down_def simple_queue_def)
qed

theorem shutdown_ends_witness:
  "\<exists>e. ctl_work queue_env (ctl_at (Returned None) [Sleep, Body Getting] FirstWait True (qw [] [] True)) e"
  using shutdown_ends[OF simple_queue.work_queue_contract_axioms[folded queue_env_queue] demo_stopped _ _ ctl_runs.none]
  by simp

text \<open>The group \<open>g\<close> of the store is being processed.\<close>

theorem panicked_group_waits_for_resync_witness:
  "''g'' \<in> set (qw_dirty (world (resync queue_env (hand_back queue_env ''g'' Panicked
      ((queue_state (qw [] [''g''] False))\<lparr>groups := [(''g'', held_group)]\<rparr>)))))"
proof -
  let ?st = "(queue_state (qw [] [''g''] False))\<lparr>groups := [(''g'', held_group)]\<rparr>"
  have g: "gs_inv (groups ?st)" using held_state_inv by (simp add: orch_inv_def held_state_def)
  have f: "gs_Get ''g'' (groups ?st) = Inr held_group" by (simp add: gs_Get_def)
  from panicked_group_waits_for_resync[OF simple_queue.work_queue_contract_axioms[folded queue_env_queue] g f]
  show ?thesis by simp
qed

end
