(* ===== verification/Orch_Main.thy ===== *)
theory Orch_Main
  imports Controller_Loop Orch_Server Agent_Store
begin

text \<open>
  The orchestrator as a process: \<^verbatim>\<open>cmd/timesliceorchestrator/main.go\<close> (flags, configuration,
  wiring), \<^verbatim>\<open>NewServer\<close> and \<^verbatim>\<open>StartServer\<close> of \<^verbatim>\<open>server/server.go\<close>,
  \<^verbatim>\<open>NewController\<close>, and \<^verbatim>\<open>Init\<close> and \<^verbatim>\<open>Start\<close> of
  \<^verbatim>\<open>infrastructure/kubernetes.go\<close>. What the Kubernetes and gRPC libraries answer is an argument.
\<close>

subsection \<open>Construction of the components\<close>

definition second :: int where
  "second = 1000000000"

record controller_cfg =
  cc_ResyncPeriod :: int
  cc_SettleTimeout :: int

definition NewController :: controller_cfg where
  "NewController = \<lparr>cc_ResyncPeriod = 30 * second, cc_SettleTimeout = 30 * second\<rparr>"

record ('s, 'w) orch_server =
  os_acquirePollInterval :: int
  os_checkAcquire :: "('s, 'w) env \<Rightarrow> string \<Rightarrow> string \<Rightarrow> int \<Rightarrow> ('s, 'w) orch \<Rightarrow>
     (go_error + AcquireResponse) option \<times> ('s, 'w) orch"

definition NewServer_orch :: "('s, 'w) orch_server" where
  "NewServer_orch = \<lparr>os_acquirePollInterval = 1 * second, os_checkAcquire = defaultCheckAcquire\<rparr>"

text \<open>\<^verbatim>\<open>Init\<close>: the answer of \<^verbatim>\<open>cache.WaitForCacheSync\<close>. \<^verbatim>\<open>Start\<close>: the errors of registering the handlers.\<close>

definition infra_Init :: "bool \<Rightarrow> go_error option" where
  "infra_Init synced = (if \<not> synced then Some (Text ''failed to wait for informer caches to sync'') else None)"

definition infra_Start :: "go_error option \<Rightarrow> go_error option \<Rightarrow> go_error option" where
  "infra_Start setupNode setupPod =
     (case setupNode of
        Some err \<Rightarrow> Some (Wrap ''failed to setup node informer'' err)
      | None \<Rightarrow>
          (case setupPod of
             Some err \<Rightarrow> Some (Wrap ''failed to setup pod informer'' err)
           | None \<Rightarrow> None))"

subsection \<open>StartServer\<close>

text \<open>
  The server ends when the gRPC server does, or when the context is done. In the second case it waits
  for \<^verbatim>\<open>GracefulStop\<close>, which returns once every open call has returned; the goroutine that
  serves then closes \<^verbatim>\<open>errChan\<close>. Open calls are given by what they returned so far. \<open>None\<close> is a
  server that still runs. An error of the controller is logged and nothing else.
\<close>

datatype server_event = ServeEnded "go_error option" | ContextDone

definition GracefulStop_returns :: "'r option list \<Rightarrow> bool" where
  "GracefulStop_returns calls = list_all (\<lambda>r. r \<noteq> None) calls"

definition serve_result :: "go_error option \<Rightarrow> go_error option" where
  "serve_result err =
     (case err of
        None \<Rightarrow> None
      | Some e \<Rightarrow> if errors_is e ErrServerStopped then None else Some (Wrap ''failed to serve'' e))"

definition StartServer :: "go_error option \<Rightarrow> server_event \<Rightarrow> 'r option list \<Rightarrow> go_error option option" where
  "StartServer listen ev calls =
     (case listen of
        Some err \<Rightarrow> Some (Some (Wrap ''failed to listen'' err))
      | None \<Rightarrow>
          (case ev of
             ServeEnded err \<Rightarrow> Some (serve_result err)
           | ContextDone \<Rightarrow> if GracefulStop_returns calls then Some None else None))"

subsection \<open>main\<close>

record orch_flags =
  fl_port :: int
  fl_metricsPort :: int
  fl_kubeconfig :: string
  fl_controllerWorkers :: int
  fl_snapshotAgentPort :: int
  fl_resyncPeriod :: int

definition default_flags :: orch_flags where
  "default_flags = \<lparr>fl_port = 50051, fl_metricsPort = 8080, fl_kubeconfig = [], fl_controllerWorkers = 1,
     fl_snapshotAgentPort = 9001, fl_resyncPeriod = 30 * second\<rparr>"

record 'c kube_lib =
  kl_BuildConfigFromFlags :: "string \<Rightarrow> go_error + 'c"
  kl_InClusterConfig :: "go_error + 'c"
  kl_ClientConfig :: "go_error + 'c"
  kl_NewForConfig :: "'c \<Rightarrow> go_error option"
  kl_setupNodeInformer :: "go_error option"
  kl_setupPodInformer :: "go_error option"

definition buildKubeConfig :: "'c kube_lib \<Rightarrow> string \<Rightarrow> go_error + 'c" where
  "buildKubeConfig kl kubeconfigPath =
     (if kubeconfigPath \<noteq> [] then kl_BuildConfigFromFlags kl kubeconfigPath
      else
        (case kl_InClusterConfig kl of
           Inr config \<Rightarrow> Inr config
         | Inl err \<Rightarrow> kl_ClientConfig kl))"

text \<open>What \<^verbatim>\<open>run\<close> hands to \<^verbatim>\<open>StartServer\<close>, or the error it ends with.\<close>

record orch_wiring =
  wi_agentStore :: grpc_store
  wi_controller :: controller_cfg
  wi_port :: int
  wi_metricsPort :: int
  wi_workers :: int

definition run_setup :: "'c kube_lib \<Rightarrow> orch_flags \<Rightarrow> go_error + orch_wiring" where
  "run_setup kl fl =
     (case buildKubeConfig kl (fl_kubeconfig fl) of
        Inl err \<Rightarrow> Inl (Wrap ''failed to load kubernetes config'' err)
      | Inr config \<Rightarrow>
     (case kl_NewForConfig kl config of
        Some err \<Rightarrow> Inl (Wrap ''failed to create kubernetes client'' err)
      | None \<Rightarrow>
     (case infra_Start (kl_setupNodeInformer kl) (kl_setupPodInformer kl) of
        Some err \<Rightarrow> Inl (Wrap ''failed to start infrastructure orchestrator'' err)
      | None \<Rightarrow>
          Inr \<lparr>wi_agentStore = NewGRPCSnapshotAgentStore 0 (fl_snapshotAgentPort fl),
               wi_controller = NewController\<lparr>cc_ResyncPeriod := fl_resyncPeriod fl\<rparr>,
               wi_port = fl_port fl, wi_metricsPort = fl_metricsPort fl, wi_workers = fl_controllerWorkers fl\<rparr>)))"

definition run_orch ::
  "'c kube_lib \<Rightarrow> orch_flags \<Rightarrow> (int \<Rightarrow> go_error option) \<Rightarrow> server_event \<Rightarrow> 'r option list \<Rightarrow> go_error option option" where
  "run_orch kl fl listen ev calls =
     (case run_setup kl fl of
        Inl err \<Rightarrow> Some (Some err)
      | Inr wi \<Rightarrow> StartServer (listen (wi_port wi)) ev calls)"

text \<open>The exit code of the process: 1 after an error of \<^verbatim>\<open>run\<close>; \<open>None\<close> while it does not end.\<close>

definition orch_main ::
  "'c kube_lib \<Rightarrow> orch_flags \<Rightarrow> (int \<Rightarrow> go_error option) \<Rightarrow> server_event \<Rightarrow> 'r option list \<Rightarrow> int option" where
  "orch_main kl fl listen ev calls = map_option (\<lambda>err. if err = None then 0 else 1) (run_orch kl fl listen ev calls)"

subsection \<open>Start\<close>

text \<open>The orchestrator never serves the status of an agent from its cache.\<close>

lemma orchestrator_does_not_cache:
  "run_setup kl fl = Inr wi \<Longrightarrow> cached_status address now (wi_agentStore wi) = None"
  by (auto simp: run_setup_def cached_status_def NewGRPCSnapshotAgentStore_def split: sum.splits option.splits)

text \<open>
  The order of the start: the first step that fails gives the error, and nothing is served before
  the Kubernetes client is configured and the event handlers are registered.
\<close>

lemma run_setup_ok_iff:
  "(\<exists>wi. run_setup kl fl = Inr wi) \<longleftrightarrow>
     (\<exists>config. buildKubeConfig kl (fl_kubeconfig fl) = Inr config \<and> kl_NewForConfig kl config = None) \<and>
     kl_setupNodeInformer kl = None \<and> kl_setupPodInformer kl = None"
  by (auto simp: run_setup_def infra_Start_def split: sum.splits option.splits)

subsection \<open>Shutdown of the server\<close>

text \<open>What the handlers of the server, and the world, do while the workers of the controller have returned.\<close>

datatype 'w server_call =
    ServerAcquire string string
  | ServerCheck string string int
  | ServerYield string string "JobBackendConfig option"
  | WorldChange 'w

fun serve_call :: "('s, 'w) env \<Rightarrow> 'w server_call \<Rightarrow> ('s, 'w) orch \<Rightarrow> ('s, 'w) orch" where
  "serve_call E (ServerAcquire g j) st = snd (acquire_request E g j st)"
| "serve_call E (ServerCheck g j t) st = snd (defaultCheckAcquire E g j t st)"
| "serve_call E (ServerYield g j cfg) st = snd (Yield E g j cfg st)"
| "serve_call E (WorldChange w) st = st\<lparr>world := w\<rparr>"

lemma update_same_view:
  assumes "map_of st k = Some v" and "h v' = h v"
  shows "map (\<lambda>x. h (snd x)) (AList.update k v' st) = map (\<lambda>x. h (snd x)) st"
  using assms by (induction st) (auto split: if_splits)

lemma isGroupFaulted_view:
  assumes "map (\<lambda>x. (j_groupID (snd x), contextState (snd x))) js = map (\<lambda>x. (j_groupID (snd x), contextState (snd x))) js'"
  shows "isGroupFaulted g js = isGroupFaulted g js'"
proof -
  have "isGroupFaulted g js =
      list_ex (\<lambda>(i, cs). i = g \<and> list_ex (\<lambda>x. snd x = STATE_FAULTED) cs) (map (\<lambda>x. (j_groupID (snd x), contextState (snd x))) js)" for js
    by (induction js) (simp_all add: isGroupFaulted_def ListByGroup_def)
  then show ?thesis using assms by simp
qed

lemma isGroupFaulted_config [simp]: "isGroupFaulted g (js_modify h i (SetBackendConfig c) js) = isGroupFaulted g js"
proof (cases "map_of js (makeJobKey h i)")
  case (Some j)
  then show ?thesis
    using update_same_view[OF Some, of "\<lambda>j. (j_groupID j, contextState j)" "SetBackendConfig c j"]
    by (intro isGroupFaulted_view) (simp add: js_modify_def SetBackendConfig_def)
qed (simp add: js_modify_def)

lemma isGroupFaulted_apply:
  "applyBackendConfig h i cfg js = (r, js') \<Longrightarrow> isGroupFaulted g js' = isGroupFaulted g js \<and>
     (\<forall>a. r = Inr a \<longrightarrow> isGroupFaulted g (rollback a js') = isGroupFaulted g js)"
  by (auto simp: applyBackendConfig_def rollback_def split: option.splits sum.splits if_splits)

definition kept_out :: "string \<Rightarrow> string \<Rightarrow> ('s, 'w) orch \<Rightarrow> bool" where
  "kept_out g j st \<longleftrightarrow>
     (case map_of (groups st) g of None \<Rightarrow> False | Some grp \<Rightarrow> lockingJob (spec grp) \<noteq> j) \<and> \<not> isGroupFaulted g (jobs st)"

lemma kept_out_modify:
  assumes "kept_out g j st" and "groups st' = gs_modify h f (groups st)"
    and "\<And>grp. map_of (groups st) h = Some grp \<Longrightarrow> lockingJob (spec grp) \<noteq> j \<Longrightarrow> lockingJob (spec (f grp)) \<noteq> j"
    and "isGroupFaulted g (jobs st') = isGroupFaulted g (jobs st)"
  shows "kept_out g j st'"
  using assms by (auto simp: kept_out_def split: option.splits)

lemma kept_out_cong:
  assumes "kept_out g j st" and "groups st' = groups st" and "isGroupFaulted g (jobs st') = isGroupFaulted g (jobs st)"
  shows "kept_out g j st'"
  using assms by (simp add: kept_out_def)

lemma kept_out_request:
  assumes "kept_out g j st"
  shows "kept_out g j (snd (acquire_request E h i st))"
proof (cases "gs_Get h (groups (snd (Now E st)))")
  case (Inr grp)
  obtain t st0 where n: "Now E st = (t, st0)" by fastforce
  obtain t' st1 where n': "Now E st0 = (t', st1)" by fastforce
  have f: "groups st1 = groups st" "jobs st1 = jobs st" using Now_frame[of E st] Now_frame[of E st0] n n' by simp_all
  show ?thesis
    using Inr n n' f
    by (intro kept_out_modify[OF assms, where h = h and f = "\<lambda>g. set_spec (RequestLock t' i (spec g)) g"])
      (auto simp: acquire_request_def EnqueueWork_def RequestLock_def)
next
  case (Inl e)
  obtain t st0 where n: "Now E st = (t, st0)" by fastforce
  with Inl have "snd (acquire_request E h i st) = st0" by (simp add: acquire_request_def)
  then show ?thesis using n Now_frame[of E st] by (intro kept_out_cong[OF assms]) simp_all
qed

lemma kept_out_check:
  assumes "kept_out g j st"
  shows "kept_out g j (snd (defaultCheckAcquire E h i t st))"
proof -
  have "groups (snd (defaultCheckAcquire E h i t st)) = groups st \<and> jobs (snd (defaultCheckAcquire E h i t st)) = jobs st"
    by (auto simp: defaultCheckAcquire_def Now_def Let_def split: prod.splits sum.splits)
  with assms show ?thesis by (auto intro: kept_out_cong)
qed

lemma kept_out_yield:
  assumes "kept_out g j st" and "j \<noteq> []"
  shows "kept_out g j (snd (Yield E h i cfg st))"
proof (cases "ValidateJobBackendConfig cfg = None \<and> (\<exists>grp. map_of (groups st) h = Some grp)")
  case True
  then obtain grp where v: "ValidateJobBackendConfig cfg = None" and grp: "map_of (groups st) h = Some grp" by blast
  obtain a js where a: "applyBackendConfig h i cfg (jobs st) = (a, js)" by fastforce
  obtain r sp s where y: "spec_Yield (lockStore E) (gid grp) i (spec grp) (locks st) = (r, sp, s)" by (metis prod.exhaust)
  have sp: "lockingJob (spec grp) \<noteq> j \<Longrightarrow> lockingJob sp \<noteq> j"
    using y assms(2) unfolding spec_Yield_def by (auto elim!: spec_unlock_cases)
  note fa = isGroupFaulted_apply[OF a, of g]
  show ?thesis
  proof (cases a)
    case (Inl e)
    then show ?thesis using fa v grp a by (auto intro: kept_out_cong[OF assms(1)] simp: Yield_def gs_Get_def)
  next
    case (Inr ap)
    then show ?thesis
      using fa v grp a y sp
      by (intro kept_out_modify[OF assms(1), where h = h and f = "set_spec sp"])
        (auto simp: Yield_def gs_Get_def Let_def EnqueueWork_def split: option.splits)
  qed
next
  case False
  then have "snd (Yield E h i cfg st) = st" by (auto simp: Yield_def gs_Get_def split: option.splits)
  with assms(1) show ?thesis by simp
qed

lemma kept_out_calls:
  assumes "kept_out g j st" and "j \<noteq> []"
  shows "kept_out g j (fold (serve_call E) cs st)"
  using assms(1)
proof (induction cs arbitrary: st)
  case (Cons c cs)
  have "kept_out g j (serve_call E c st)"
    using Cons.prems kept_out_request kept_out_check kept_out_yield[OF _ assms(2)]
    by (cases c) (auto intro: kept_out_cong)
  then show ?case using Cons.IH by simp
qed simp

lemma kept_out_waits:
  assumes "kept_out g j st"
  shows "defaultCheckAcquire E g j t st = (None, st)"
  using assms by (auto simp: kept_out_def defaultCheckAcquire_def gs_Get_def split: option.splits)

text \<open>C33:
  A waiting Acquire blocks the shutdown. Once the workers of the controller have returned, only the
  handlers of the server act, and none of them grants a lock: an Acquire whose job does not hold the
  lock of its group polls on through any number of turns, with any calls served in between, as long as its
  client does not give up; and the server, told to stop by its context, waits for that call in
  \<^verbatim>\<open>GracefulStop\<close> and does not return.
\<close>

theorem waiting_acquire_blocks_shutdown:
  assumes "gs_Get g (groups st) = Inr grp" and "lockingJob (spec grp) \<noteq> j" and "j \<noteq> []" and "\<not> isGroupFaulted g (jobs st)"
  shows "fst (acquire_loop E g j t0 (map (\<lambda>cs. (fold (serve_call E) cs, None)) turns) st) = None \<and>
    StartServer None ContextDone (fst (acquire_loop E g j t0 (map (\<lambda>cs. (fold (serve_call E) cs, None)) turns) st) # calls) = None"
proof -
  have "kept_out g j st" using assms by (auto simp: kept_out_def gs_Get_def split: option.splits)
  then have "fst (acquire_loop E g j t0 (map (\<lambda>cs. (fold (serve_call E) cs, None)) turns) st) = None"
  proof (induction turns arbitrary: st)
    case (Cons cs turns)
    have "kept_out g j (fold (serve_call E) cs st)" using Cons.prems assms(3) by (rule kept_out_calls)
    with kept_out_waits[OF this, of E t0] Cons.IH show ?case by simp
  qed simp
  then show ?thesis by (simp add: StartServer_def GracefulStop_returns_def)
qed

text \<open>Group \<open>g\<close> is held by \<open>a\<close>; while job \<open>b\<close> waits, \<open>a\<close> gives the lock back.\<close>

theorem waiting_acquire_blocks_shutdown_witness:
  "fst (acquire_loop idle_env ''g'' ''b'' 0 (map (\<lambda>cs. (fold (serve_call idle_env) cs, None)) [[ServerYield ''g'' ''a'' None], []]) held_state) = None"
  by (rule waiting_acquire_blocks_shutdown[THEN conjunct1]) code_simp+

end
