(* ===== verification/Gpu_Cr.thy ===== *)
theory Gpu_Cr
  imports Go_Path "HOL-Library.Word" "HOL-Library.Sublist"
begin

unbundle bit_operations_syntax

text \<open>
  The sweeper of GPU-CR artifacts (\<^verbatim>\<open>gpucr/gpucr.go\<close>): which files and directories it
  removes. The file system, with the procfs of the node, is the record \<open>fs\<close>; a sweep returns the
  paths it tries to remove, in order. Times are in nanoseconds.
\<close>

subsection \<open>The file system\<close>

text \<open>Errors, as far as \<^verbatim>\<open>os.IsNotExist\<close> and \<^verbatim>\<open>syscall.ESRCH\<close> tell them apart.\<close>

datatype fs_error = FsNotExist | FsNoProcess | FsOther string

record dirent =
  de_Name :: string
  de_IsDir :: bool
  de_ModTime :: "fs_error + int"

record fs =
  fs_ReadDir :: "string \<Rightarrow> fs_error + dirent list"
  fs_ReadFile :: "string \<Rightarrow> fs_error + string"
  fs_Stat :: "string \<Rightarrow> fs_error option"
  fs_DevIno :: "string \<Rightarrow> (64 word \<times> nat) option"

text \<open>\<^verbatim>\<open>strings.Fields\<close>: the maximal runs without white space.\<close>

definition Fields :: "string \<Rightarrow> string list" where
  "Fields s = filter (\<lambda>w. w \<noteq> []) (Split (CHR '' '') (map (\<lambda>c. if is_space c then CHR '' '' else c) s))"

subsection \<open>Names\<close>

definition digits :: "string \<Rightarrow> bool" where
  "digits s \<longleftrightarrow> s \<noteq> [] \<and> list_all is_digit s"

text \<open>A name that is a prefix, a number and one of the given endings; the number.\<close>

definition numbered :: "string \<Rightarrow> string list \<Rightarrow> string \<Rightarrow> string option" where
  "numbered pre posts name =
     (if \<not> HasPrefix name pre then None
      else
        let r = drop (length pre) name; ds = takeWhile is_digit r in
        if ds \<noteq> [] \<and> drop (length ds) r \<in> set posts then Some ds else None)"

definition isDumpFile :: "string \<Rightarrow> bool" where
  "isDumpFile name \<longleftrightarrow>
     numbered ''ckpt-'' [''.data'', ''-host.data''] name \<noteq> None \<or> numbered [] [[], ''-host''] name \<noteq> None"

definition pidFile :: "string \<Rightarrow> string option" where
  "pidFile name =
     (case numbered ''control-'' [[]] name of
        Some pid \<Rightarrow> Some pid
      | None \<Rightarrow>
          (case numbered ''pid_map_'' [[]] name of
             Some pid \<Rightarrow> Some pid
           | None \<Rightarrow> numbered ''ctl-ready-'' [[]] name))"

text \<open>\<^verbatim>\<open>ownerDirRe\<close>: two numbers with a dash between.\<close>

definition ownerDirRe :: "string \<Rightarrow> (string \<times> string) option" where
  "ownerDirRe name =
     (let a = takeWhile is_digit name; r = drop (length a) name in
      case r of
        c # b \<Rightarrow> if c = CHR ''-'' \<and> digits a \<and> digits b then Some (a, b) else None
      | [] \<Rightarrow> None)"

definition DataDir :: "(string \<Rightarrow> string) \<Rightarrow> string" where
  "DataDir env = (if env ''EXPORT_FILE_PATH'' \<noteq> [] then env ''EXPORT_FILE_PATH'' else ''/mnt/huge-ckpt'')"

definition GroupStoreDir :: "(string \<Rightarrow> string) \<Rightarrow> string" where
  "GroupStoreDir env =
     (if env ''GPU_CR_GROUP_STORE'' \<noteq> [] then env ''GPU_CR_GROUP_STORE'' else path_Join [DataDir env, ''groups''])"

subsection \<open>Processes\<close>

definition last_paren :: "string \<Rightarrow> nat option" where
  "last_paren s =
     (if CHR '')'' \<in> set s then Some (length s - 1 - length (takeWhile (\<lambda>c. c \<noteq> CHR '')'') (rev s))) else None)"

definition ProcStarttime :: "fs \<Rightarrow> string \<Rightarrow> fs_error + int" where
  "ProcStarttime f pid =
     (case fs_ReadFile f (''/proc/'' @ pid @ ''/stat'') of
        Inl err \<Rightarrow> Inl err
      | Inr data \<Rightarrow>
          (case last_paren data of
             None \<Rightarrow> Inl (FsOther (errorf [''malformed /proc/'', pid, ''/stat'']))
           | Some idx \<Rightarrow>
               if length data \<le> idx + 2 then Inl (FsOther (errorf [''malformed /proc/'', pid, ''/stat'']))
               else
                 let fields = Fields (drop (idx + 2) data) in
                 if length fields \<le> 19 then Inl (FsOther (errorf [''short /proc/'', pid, ''/stat'']))
                 else (case ParseInt 64 (fields ! 19) of
                         Inl err \<Rightarrow> Inl (FsOther (errorf [''invalid number '', fields ! 19]))
                       | Inr st \<Rightarrow> Inr st)))"

definition procExists :: "fs \<Rightarrow> string \<Rightarrow> bool" where
  "procExists f pid = (fs_Stat f (''/proc/'' @ pid) = None)"

definition CutPrefix :: "string \<Rightarrow> string \<Rightarrow> string option" where
  "CutPrefix s p = (if HasPrefix s p then Some (drop (length p) s) else None)"

text \<open>The first line of a file; its newline is white space, which \<open>Fields\<close> drops.\<close>

definition first_line :: "string \<Rightarrow> string" where
  "first_line data = takeWhile (\<lambda>c. c \<noteq> char_of (10 :: nat)) data"

fun advertised_field :: "string list \<Rightarrow> int option" where
  "advertised_field [] = None"
| "advertised_field (x # xs) =
     (case CutPrefix x ''starttime='' of
        Some v \<Rightarrow> (case ParseInt 64 v of Inr n \<Rightarrow> Some n | Inl err \<Rightarrow> None)
      | None \<Rightarrow> advertised_field xs)"

definition advertisedStarttime :: "fs \<Rightarrow> string \<Rightarrow> int option" where
  "advertisedStarttime f path =
     (case fs_ReadFile f path of
        Inl err \<Rightarrow> None
      | Inr data \<Rightarrow> advertised_field (Fields (first_line data)))"

definition pidGone :: "fs \<Rightarrow> string \<Rightarrow> string \<Rightarrow> bool" where
  "pidGone f pid path =
     (case ProcStarttime f pid of
        Inl err \<Rightarrow> err = FsNotExist \<or> \<not> procExists f pid
      | Inr cur \<Rightarrow>
          if HasPrefix (Base path) ''ctl-ready-''
          then (case advertisedStarttime f path of Some adv \<Rightarrow> adv \<noteq> cur | None \<Rightarrow> False)
          else False)"

definition ownerGone :: "fs \<Rightarrow> string \<Rightarrow> int \<Rightarrow> bool" where
  "ownerGone f pid recorded =
     (case ProcStarttime f pid of
        Inl err \<Rightarrow> if err = FsNotExist then True else fs_Stat f (''/proc/'' @ pid) = Some FsNotExist
      | Inr cur \<Rightarrow> cur \<noteq> recorded)"

subsection \<open>Mapped files\<close>

text \<open>The key of a file: major and minor device number and inode, as numbers.\<close>

definition mapsDevIno :: "string \<Rightarrow> string \<Rightarrow> (nat \<times> nat \<times> nat) option" where
  "mapsDevIno dev ino =
     (case Cut (CHR '':'') dev of
        None \<Rightarrow> None
      | Some (majField, minField) \<Rightarrow>
          (case ParseUint 16 majField of
             None \<Rightarrow> None
           | Some major \<Rightarrow>
               (case ParseUint 16 minField of
                  None \<Rightarrow> None
                | Some minor \<Rightarrow>
                    (case ParseUint 10 ino of None \<Rightarrow> None | Some inode \<Rightarrow> Some (major, minor, inode)))))"

definition devMajMin :: "64 word \<Rightarrow> 64 word \<times> 64 word" where
  "devMajMin dev =
     ((drop_bit 8 dev AND 0xfff) OR (drop_bit 32 dev AND NOT 0xfff),
      (dev AND 0xff) OR (drop_bit 12 dev AND NOT 0xff))"

definition fileDevIno :: "fs \<Rightarrow> string \<Rightarrow> (nat \<times> nat \<times> nat) option" where
  "fileDevIno f path =
     (case fs_DevIno f path of
        None \<Rightarrow> None
      | Some (dev, ino) \<Rightarrow> (case devMajMin dev of (major, minor) \<Rightarrow> Some (unat major, unat minor, ino)))"

definition line_key :: "string \<Rightarrow> (nat \<times> nat \<times> nat) option" where
  "line_key line =
     (let fields = Fields line in
      if length fields < 5 \<or> fields ! 4 = ''0'' then None else mapsDevIno (fields ! 3) (fields ! 4))"

fun scan_procs :: "fs \<Rightarrow> dirent list \<Rightarrow> (nat \<times> nat \<times> nat) list \<Rightarrow> bool \<Rightarrow> (nat \<times> nat \<times> nat) list \<times> bool" where
  "scan_procs f [] live complete = (live, complete)"
| "scan_procs f (e # es) live complete =
     (if \<not> de_IsDir e \<or> \<not> digits (de_Name e) then scan_procs f es live complete
      else
        (case fs_ReadFile f (path_Join [''/proc'', de_Name e, ''maps'']) of
           Inl err \<Rightarrow>
             scan_procs f es live (if err \<noteq> FsNotExist \<and> err \<noteq> FsNoProcess then False else complete)
         | Inr data \<Rightarrow>
             scan_procs f es (live @ List.map_filter line_key (Split (char_of (10 :: nat)) data)) complete))"

definition liveMappedInodes :: "fs \<Rightarrow> (nat \<times> nat \<times> nat) list \<times> bool" where
  "liveMappedInodes f =
     (case fs_ReadDir f ''/proc'' of
        Inl err \<Rightarrow> ([], False)
      | Inr entries \<Rightarrow> scan_procs f entries [] True)"

subsection \<open>Sweeps\<close>

definition gcMinAge :: int where "gcMinAge = 5 * 60 * 1000000000"
definition ctlMinAge :: int where "ctlMinAge = 60 * 1000000000"

definition old_enough :: "int \<Rightarrow> int \<Rightarrow> dirent \<Rightarrow> bool" where
  "old_enough now minAge e = (case de_ModTime e of Inl err \<Rightarrow> False | Inr t \<Rightarrow> minAge \<le> now - t)"

definition stale_entry :: "fs \<Rightarrow> (nat \<times> nat \<times> nat) list \<Rightarrow> bool \<Rightarrow> int \<Rightarrow> string \<Rightarrow> dirent \<Rightarrow> bool" where
  "stale_entry f live complete now dir e \<longleftrightarrow>
     \<not> de_IsDir e \<and> old_enough now gcMinAge e \<and>
     (if isDumpFile (de_Name e)
      then (case fileDevIno f (path_Join [dir, de_Name e]) of
              Some key \<Rightarrow> complete \<and> key \<notin> set live
            | None \<Rightarrow> False)
      else (case pidFile (de_Name e) of
              Some pid \<Rightarrow> pidGone f pid (path_Join [dir, de_Name e])
            | None \<Rightarrow> False))"

definition sweepDataDir :: "fs \<Rightarrow> int \<Rightarrow> string \<Rightarrow> string list" where
  "sweepDataDir f now dir =
     (case fs_ReadDir f dir of
        Inl err \<Rightarrow> []
      | Inr entries \<Rightarrow>
          (case liveMappedInodes f of
             (live, complete) \<Rightarrow>
               map (\<lambda>e. path_Join [dir, de_Name e]) (filter (stale_entry f live complete now dir) entries)))"

definition sweepPidFiles :: "fs \<Rightarrow> int \<Rightarrow> string \<Rightarrow> int \<Rightarrow> string list" where
  "sweepPidFiles f now dir minAge =
     (case fs_ReadDir f dir of
        Inl err \<Rightarrow> []
      | Inr entries \<Rightarrow>
          map (\<lambda>e. path_Join [dir, de_Name e])
            (filter (\<lambda>e. \<not> de_IsDir e \<and>
               (case pidFile (de_Name e) of
                  None \<Rightarrow> False
                | Some pid \<Rightarrow> old_enough now minAge e \<and> pidGone f pid (path_Join [dir, de_Name e]))) entries))"

fun owners_loop :: "dirent list \<Rightarrow> (string \<times> int) list \<Rightarrow> (string \<times> int) list option" where
  "owners_loop [] owners = Some owners"
| "owners_loop (e # es) owners =
     (if \<not> de_IsDir e then owners_loop es owners
      else
        (case ownerDirRe (de_Name e) of
           None \<Rightarrow> None
         | Some (pid, st) \<Rightarrow>
             (case ParseInt 64 st of Inl err \<Rightarrow> None | Inr n \<Rightarrow> owners_loop es (owners @ [(pid, n)]))))"

definition slotOwners :: "fs \<Rightarrow> string \<Rightarrow> (string \<times> int) list option" where
  "slotOwners f dir = (case fs_ReadDir f dir of Inl err \<Rightarrow> None | Inr entries \<Rightarrow> owners_loop entries [])"

text \<open>
  One hour, or the positive duration the environment names; \<open>parseDuration\<close> is
  \<^verbatim>\<open>time.ParseDuration\<close>, with \<open>None\<close> for an error.
\<close>

definition groupGrace :: "(string \<Rightarrow> int option) \<Rightarrow> (string \<Rightarrow> string) \<Rightarrow> int" where
  "groupGrace parseDuration env =
     (let v = env ''GPU_CR_GROUP_GRACE_HOURS'' in
      if v \<noteq> [] then
        (case parseDuration (v @ ''h'') of
           Some n \<Rightarrow> if 0 < n then n else 60 * 60 * 1000000000
         | None \<Rightarrow> 60 * 60 * 1000000000)
      else 60 * 60 * 1000000000)"

definition orphaned_slot :: "fs \<Rightarrow> int \<Rightarrow> int \<Rightarrow> string \<Rightarrow> dirent \<Rightarrow> bool" where
  "orphaned_slot f now grace store e \<longleftrightarrow>
     de_IsDir e \<and> old_enough now grace e \<and>
     (case slotOwners f (path_Join [store, de_Name e]) of
        None \<Rightarrow> False
      | Some owners \<Rightarrow> length owners \<noteq> 0 \<and> list_all (\<lambda>(pid, st). ownerGone f pid st) owners)"

definition sweepGroupStore :: "(string \<Rightarrow> int option) \<Rightarrow> fs \<Rightarrow> (string \<Rightarrow> string) \<Rightarrow> int \<Rightarrow> string list" where
  "sweepGroupStore parseDuration f env now =
     (let store = GroupStoreDir env; grace = groupGrace parseDuration env in
      case fs_ReadDir f store of
        Inl err \<Rightarrow> []
      | Inr entries \<Rightarrow> map (\<lambda>e. path_Join [store, de_Name e]) (filter (orphaned_slot f now grace store) entries))"

definition sweep :: "(string \<Rightarrow> int option) \<Rightarrow> fs \<Rightarrow> (string \<Rightarrow> string) \<Rightarrow> int \<Rightarrow> string \<Rightarrow> string list" where
  "sweep parseDuration f env now dataDir =
     sweepDataDir f now dataDir @
     (let ctl = env ''GPU_CR_CTL_PATH'' in
      if ctl \<noteq> [] \<and> ctl \<noteq> dataDir then sweepPidFiles f now ctl ctlMinAge else []) @
     sweepGroupStore parseDuration f env now"

subsection \<open>Device numbers\<close>

text \<open>The encoding of a device number in a \<^verbatim>\<open>dev_t\<close>, as the kernel and the C library build it.\<close>

definition makedev :: "64 word \<Rightarrow> 64 word \<Rightarrow> 64 word" where
  "makedev major minor =
     push_bit 8 (major AND 0xfff) OR push_bit 32 (major AND NOT 0xfff) OR (minor AND 0xff) OR push_bit 12 (minor AND NOT 0xff)"

lemma small_word_bit:
  assumes "(w :: 64 word) < 2 ^ k" and "k \<le> n"
  shows "\<not> bit w n"
proof -
  have "bit w n = bit (w AND mask k) n" using less_mask_eq[OF assms(1)] by simp
  then show ?thesis using assms(2) by (auto simp: bit_and_iff bit_mask_iff)
qed

lemma mask_masks: "(0xfff :: 64 word) = mask 12" "(0xff :: 64 word) = mask 8"
  by (simp_all add: mask_numeral)

lemma bit_makedev:
  assumes "major < 2 ^ 12" and "minor < 2 ^ 32"
  shows "bit (makedev major minor) m \<longleftrightarrow>
    (8 \<le> m \<and> m < 20 \<and> bit major (m - 8)) \<or> (m < 8 \<and> bit minor m) \<or> (20 \<le> m \<and> m < 44 \<and> bit minor (m - 12))"
proof -
  have hi: "bit (push_bit 32 (major AND NOT (mask 12))) m = False"
    using small_word_bit[OF assms(1), of "m - 32"] by (cases "12 \<le> m - 32") (auto simp: bit_push_bit_iff bit_and_iff bit_not_iff bit_mask_iff)
  have lo: "bit (push_bit 8 (major AND mask 12)) m \<longleftrightarrow> 8 \<le> m \<and> m < 20 \<and> bit major (m - 8)"
    by (auto simp: bit_push_bit_iff bit_and_iff bit_mask_iff)
  have mhi: "bit (push_bit 12 (minor AND NOT (mask 8))) m \<longleftrightarrow> 20 \<le> m \<and> m < 44 \<and> bit minor (m - 12)"
    using small_word_bit[OF assms(2), of "m - 12"] by (cases "32 \<le> m - 12") (auto simp: bit_push_bit_iff bit_and_iff bit_not_iff bit_mask_iff)
  have mlo: "bit (minor AND mask 8) m \<longleftrightarrow> m < 8 \<and> bit minor m"
    by (auto simp: bit_and_iff bit_mask_iff)
  show ?thesis unfolding makedev_def mask_masks bit_or_iff hi lo mhi mlo by blast
qed

lemma devMajMin_makedev:
  assumes "major < 2 ^ 12" and "minor < 2 ^ 32"
  shows "devMajMin (makedev major minor) = (major, minor)"
proof -
  note b = bit_makedev[OF assms]
  have "bit (fst (devMajMin (makedev major minor))) n = bit major n" for n
    using small_word_bit[OF assms(1), of n]
    by (cases "n < 12") (auto simp: devMajMin_def mask_masks bit_or_iff bit_and_iff bit_not_iff bit_mask_iff bit_drop_bit_eq b)
  moreover have "bit (snd (devMajMin (makedev major minor))) n = bit minor n" for n
    using small_word_bit[OF assms(2), of n]
    by (cases "n < 8"; cases "n < 32") (auto simp: devMajMin_def mask_masks bit_or_iff bit_and_iff bit_not_iff bit_mask_iff bit_drop_bit_eq b)
  ultimately show ?thesis by (auto intro!: prod_eqI bit_word_eqI)
qed

text \<open>The device column of a line of \<^verbatim>\<open>/proc/<pid>/maps\<close>, as the kernel prints it.\<close>

definition kernel_dev :: "64 word \<Rightarrow> 64 word \<Rightarrow> string" where
  "kernel_dev major minor = hex02 (unat major) @ CHR '':'' # hex02 (unat minor)"

lemma word_unat_lt: "unat (w :: 64 word) < 2 ^ 64"
  using unsigned_less[of w] by simp

lemma keys_agree:
  assumes "major < 2 ^ 12" and "minor < 2 ^ 32" and "ino < 2 ^ 64"
    and "fs_DevIno f path = Some (makedev major minor, ino)"
  shows "mapsDevIno (kernel_dev major minor) (nat_digits ino) = fileDevIno f path"
  using assms word_unat_lt[of major] word_unat_lt[of minor]
  by (simp add: mapsDevIno_def kernel_dev_def Cut_append hex_digits_no_colon ParseUint_hex02 ParseUint_nat_digits
      fileDevIno_def devMajMin_makedev)

subsection \<open>What a sweep keeps\<close>

text \<open>Once incomplete, a scan stays incomplete; once live, a key stays live.\<close>

lemma scan_procs_mono: "set live \<subseteq> set (fst (scan_procs f es live c)) \<and> (snd (scan_procs f es live c) \<longrightarrow> c)"
proof (induction f es live c rule: scan_procs.induct)
  case (2 f e es live c)
  then show ?case by (auto split: sum.split)
qed simp

lemma map_filter_set: "x \<in> set xs \<Longrightarrow> g x = Some y \<Longrightarrow> y \<in> set (List.map_filter g xs)"
  by (induction xs) (auto simp: List.map_filter_simps split: option.split)

lemma scan_procs_reads:
  assumes "e \<in> set es" and "de_IsDir e" and "digits (de_Name e)"
  shows "case fs_ReadFile f (path_Join [''/proc'', de_Name e, ''maps'']) of
      Inl err \<Rightarrow> err \<in> {FsNotExist, FsNoProcess} \<or> \<not> snd (scan_procs f es live c)
    | Inr data \<Rightarrow> set (List.map_filter line_key (Split (char_of (10 :: nat)) data)) \<subseteq> set (fst (scan_procs f es live c))"
  using assms(1)
proof (induction es arbitrary: live c)
  case (Cons x es)
  show ?case
  proof (cases "x = e")
    case True
    have m: "\<And>l b. set l \<subseteq> set (fst (scan_procs f es l b)) \<and> (snd (scan_procs f es l b) \<longrightarrow> b)" by (rule scan_procs_mono)
    show ?thesis
    proof (cases "fs_ReadFile f (path_Join [''/proc'', de_Name e, ''maps''])")
      case (Inl err)
      then show ?thesis using True assms m[of live False] by auto
    next
      case (Inr data)
      let ?l = "live @ List.map_filter line_key (Split (char_of (10 :: nat)) data)"
      have "scan_procs f (x # es) live c = scan_procs f es ?l c" using Inr True assms by simp
      then show ?thesis using Inr m[of ?l c] by auto
    qed
  next
    case False
    then have e: "e \<in> set es" using Cons.prems by auto
    obtain l b where "scan_procs f (x # es) live c = scan_procs f es l b"
      unfolding scan_procs.simps
      by (cases "\<not> de_IsDir x \<or> \<not> digits (de_Name x)";
          cases "fs_ReadFile f (path_Join [''/proc'', de_Name x, ''maps''])") (simp_all only: if_True if_False sum.case)
    then show ?thesis using Cons.IH[OF e, of l b] by (simp only:)
  qed
qed simp

lemma Join_inj: "d \<noteq> [] \<Longrightarrow> plain_elem m \<Longrightarrow> plain_elem n \<Longrightarrow> path_Join [d, m] = path_Join [d, n] \<longleftrightarrow> m = n"
  by (metis Join_child last_snoc)

lemma nat_digits_zero: "nat_digits n = ''0'' \<longleftrightarrow> n = 0"
proof -
  have "nat_digits 0 = ''0''" by code_simp
  then show ?thesis by (metis nat_digits_val)
qed

definition process_maps :: "fs \<Rightarrow> string \<Rightarrow> 64 word \<Rightarrow> 64 word \<Rightarrow> nat \<Rightarrow> bool" where
  "process_maps f pid major minor ino =
     (case fs_ReadFile f (path_Join [''/proc'', pid, ''maps'']) of
        Inl err \<Rightarrow> err \<noteq> FsNotExist \<and> err \<noteq> FsNoProcess
      | Inr data \<Rightarrow>
          list_ex (\<lambda>line. 5 \<le> length (Fields line) \<and> Fields line ! 3 = kernel_dev major minor \<and> Fields line ! 4 = nat_digits ino)
            (Split (char_of (10 :: nat)) data))"

lemma mapped_file_is_live:
  assumes "fs_ReadDir f ''/proc'' = Inr procs" and "pe \<in> set procs" and "de_IsDir pe" and "digits (de_Name pe)"
    and "process_maps f (de_Name pe) major minor ino" and "0 < ino" and "ino < 2 ^ 64"
    and "major < 2 ^ 12" and "minor < 2 ^ 32" and "fs_DevIno f path = Some (makedev major minor, ino)"
    and "fileDevIno f path = Some key"
  shows "\<not> snd (liveMappedInodes f) \<or> key \<in> set (fst (liveMappedInodes f))"
proof -
  note scan = scan_procs_reads[OF assms(2-4), of f "[]" True]
  have key: "mapsDevIno (kernel_dev major minor) (nat_digits ino) = Some key"
    using keys_agree[OF assms(8,9,7,10)] assms(11) by simp
  have "line_key line = Some key"
    if "5 \<le> length (Fields line)" "Fields line ! 3 = kernel_dev major minor" "Fields line ! 4 = nat_digits ino" for line
    using that key assms(6) nat_digits_zero[of ino] by (simp add: line_key_def Let_def)
  note lk = map_filter_set[of _ _ line_key, OF _ this]
  show ?thesis
  proof (cases "fs_ReadFile f (path_Join [''/proc'', de_Name pe, ''maps''])")
    case (Inl err)
    then show ?thesis using scan assms(1,5) by (simp add: process_maps_def liveMappedInodes_def)
  next
    case (Inr data)
    then have "key \<in> set (List.map_filter line_key (Split (char_of (10 :: nat)) data))"
      using assms(5) by (auto simp: process_maps_def list_ex_iff intro: lk)
    then show ?thesis using scan assms(1) Inr by (auto simp: liveMappedInodes_def)
  qed
qed


definition demo_fs :: fs where
  "demo_fs =
     \<lparr>fs_ReadDir = (\<lambda>p.
        if p = ''/d'' then Inr [\<lparr>de_Name = ''7'', de_IsDir = False, de_ModTime = Inr 0\<rparr>]
        else if p = ''/proc'' then Inr [\<lparr>de_Name = ''12'', de_IsDir = True, de_ModTime = Inr 0\<rparr>]
        else Inl FsNotExist),
      fs_ReadFile = (\<lambda>p. if p = ''/proc/12/maps'' then Inr ''7f00-7f10 rw-s 00 103:03 42 /x/7'' else Inl FsNotExist),
      fs_Stat = (\<lambda>p. Some FsNotExist),
      fs_DevIno = (\<lambda>p. if p = ''/d/7'' then Some (makedev 259 3, 42) else None)\<rparr>"

lemma demo_fs_maps: "process_maps demo_fs ''12'' 259 3 42"
  by code_simp


subsection \<open>Owners of a slot\<close>

lemma takeWhile_digits: "list_all is_digit a \<Longrightarrow> takeWhile is_digit (a @ CHR ''-'' # b) = a"
  by (induction a) (auto simp: is_digit_signs)

text \<open>The directory name the backend gives an owner is read back as that owner.\<close>

lemma ownerDirRe_owner:
  assumes "digits pid" and "0 \<le> st"
  shows "ownerDirRe (pid @ CHR ''-'' # Itoa st) = Some (pid, Itoa st)"
proof -
  have "digits (Itoa st)" using assms(2) nat_digits_digits nat_digits_not_Nil by (simp add: Itoa_def digits_def)
  then show ?thesis using assms takeWhile_digits[of pid] by (simp add: ownerDirRe_def digits_def Let_def)
qed

lemma owners_loop_acc: "owners_loop es acc = Some owners \<Longrightarrow> set acc \<subseteq> set owners"
  by (induction es acc rule: owners_loop.induct) (auto split: if_splits option.splits prod.splits sum.splits)

lemma owners_loop_owner:
  assumes "owners_loop es acc = Some owners" and "e \<in> set es" and "de_IsDir e"
    and "ownerDirRe (de_Name e) = Some (pid, sts)" and "ParseInt 64 sts = Inr st"
  shows "(pid, st) \<in> set owners"
  using assms(1,2)
proof (induction es acc rule: owners_loop.induct)
  case (2 x xs acc)
  show ?case
  proof (cases "x = e")
    case True
    then have "owners_loop xs (acc @ [(pid, st)]) = Some owners" using 2 assms(3-5) by simp
    then show ?thesis using owners_loop_acc by fastforce
  next
    case False
    then show ?thesis using 2 by (auto split: if_splits option.splits prod.splits sum.splits)
  qed
qed simp

lemma ProcStarttime_range: "ProcStarttime f pid = Inr st \<Longrightarrow> st < 2 ^ 63 \<and> - (2 ^ 63) \<le> st"
  using ParseInt_range[of 64] by (auto simp: ProcStarttime_def Let_def split: sum.splits option.splits if_splits)

text \<open>A slot with the directory of an owner that is not known to be gone is kept.\<close>

lemma live_owner_keeps_slot:
  assumes "fs_ReadDir f dir = Inr es" and "oe \<in> set es" and "de_IsDir oe"
    and "de_Name oe = pid @ CHR ''-'' # Itoa st" and "digits pid" and "0 \<le> st" and "st < 2 ^ 63" and "\<not> ownerGone f pid st"
  shows "dir \<notin> set (sweepGroupStore parseDuration f env now)"
proof
  assume "dir \<in> set (sweepGroupStore parseDuration f env now)"
  then obtain e where "dir = path_Join [GroupStoreDir env, de_Name e]"
      "orphaned_slot f now (groupGrace parseDuration env) (GroupStoreDir env) e"
    by (auto simp: sweepGroupStore_def Let_def split: sum.splits)
  then obtain owners where o: "owners_loop es [] = Some owners" "list_all (\<lambda>(pid, st). ownerGone f pid st) owners"
    using assms(1) by (auto simp: orphaned_slot_def slotOwners_def split: option.splits)
  have "ParseInt 64 (Itoa st) = Inr st" using assms(6,7) by (intro ParseInt_Itoa) simp_all
  then have "(pid, st) \<in> set owners"
    using owners_loop_owner[OF o(1) assms(2,3)] ownerDirRe_owner[OF assms(5,6)] assms(4) by simp
  then show False using o(2) assms(8) by (auto simp: list_all_iff)
qed

end
