(* ===== verification/Agent_Main.thy ===== *)
theory Agent_Main
  imports Agent_Server Watcher Gpu_Cr
begin

text \<open>
  The snapshot agent as a process: \<^verbatim>\<open>cmd/snapshot-agent/main.go\<close> (flags, environment, the
  backends of the node), \<^verbatim>\<open>StartServer\<close>, \<^verbatim>\<open>NewHealthServer\<close> and \<^verbatim>\<open>Watch\<close> of
  \<^verbatim>\<open>server/server.go\<close>, \<^verbatim>\<open>NewWatcher\<close> and \<^verbatim>\<open>Start\<close> of
  \<^verbatim>\<open>server/watcher.go\<close> and \<^verbatim>\<open>StartSweeper\<close> of \<^verbatim>\<open>gpucr/gpucr.go\<close>. The environment is a
  function from names to values, the empty string for an unset variable, as \<^verbatim>\<open>os.Getenv\<close> has it.
\<close>

subsection \<open>Flags and environment\<close>

record agent_flags =
  af_port :: int
  af_deploymentMode :: string
  af_featureGates :: string
  af_defaultBackend :: string
  af_vramResidueThresholdMB :: int

definition agent_flag_defaults :: agent_flags where
  "agent_flag_defaults = \<lparr>af_port = 9001, af_deploymentMode = ''standalone'', af_featureGates = [],
     af_defaultBackend = BackendCuda, af_vramResidueThresholdMB = 0\<rparr>"

text \<open>An environment variable that is set overrides the flag.\<close>

definition env_or :: "(string \<Rightarrow> string) \<Rightarrow> string \<Rightarrow> string \<Rightarrow> string" where
  "env_or env name v = (if env name \<noteq> [] then env name else v)"

definition listenPort :: "(string \<Rightarrow> string) \<Rightarrow> int \<Rightarrow> go_error + int" where
  "listenPort env p = (if env ''AGENT_PORT'' \<noteq> [] then Atoi (env ''AGENT_PORT'') else Inr p)"

text \<open>A malformed threshold is ignored, a negative one becomes 0.\<close>

definition residueMB :: "(string \<Rightarrow> string) \<Rightarrow> int \<Rightarrow> int" where
  "residueMB env v =
     (let r = (if env ''VRAM_RESIDUE_THRESHOLD_MB'' \<noteq> []
               then (case Atoi (env ''VRAM_RESIDUE_THRESHOLD_MB'') of Inr r \<Rightarrow> r | Inl err \<Rightarrow> v)
               else v)
      in if r < 0 then 0 else r)"

subsection \<open>The backends of the node\<close>

definition registeredBackends :: "string \<Rightarrow> BackendType list" where
  "registeredBackends accelType =
     [BackendCuda, BackendNoop, BackendAppEndpoint, BackendAppChannel, BackendDirectMemory, BackendMemoryRegions] @
     (if accelType = ''tpu'' then [BackendTpu] else [])"

text \<open>Why the process exits, and what it starts with.\<close>

datatype agent_exit =
    InvalidPort go_error
  | InvalidDeploymentMode
  | InvalidFeatureGates go_error
  | InvalidDefaultBackend
  | IncompatibleBackend

record agent_config =
  ag_port :: int
  ag_deploymentMode :: string
  ag_defaultBackend :: BackendType
  ag_featureGates :: gates
  ag_backends :: "BackendType list"
  ag_tpuDiscovery :: bool
  ag_sweepDir :: "string option"
  ag_residueMB :: int

definition agent_main :: "(string \<Rightarrow> string) \<Rightarrow> agent_flags \<Rightarrow> agent_exit + agent_config" where
  "agent_main env fl =
     (let depMode = env_or env ''DEPLOYMENT_MODE'' (af_deploymentMode fl);
          defBackend = env_or env ''DEFAULT_BACKEND'' (af_defaultBackend fl);
          accelType = env ''ACCELERATOR_TYPE'';
          registered = registeredBackends accelType in
      case listenPort env (af_port fl) of
        Inl err \<Rightarrow> Inl (InvalidPort err)
      | Inr port \<Rightarrow>
          if depMode \<noteq> ''standalone'' \<and> depMode \<noteq> ''k8s'' then Inl InvalidDeploymentMode
          else
            (case ParseGates (env_or env ''FEATURE_GATES'' (af_featureGates fl)) of
               Inl err \<Rightarrow> Inl (InvalidFeatureGates err)
             | Inr gates \<Rightarrow>
                 if defBackend \<notin> set registered then Inl InvalidDefaultBackend
                 else if accelType = ''tpu'' \<and> (defBackend = BackendCuda \<or> defBackend = BackendDirectMemory)
                 then Inl IncompatibleBackend
                 else
                   Inr \<lparr>ag_port = port, ag_deploymentMode = depMode, ag_defaultBackend = defBackend,
                        ag_featureGates = gates, ag_backends = registered, ag_tpuDiscovery = (accelType = ''tpu''),
                        ag_sweepDir = (if env ''EXPORT_FILE_PATH'' \<noteq> [] then Some (env ''EXPORT_FILE_PATH'') else None),
                        ag_residueMB = residueMB env (af_vramResidueThresholdMB fl)\<rparr>))"

text \<open>
  The server the process builds: \<open>mk\<close> gives the backend behind each registered name; \<open>gpu\<close> and
  \<open>tpu\<close> are the two kinds of process discovery.
\<close>

definition agent_server_cfg :: "(BackendType \<Rightarrow> 'w Backend) \<Rightarrow> agent_config \<Rightarrow> 'w server_cfg" where
  "agent_server_cfg mk c =
     \<lparr>backendMap = map (\<lambda>t. (t, mk t)) (ag_backends c), defaultBackend = ag_defaultBackend c,
      deploymentMode = ag_deploymentMode c, featureGates = ag_featureGates c\<rparr>"

definition agent_discovery :: "pod_env \<Rightarrow> pod_env \<Rightarrow> agent_config \<Rightarrow> pod_env" where
  "agent_discovery gpu tpu c =
     (if ag_tpuDiscovery c
      then gpu\<lparr>pe_GetPodPIDs := pe_GetPodPIDs tpu, pe_HasGPUProcesses := pe_HasGPUProcesses tpu\<rparr>
      else gpu)"

text \<open>
  The directory the workloads share gets the permissions 1777 before the sweeper starts, when it
  exists; \<open>stat\<close> is the error of looking at it. A failure to change them is only logged.
\<close>

definition shared_dir_mode :: "(string \<Rightarrow> go_error option) \<Rightarrow> agent_config \<Rightarrow> (string \<times> nat) list" where
  "shared_dir_mode stat c =
     (case ag_sweepDir c of
        None \<Rightarrow> []
      | Some ctlDir \<Rightarrow> if stat ctlDir = None then [(ctlDir, 512 + 511)] else [])"

subsection \<open>The sweeper\<close>

text \<open>
  A sweep at the start and one at every tick until the context is done (\<open>None\<close>); the result is what
  the sweeps remove. A sweep sees the file system and the time of its moment.
\<close>

fun sweeper_loop :: "(fs \<times> int \<Rightarrow> string list) \<Rightarrow> (fs \<times> int) option list \<Rightarrow> string list" where
  "sweeper_loop sw [] = []"
| "sweeper_loop sw (None # es) = []"
| "sweeper_loop sw (Some t # es) = sw t @ sweeper_loop sw es"

definition StartSweeper ::
  "(string \<Rightarrow> int option) \<Rightarrow> (string \<Rightarrow> string) \<Rightarrow> string \<Rightarrow> fs \<times> int \<Rightarrow> (fs \<times> int) option list \<Rightarrow> string list" where
  "StartSweeper parseDuration env ctlDir start es =
     (let sw = (\<lambda>(f, now). sweep parseDuration f env now ctlDir) in sw start @ sweeper_loop sw es)"

subsection \<open>StartServer\<close>

text \<open>\<^verbatim>\<open>NewWatcher\<close> gives the node name the watcher filters by.\<close>

definition NewWatcher :: "(string \<Rightarrow> string) \<Rightarrow> go_error option \<Rightarrow> go_error + string" where
  "NewWatcher env addHandler =
     (if env ''NODE_NAME'' = [] then Inl (Text ''NODE_NAME environment variable not set'')
      else
        (case addHandler of
           Some err \<Rightarrow> Inl (Wrap ''failed to add event handler to informer'' err)
         | None \<Rightarrow> Inr (env ''NODE_NAME'')))"

record agent_lib =
  al_Listen :: "int \<Rightarrow> go_error option"
  al_GetK8sClient :: "go_error option"
  al_AddEventHandler :: "go_error option"
  al_WaitForCacheSync :: bool
  al_Serve :: "go_error option"

text \<open>
  The result, and whether the detection loop was started and requests were served. \<^verbatim>\<open>Start\<close> of
  the watcher starts the loop once the cache of the informer is synced.
\<close>

record agent_served =
  sv_result :: "go_error option"
  sv_detecting :: bool
  sv_serving :: bool

definition agent_StartServer :: "agent_lib \<Rightarrow> (string \<Rightarrow> string) \<Rightarrow> agent_config \<Rightarrow> agent_served" where
  "agent_StartServer lib env c =
     (case al_Listen lib (ag_port c) of
        Some err \<Rightarrow> \<lparr>sv_result = Some (Wrap ''failed to listen'' err), sv_detecting = False, sv_serving = False\<rparr>
      | None \<Rightarrow>
     (case al_GetK8sClient lib of
        Some err \<Rightarrow> \<lparr>sv_result = Some (Wrap ''failed to get K8s client'' err), sv_detecting = False, sv_serving = False\<rparr>
      | None \<Rightarrow>
     (case NewWatcher env (al_AddEventHandler lib) of
        Inl err \<Rightarrow> \<lparr>sv_result = Some (Wrap ''failed to create watcher'' err), sv_detecting = False, sv_serving = False\<rparr>
      | Inr nodeName \<Rightarrow>
          \<lparr>sv_result = map_option (Wrap ''failed to serve'') (al_Serve lib),
           sv_detecting = al_WaitForCacheSync lib, sv_serving = True\<rparr>)))"

text \<open>The exit code of the process: every refused configuration and every error of \<^verbatim>\<open>StartServer\<close> gives 1.\<close>

definition agent_exit_code :: "agent_lib \<Rightarrow> (string \<Rightarrow> string) \<Rightarrow> agent_flags \<Rightarrow> int" where
  "agent_exit_code lib env fl =
     (case agent_main env fl of
        Inl _ \<Rightarrow> 1
      | Inr c \<Rightarrow> if sv_result (agent_StartServer lib env c) = None then 0 else 1)"

definition health_Watch :: go_error where
  "health_Watch = Status Code_Unimplemented ''method Watch not implemented''"

subsection \<open>Accepted configurations\<close>

text \<open>The names of the backends differ; comparing them is left to this lemma.\<close>

lemma backend_names_distinct:
  "distinct [BackendCuda, BackendNoop, BackendAppEndpoint, BackendAppChannel, BackendDirectMemory, BackendMemoryRegions, BackendTpu]"
  by code_simp

lemma agent_mainE:
  assumes "agent_main env fl = Inr c"
  obtains "ag_deploymentMode c = ''standalone'' \<or> ag_deploymentMode c = ''k8s''"
    "ag_defaultBackend c = env_or env ''DEFAULT_BACKEND'' (af_defaultBackend fl)" "ag_defaultBackend c \<in> set (ag_backends c)"
    "ag_backends c = registeredBackends (env ''ACCELERATOR_TYPE'')" "ag_tpuDiscovery c \<longleftrightarrow> env ''ACCELERATOR_TYPE'' = ''tpu''"
    "ag_tpuDiscovery c \<longrightarrow> ag_defaultBackend c \<noteq> BackendCuda \<and> ag_defaultBackend c \<noteq> BackendDirectMemory"
    "ag_residueMB c = residueMB env (af_vramResidueThresholdMB fl)"
proof -
  have "(ag_deploymentMode c = ''standalone'' \<or> ag_deploymentMode c = ''k8s'') \<and>
      ag_defaultBackend c = env_or env ''DEFAULT_BACKEND'' (af_defaultBackend fl) \<and> ag_defaultBackend c \<in> set (ag_backends c) \<and>
      ag_backends c = registeredBackends (env ''ACCELERATOR_TYPE'') \<and> (ag_tpuDiscovery c \<longleftrightarrow> env ''ACCELERATOR_TYPE'' = ''tpu'') \<and>
      (ag_tpuDiscovery c \<longrightarrow> ag_defaultBackend c \<noteq> BackendCuda \<and> ag_defaultBackend c \<noteq> BackendDirectMemory) \<and>
      ag_residueMB c = residueMB env (af_vramResidueThresholdMB fl)"
    using assms unfolding agent_main_def Let_def
    by (cases "listenPort env (af_port fl)"; cases "ParseGates (env_or env ''FEATURE_GATES'' (af_featureGates fl))")
      (simp_all split: if_splits, safe, simp_all)
  with that show thesis by blast
qed

lemma registered_lookup:
  "map_of (backendMap (agent_server_cfg mk c)) t = (if t \<in> set (ag_backends c) then Some (mk t) else None)"
  by (simp add: agent_server_cfg_def map_of_map_restrict[of mk, unfolded comp_def] restrict_map_def)

text \<open>C25:
  An agent that starts can serve what it is configured for. The default backend of an accepted
  configuration is registered, so that a request without a configuration and the health check of the agent
  find a backend; the threshold for residual memory is not negative; and exactly on a TPU node the TPU
  backend is registered and processes are found by TPU discovery. On any other node, a request that
  names the TPU backend is refused as not found, without any effect and without looking at processes.
\<close>

theorem accepted_configuration_is_served:
  assumes "agent_main env fl = Inr c" and "s = agent_server_cfg mk c"
  shows "(\<exists>be. map_of (backendMap s) (getSnapshotBackendType s None) = Some be) \<and>
    (\<exists>st w'. Check (backendMap s) (defaultBackend s) [] w = (Inr st, w')) \<and> 0 \<le> ag_residueMB c \<and>
    (BackendTpu \<in> set (ag_backends c) \<longleftrightarrow> env ''ACCELERATOR_TYPE'' = ''tpu'') \<and>
    (ag_tpuDiscovery c \<longleftrightarrow> env ''ACCELERATOR_TYPE'' = ''tpu'') \<and>
    (env ''ACCELERATOR_TYPE'' \<noteq> ''tpu'' \<longrightarrow>
       agent_Snapshot s pods i now (req\<lparr>ar_backend_config := Some (Tpu t)\<rparr>) srv =
         (Inl (Status Code_NotFound (errorf [''backend '', BackendTpu, '' not found''])), srv) \<and>
       agent_Restore s i now (req\<lparr>ar_backend_config := Some (Tpu t)\<rparr>) srv =
         (Inl (Status Code_NotFound (errorf [''backend '', BackendTpu, '' not found''])), srv))"
proof -
  note look = registered_lookup[of mk c, folded assms(2)]
  have def: "defaultBackend s = ag_defaultBackend c" by (simp add: assms(2) agent_server_cfg_def)
  from assms(1) show ?thesis
  proof (cases rule: agent_mainE)
    case 1
    have tpu: "BackendTpu \<in> set (ag_backends c) \<longleftrightarrow> env ''ACCELERATOR_TYPE'' = ''tpu''"
      using backend_names_distinct by (auto simp: 1(4) registeredBackends_def)
    have "getSnapshotBackendType s None = ag_defaultBackend c" by (simp add: getSnapshotBackendType_def def)
    moreover have "\<exists>st w'. Check (backendMap s) (defaultBackend s) [] w = (Inr st, w')"
      using 1(3) by (auto simp: Check_def look def split: prod.splits option.splits)
    moreover have "0 \<le> ag_residueMB c" by (simp add: 1(7) residueMB_def Let_def)
    moreover have "getSnapshotBackendType s (Some (Tpu t)) = BackendTpu" by (simp add: getSnapshotBackendType_def)
    ultimately show ?thesis
      using 1(3,5) tpu by (simp add: look agent_Snapshot_def agent_Restore_def checkFeatureGates_def)
  qed
qed

definition bare_env :: "string \<Rightarrow> string" where
  "bare_env name = []"

definition bare_config :: agent_config where
  "bare_config = \<lparr>ag_port = 9001, ag_deploymentMode = ''standalone'', ag_defaultBackend = BackendCuda, ag_featureGates = [],
     ag_backends = registeredBackends [], ag_tpuDiscovery = False, ag_sweepDir = None, ag_residueMB = 0\<rparr>"

lemma bare_start: "agent_main bare_env agent_flag_defaults = Inr bare_config"
  by code_simp

theorem accepted_configuration_is_served_witness:
  "agent_Restore (agent_server_cfg (\<lambda>_. NewNoopBackend) bare_config) ''op'' 5
      \<lparr>ar_job_id = ''j'', ar_group = ''g'', ar_backend_config = Some (Tpu None)\<rparr> (NewServer ()) =
    (Inl (Status Code_NotFound (errorf [''backend '', BackendTpu, '' not found''])), NewServer ())"
  using accepted_configuration_is_served[OF bare_start refl,
      where req = "\<lparr>ar_job_id = ''j'', ar_group = ''g'', ar_backend_config = None\<rparr>" and i = "''op''" and now = 5 and
      srv = "NewServer ()" and mk = "\<lambda>_. NewNoopBackend" and t = None]
  by (simp add: bare_env_def)

text \<open>
  Which default backends an agent starts with. With a valid port, mode and gates, the agent starts exactly
  with one of the six backends of every node, or, on a TPU node, one of those other than
  cuda and direct-memory, or tpu. So it starts with a GPU memory backend, memory-regions, as the
  default of a TPU node, and whether the feature gate of the default backend is on makes no difference.
\<close>

theorem accepted_default_backends:
  assumes "listenPort env (af_port fl) = Inr port"
    and "env_or env ''DEPLOYMENT_MODE'' (af_deploymentMode fl) \<in> {''standalone'', ''k8s''}"
    and "ParseGates (env_or env ''FEATURE_GATES'' (af_featureGates fl)) = Inr gates"
  shows "(\<exists>c. agent_main env fl = Inr c \<and> ag_featureGates c = gates) \<longleftrightarrow>
    env_or env ''DEFAULT_BACKEND'' (af_defaultBackend fl) \<in>
      (if env ''ACCELERATOR_TYPE'' = ''tpu''
       then {BackendNoop, BackendAppEndpoint, BackendAppChannel, BackendMemoryRegions, BackendTpu}
       else {BackendCuda, BackendNoop, BackendAppEndpoint, BackendAppChannel, BackendDirectMemory, BackendMemoryRegions})"
proof -
  let ?b = "env_or env ''DEFAULT_BACKEND'' (af_defaultBackend fl)" and ?tpu = "env ''ACCELERATOR_TYPE'' = ''tpu''"
  have "(\<exists>c. agent_main env fl = Inr c \<and> ag_featureGates c = gates) \<longleftrightarrow>
      ?b \<in> set (registeredBackends (env ''ACCELERATOR_TYPE'')) \<and> \<not> (?tpu \<and> (?b = BackendCuda \<or> ?b = BackendDirectMemory))"
    using assms unfolding agent_main_def Let_def by (elim insertE emptyE) simp_all
  then show ?thesis using backend_names_distinct by (auto simp: registeredBackends_def)
qed

text \<open>A TPU node whose default backend is memory-regions, with no feature gate on.\<close>

theorem accepted_default_backends_witness:
  "\<exists>c. agent_main (bare_env(''ACCELERATOR_TYPE'' := ''tpu'', ''DEFAULT_BACKEND'' := BackendMemoryRegions)) agent_flag_defaults = Inr c \<and>
     ag_featureGates c = []"
proof -
  let ?env = "bare_env(''ACCELERATOR_TYPE'' := ''tpu'', ''DEFAULT_BACKEND'' := BackendMemoryRegions)"
  have "listenPort ?env (af_port agent_flag_defaults) = Inr 9001"
    "env_or ?env ''DEPLOYMENT_MODE'' (af_deploymentMode agent_flag_defaults) \<in> {''standalone'', ''k8s''}"
    "ParseGates (env_or ?env ''FEATURE_GATES'' (af_featureGates agent_flag_defaults)) = Inr []"
    "env_or ?env ''DEFAULT_BACKEND'' (af_defaultBackend agent_flag_defaults) = BackendMemoryRegions"
    "?env ''ACCELERATOR_TYPE'' = ''tpu''"
    by code_simp+
  with accepted_default_backends[of ?env agent_flag_defaults 9001 "[]"] show ?thesis by simp
qed

text \<open>A sweep never happens after the context is done, and one happens at the start in any case.\<close>

lemma StartSweeper_first:
  "set (sweep parseDuration f env now dir) \<subseteq> set (StartSweeper parseDuration env dir (f, now) es)"
  by (auto simp: StartSweeper_def Let_def)

lemma sweeper_loop_stops: "sweeper_loop sw (es @ None # rest) = sweeper_loop sw es"
  by (induction sw es rule: sweeper_loop.induct) simp_all

text \<open>Nothing is served, and no job is watched, without a node name, a Kubernetes client and a socket, in either mode.\<close>

lemma agent_StartServer_serves_iff:
  "sv_serving (agent_StartServer lib env c) \<longleftrightarrow>
     al_Listen lib (ag_port c) = None \<and> al_GetK8sClient lib = None \<and> al_AddEventHandler lib = None \<and> env ''NODE_NAME'' \<noteq> []"
  by (auto simp: agent_StartServer_def NewWatcher_def split: option.splits sum.splits if_splits)

end
