(* ===== verification/App_Endpoint.thy ===== *)
theory App_Endpoint
  imports Backends Go_Path
begin

text \<open>
  The app-endpoint backend (\<^verbatim>\<open>backends/app_endpoint.go\<close>): it suspends and resumes inference
  servers over HTTP, in the dialect of the application. The requests sent are the log; what
  \<^verbatim>\<open>url.Parse\<close>, \<^verbatim>\<open>http.NewRequest\<close> and the servers answer is the record \<open>http_env\<close>.
\<close>

subsection \<open>Requests\<close>

text \<open>A URL: what comes before the path, the path, and the values of each query parameter.\<close>

record url =
  u_base :: string
  u_Path :: string
  u_Query :: "string \<Rightarrow> string list"

text \<open>No body, or a JSON object that has the member \<^verbatim>\<open>tags\<close> or is empty.\<close>

datatype body = NoBody | JsonBody "string list option"

record http_request =
  hq_URL :: url
  hq_Body :: body
  hq_ContentType :: string

record http_env =
  he_Parse :: "string \<Rightarrow> go_error + url"
  he_NewRequest :: "url \<Rightarrow> go_error option"
  he_Do :: "http_request list \<Rightarrow> http_request \<Rightarrow> go_error + int \<times> (go_error + string)"

text \<open>\<^verbatim>\<open>URL.JoinPath\<close> with one plain element: the path is cleaned, and stays relative when it was.\<close>

definition JoinPath :: "url \<Rightarrow> string \<Rightarrow> url" where
  "JoinPath u e =
     u\<lparr>u_Path := (if rooted (u_Path u) then path_Join [u_Path u, e] else tl (path_Join [slash # u_Path u, e]))\<rparr>"

definition appURL :: "http_env \<Rightarrow> string \<Rightarrow> string \<Rightarrow> go_error + url" where
  "appURL h endpoint opn =
     (case he_Parse h endpoint of
        Inl err \<Rightarrow> Inl (Wrap (errorf [''invalid endpoint '', endpoint]) err)
      | Inr u \<Rightarrow> Inr (JoinPath u opn))"

definition new_post :: "http_env \<Rightarrow> url \<Rightarrow> body \<Rightarrow> string \<Rightarrow> go_error + http_request" where
  "new_post h u b ct =
     (case he_NewRequest h u of
        Some err \<Rightarrow> Inl err
      | None \<Rightarrow> Inr \<lparr>hq_URL = u, hq_Body = b, hq_ContentType = ct\<rparr>)"

subsection \<open>Dialects\<close>

definition vllm_BuildSnapshotRequest :: "http_env \<Rightarrow> string \<Rightarrow> int \<Rightarrow> string list \<Rightarrow> go_error + http_request" where
  "vllm_BuildSnapshotRequest h endpoint mode tags =
     (case appURL h endpoint ''sleep'' of
        Inl err \<Rightarrow> Inl err
      | Inr u \<Rightarrow>
          let level = (if mode = SUSPEND_MODE_DISCARD then ''2'' else ''1'') in
          new_post h (u\<lparr>u_Query := (u_Query u)(''level'' := [level])\<rparr>) NoBody [])"

definition vllm_BuildRestoreRequest :: "http_env \<Rightarrow> string \<Rightarrow> string list \<Rightarrow> go_error + http_request" where
  "vllm_BuildRestoreRequest h endpoint tags =
     (case appURL h endpoint ''wake_up'' of
        Inl err \<Rightarrow> Inl err
      | Inr u \<Rightarrow>
          new_post h (if 0 < length tags then u\<lparr>u_Query := (u_Query u)(''tags'' := u_Query u ''tags'' @ tags)\<rparr> else u) NoBody [])"

definition buildSGLangRequest :: "http_env \<Rightarrow> string \<Rightarrow> string \<Rightarrow> string list \<Rightarrow> go_error + http_request" where
  "buildSGLangRequest h endpoint opn tags =
     (case appURL h endpoint opn of
        Inl err \<Rightarrow> Inl err
      | Inr u \<Rightarrow> new_post h u (JsonBody (if 0 < length tags then Some tags else None)) ''application/json'')"

record AppProfile =
  ap_Name :: string
  ap_BuildSnapshotRequest :: "string \<Rightarrow> int \<Rightarrow> string list \<Rightarrow> go_error + http_request"
  ap_BuildRestoreRequest :: "string \<Rightarrow> string list \<Rightarrow> go_error + http_request"

definition vllmProfile :: "http_env \<Rightarrow> AppProfile" where
  "vllmProfile h =
     \<lparr>ap_Name = ''vllm'', ap_BuildSnapshotRequest = vllm_BuildSnapshotRequest h, ap_BuildRestoreRequest = vllm_BuildRestoreRequest h\<rparr>"

definition sglangProfile :: "http_env \<Rightarrow> AppProfile" where
  "sglangProfile h =
     \<lparr>ap_Name = ''sglang'',
      ap_BuildSnapshotRequest = (\<lambda>endpoint mode tags. buildSGLangRequest h endpoint ''release_memory_occupation'' tags),
      ap_BuildRestoreRequest = (\<lambda>endpoint tags. buildSGLangRequest h endpoint ''resume_memory_occupation'' tags)\<rparr>"

definition appProfiles :: "http_env \<Rightarrow> int \<Rightarrow> AppProfile option" where
  "appProfiles h app =
     (if app = APP_VLLM then Some (vllmProfile h) else if app = APP_SGLANG then Some (sglangProfile h) else None)"

subsection \<open>The backend\<close>

definition GetAppEndpoint :: "BackendConfig option \<Rightarrow> AppEndpointConfig option" where
  "GetAppEndpoint config = (case config of Some (AppEndpoint cfg) \<Rightarrow> Some cfg | _ \<Rightarrow> None)"

definition resolve :: "http_env \<Rightarrow> BackendConfig option \<Rightarrow> go_error + AppProfile \<times> AppEndpointConfig" where
  "resolve h config =
     (case GetAppEndpoint config of
        None \<Rightarrow> Inl (Text (errorf [''app_endpoint config is required'']))
      | Some appCfg \<Rightarrow>
          (case appProfiles h (ae_app appCfg) of
             None \<Rightarrow> Inl (Text (errorf [''unknown or unspecified app '', Itoa (ae_app appCfg)]))
           | Some profile \<Rightarrow>
               if length (ae_endpoints appCfg) = 0
               then Inl (Text (errorf [''at least one endpoint is required for '', ap_Name profile]))
               else Inr (profile, appCfg)))"

definition doRequest :: "http_env \<Rightarrow> http_request \<Rightarrow> http_request list \<Rightarrow> go_error option \<times> http_request list" where
  "doRequest h req log =
     (case he_Do h log req of
        Inl err \<Rightarrow> (Some (Wrap (errorf [''HTTP request failed'']) err), log @ [req])
      | Inr (statusCode, respBody) \<Rightarrow>
          if statusCode < 200 \<or> statusCode \<ge> 300 then
            (case respBody of
               Inl readErr \<Rightarrow>
                 (Some (Wrap (errorf [''unexpected status '', Itoa statusCode, '' (failed to read body)'']) readErr), log @ [req])
             | Inr text \<Rightarrow> (Some (Text (errorf [''unexpected status '', Itoa statusCode, '': '', take 1024 text])), log @ [req]))
          else (None, log @ [req]))"

fun endpoint_loop ::
  "http_env \<Rightarrow> string \<Rightarrow> (string \<Rightarrow> go_error + http_request) \<Rightarrow> string list \<Rightarrow> http_request list \<Rightarrow> go_error option \<times> http_request list" where
  "endpoint_loop h what build [] log = (None, log)"
| "endpoint_loop h what build (ep # eps) log =
     (case build ep of
        Inl err \<Rightarrow> (Some (Wrap (errorf [''failed to build '', what, '' request for '', ep]) err), log)
      | Inr req \<Rightarrow>
          (case doRequest h req log of
             (Some err, log1) \<Rightarrow> (Some (Wrap (errorf [what, '' request to '', ep, '' failed'']) err), log1)
           | (None, log1) \<Rightarrow> endpoint_loop h what build eps log1))"

definition endpoint_Snapshot :: "http_env \<Rightarrow> Request \<Rightarrow> http_request list \<Rightarrow> go_error option \<times> http_request list" where
  "endpoint_Snapshot h req log =
     (case resolve h (rq_Config req) of
        Inl err \<Rightarrow> (Some err, log)
      | Inr (profile, appCfg) \<Rightarrow>
          endpoint_loop h ''snapshot'' (\<lambda>ep. ap_BuildSnapshotRequest profile ep (ae_mode appCfg) (ae_tags appCfg))
            (ae_endpoints appCfg) log)"

definition endpoint_Restore :: "http_env \<Rightarrow> Request \<Rightarrow> http_request list \<Rightarrow> go_error option \<times> http_request list" where
  "endpoint_Restore h req log =
     (case resolve h (rq_Config req) of
        Inl err \<Rightarrow> (Some err, log)
      | Inr (profile, appCfg) \<Rightarrow>
          endpoint_loop h ''restore'' (\<lambda>ep. ap_BuildRestoreRequest profile ep (ae_tags appCfg)) (ae_endpoints appCfg) log)"

definition NewAppEndpointBackend :: "http_env \<Rightarrow> http_request list Backend" where
  "NewAppEndpointBackend h =
     \<lparr>be_Snapshot = endpoint_Snapshot h, be_Restore = endpoint_Restore h, be_HealthCheck = (\<lambda>log. (None, log))\<rparr>"

subsection \<open>Properties\<close>

definition answered_ok :: "http_env \<Rightarrow> http_request list \<Rightarrow> http_request \<Rightarrow> bool" where
  "answered_ok h log req = (case he_Do h log req of Inl err \<Rightarrow> False | Inr (statusCode, b) \<Rightarrow> 200 \<le> statusCode \<and> statusCode < 300)"

text \<open>The requests of a log after a given point, each answered well before the next was sent.\<close>

fun all_answered :: "http_env \<Rightarrow> http_request list \<Rightarrow> http_request list \<Rightarrow> bool" where
  "all_answered h log [] = True"
| "all_answered h log (r # rs) \<longleftrightarrow> answered_ok h log r \<and> all_answered h (log @ [r]) rs"

lemma doRequest_outcome: "snd (doRequest h r log) = log @ [r]" "fst (doRequest h r log) = None \<longleftrightarrow> answered_ok h log r"
  by (simp_all add: doRequest_def answered_ok_def split: sum.split prod.split)

definition sent_in_order ::
  "http_env \<Rightarrow> (string \<Rightarrow> go_error + http_request) \<Rightarrow> string list \<Rightarrow> http_request list \<Rightarrow> http_request list \<Rightarrow> bool \<Rightarrow> bool" where
  "sent_in_order h build eps log sent ok \<longleftrightarrow>
     length sent \<le> length eps \<and> map Inr sent = map build (take (length sent) eps) \<and> all_answered h log (butlast sent) \<and>
     (ok \<longleftrightarrow> length sent = length eps \<and> all_answered h log sent)"

lemma sent_in_order_Cons:
  "build ep = Inr r \<Longrightarrow> answered_ok h log r \<Longrightarrow> sent_in_order h build eps (log @ [r]) sent ok \<Longrightarrow>
     sent_in_order h build (ep # eps) log (r # sent) ok"
  by (cases sent) (auto simp: sent_in_order_def)

lemma endpoint_loop_outcome:
  "endpoint_loop h what build eps log = (e, log') \<Longrightarrow> \<exists>sent. log' = log @ sent \<and> sent_in_order h build eps log sent (e = None)"
proof (induction eps arbitrary: log)
  case Nil
  then show ?case by (simp add: sent_in_order_def)
next
  case (Cons ep eps)
  show ?case
  proof (cases "build ep")
    case (Inl err)
    then have "e \<noteq> None" "log' = log @ []" using Cons.prems by auto
    then show ?thesis by (auto simp: sent_in_order_def)
  next
    case (Inr r)
    have d: "doRequest h r log = (fst (doRequest h r log), log @ [r])" using doRequest_outcome(1) by (metis prod.collapse)
    show ?thesis
    proof (cases "fst (doRequest h r log)")
      case (Some err)
      then have "e \<noteq> None" "log' = log @ [r]" using Cons.prems Inr d by (auto split: prod.splits)
      moreover have "\<not> answered_ok h log r" using Some doRequest_outcome(2)[of h r log] by simp
      ultimately show ?thesis using Inr by (auto simp: sent_in_order_def)
    next
      case None
      then have "doRequest h r log = (None, log @ [r])" using d by simp
      then have "endpoint_loop h what build eps (log @ [r]) = (e, log')" using Cons.prems Inr by simp
      from Cons.IH[OF this] obtain sent where "log' = (log @ [r]) @ sent" "sent_in_order h build eps (log @ [r]) sent (e = None)" by blast
      moreover have "answered_ok h log r" using None doRequest_outcome(2)[of h r log] by simp
      ultimately show ?thesis using sent_in_order_Cons[of build ep r h log eps sent] Inr by auto
    qed
  qed
qed

text \<open>
  A snapshot through application endpoints sends the requests of the endpoints in their order, one
  to each, the next only after the previous one was answered with a success status. It reports success
  exactly when every endpoint got its request and answered so; otherwise a request could not be built
  or the last one sent failed, and no endpoint after it was contacted.
\<close>

theorem endpoints_suspended_in_order:
  assumes "resolve h (rq_Config req) = Inr (profile, cfg)" and "endpoint_Snapshot h req log = (e, log')"
  shows "\<exists>sent. log' = log @ sent \<and> length sent \<le> length (ae_endpoints cfg) \<and>
    map Inr sent = map (\<lambda>ep. ap_BuildSnapshotRequest profile ep (ae_mode cfg) (ae_tags cfg)) (take (length sent) (ae_endpoints cfg)) \<and>
    all_answered h log (butlast sent) \<and>
    (e = None \<longleftrightarrow> length sent = length (ae_endpoints cfg) \<and> all_answered h log sent)"
proof -
  have "endpoint_loop h ''snapshot'' (\<lambda>ep. ap_BuildSnapshotRequest profile ep (ae_mode cfg) (ae_tags cfg)) (ae_endpoints cfg) log = (e, log')"
    using assms by (simp add: endpoint_Snapshot_def)
  then show ?thesis unfolding sent_in_order_def[symmetric] by (rule endpoint_loop_outcome)
qed

definition demo_http :: http_env where
  "demo_http =
     \<lparr>he_Parse = (\<lambda>s. Inr \<lparr>u_base = s, u_Path = [], u_Query = (\<lambda>_. [])\<rparr>), he_NewRequest = (\<lambda>u. None),
      he_Do = (\<lambda>log r. Inr (if log = [] then 200 else 503, Inr ''x''))\<rparr>"

definition demo_endpoints :: AppEndpointConfig where
  "demo_endpoints = \<lparr>ae_app = APP_SGLANG, ae_endpoints = [''a'', ''b'', ''c''], ae_mode = 0, ae_tags = []\<rparr>"

definition demo_suspend :: Request where
  "demo_suspend = \<lparr>rq_JobID = ''j'', rq_Config = Some (AppEndpoint demo_endpoints)\<rparr>"

lemma demo_resolves: "resolve demo_http (rq_Config demo_suspend) = Inr (sglangProfile demo_http, demo_endpoints)"
  by (simp add: resolve_def GetAppEndpoint_def demo_suspend_def demo_endpoints_def appProfiles_def APP_VLLM_def APP_SGLANG_def)

lemma demo_http_answers:
  "he_Parse demo_http ep = Inr \<lparr>u_base = ep, u_Path = [], u_Query = (\<lambda>_. [])\<rparr>" "he_NewRequest demo_http u = None"
  "he_Do demo_http log r = Inr (if log = [] then 200 else 503, Inr ''x'')"
  by (simp_all add: demo_http_def)

text \<open>The second of three servers refuses: two requests are sent and the call fails.\<close>

lemma demo_suspend_fails:
  "fst (endpoint_Snapshot demo_http demo_suspend []) \<noteq> None \<and> length (snd (endpoint_Snapshot demo_http demo_suspend [])) = 2"
  by (simp add: endpoint_Snapshot_def demo_resolves sglangProfile_def buildSGLangRequest_def appURL_def new_post_def doRequest_def
      demo_http_answers demo_endpoints_def)

theorem endpoints_suspended_in_order_witness:
  "\<exists>sent. snd (endpoint_Snapshot demo_http demo_suspend []) = [] @ sent \<and> length sent = 2 \<and> all_answered demo_http [] (butlast sent) \<and>
     \<not> (length sent = length (ae_endpoints demo_endpoints) \<and> all_answered demo_http [] sent)"
proof -
  obtain sent where "snd (endpoint_Snapshot demo_http demo_suspend []) = [] @ sent" "all_answered demo_http [] (butlast sent)"
      "fst (endpoint_Snapshot demo_http demo_suspend []) = None \<longleftrightarrow>
        length sent = length (ae_endpoints demo_endpoints) \<and> all_answered demo_http [] sent"
    using endpoints_suspended_in_order[OF demo_resolves surjective_pairing[of "endpoint_Snapshot demo_http demo_suspend []"]]
    by (elim exE conjE) (rule that)
  moreover have "length sent = 2" using demo_suspend_fails calculation(1) by simp
  ultimately show ?thesis using demo_suspend_fails by (intro exI[of _ sent] conjI) (simp_all only: simp_thms)
qed

end
