(* ===== verification/Memory_Regions.thy ===== *)
theory Memory_Regions
  imports Backends Gpu_Cr
begin

text \<open>
  The memory-regions backend (\<^verbatim>\<open>backends/memory_regions.go\<close>): it saves regions of device
  memory of running processes to files of a store and loads them back, through the program
  \<^verbatim>\<open>cr_client\<close>. A dump lies at \<^verbatim>\<open><store>/<slot>/<pid>-<starttime>/<id>\<close>; the
  sweeper of \<^verbatim>\<open>gpucr\<close> reads the owners of a slot off these directory names.

  What the backend does to the node is a log; what the node answers is the record \<open>mr_host\<close> and may
  depend on the log so far. The mutexes of the backend and of the store make each call one step.
\<close>

subsection \<open>The node\<close>

datatype mr_action = CrClient "string list" | MkdirAll string | Chtimes string

record mr_host =
  mh_exec :: "mr_action list \<Rightarrow> int \<Rightarrow> string list \<Rightarrow> string \<times> go_error option"
  mh_Stat :: "mr_action list \<Rightarrow> string \<Rightarrow> go_error option"
  mh_MkdirAll :: "mr_action list \<Rightarrow> string \<Rightarrow> go_error option"
  mh_ReadFile :: "mr_action list \<Rightarrow> string \<Rightarrow> go_error + string"
  mh_starttime :: "mr_action list \<Rightarrow> string \<Rightarrow> go_error + int"
  mh_env :: "string \<Rightarrow> string"

definition mkdir :: "mr_host \<Rightarrow> string \<Rightarrow> mr_action list \<Rightarrow> go_error option \<times> mr_action list" where
  "mkdir h dir log = (mh_MkdirAll h log dir, log @ [MkdirAll dir])"

subsection \<open>Paths\<close>

definition ctlFilesDir :: "(string \<Rightarrow> string) \<Rightarrow> string" where
  "ctlFilesDir env = (if env ''GPU_CR_CTL_PATH'' \<noteq> [] then env ''GPU_CR_CTL_PATH'' else DataDir env)"

definition groupDir :: "(string \<Rightarrow> string) \<Rightarrow> string \<Rightarrow> go_error + string" where
  "groupDir env slot =
     (let store = GroupStoreDir env; dir = path_Join [store, Clean slot] in
      case Rel store dir of
        None \<Rightarrow> Inl (Text (errorf [''invalid snapshot slot (path traversal or nested path): '', slot]))
      | Some rel \<Rightarrow>
          if rel = ''.'' \<or> HasPrefix rel ''..'' \<or> slash \<in> set rel
          then Inl (Text (errorf [''invalid snapshot slot (path traversal or nested path): '', slot]))
          else Inr dir)"

definition owner_name :: "string \<Rightarrow> int \<Rightarrow> string" where
  "owner_name pid st = pid @ CHR ''-'' # Itoa st"

definition ownerDir :: "mr_host \<Rightarrow> mr_action list \<Rightarrow> string \<Rightarrow> string \<Rightarrow> go_error + string" where
  "ownerDir h log slotDir pid =
     (case mh_starttime h log pid of
        Inl err \<Rightarrow> Inl (Wrap (errorf [''starttime of owner pid '', pid]) err)
      | Inr st \<Rightarrow> Inr (path_Join [slotDir, owner_name pid st]))"

definition touchGroup :: "string \<Rightarrow> mr_action list \<Rightarrow> mr_action list" where
  "touchGroup dir log = log @ [Chtimes dir]"

subsection \<open>Regions\<close>

definition region_spec :: "MemoryRegion \<Rightarrow> string" where
  "region_spec r = ''0x'' @ hex_digits (mr_address r) @ CHR '':'' # nat_digits (mr_size_bytes r)"

text \<open>The map from a process to its specs; a process without an entry reads as the empty list.\<close>

fun specs_loop :: "MemoryRegion list \<Rightarrow> (int \<times> nat) list \<Rightarrow> (int \<Rightarrow> string list) \<Rightarrow> go_error + (int \<Rightarrow> string list)" where
  "specs_loop [] seen specs = Inr specs"
| "specs_loop (r # rs) seen specs =
     (if mr_pid r \<le> 0 then Inl (Text (errorf [''memory region pid must be positive, got '', Itoa (mr_pid r)]))
      else if mr_size_bytes r = 0
      then Inl (Text (errorf [''memory region size_bytes must be positive (pid '', Itoa (mr_pid r), '', address 0x'',
                              hex_digits (mr_address r), '')'']))
      else if (mr_pid r, mr_address r) \<in> set seen
      then Inl (Text (errorf [''duplicate memory region for pid '', Itoa (mr_pid r), '' at address 0x'', hex_digits (mr_address r)]))
      else specs_loop rs ((mr_pid r, mr_address r) # seen)
             (specs(mr_pid r := specs (mr_pid r) @ [region_spec r])))"

definition regionSpecs :: "MemoryRegionsBackendConfig \<Rightarrow> go_error + (int \<Rightarrow> string list)" where
  "regionSpecs cfg =
     (if length (mr_regions cfg) = 0 then Inl (Text (errorf [''at least one memory region is required'']))
      else specs_loop (mr_regions cfg) [] (\<lambda>_. []))"

fun pids_loop :: "MemoryRegion list \<Rightarrow> int list \<Rightarrow> int list \<Rightarrow> int list" where
  "pids_loop [] seen pids = pids"
| "pids_loop (r # rs) seen pids =
     (if mr_pid r \<notin> set seen then pids_loop rs (mr_pid r # seen) (pids @ [mr_pid r]) else pids_loop rs seen pids)"

definition regionPIDs :: "MemoryRegionsBackendConfig \<Rightarrow> int list" where
  "regionPIDs cfg = pids_loop (mr_regions cfg) [] []"

definition snapshotSlot :: "(string \<Rightarrow> string) \<Rightarrow> MemoryRegionsBackendConfig \<Rightarrow> string \<Rightarrow> go_error + string" where
  "snapshotSlot env cfg jobID =
     (let slot = (if mr_snapshot_name cfg = [] then jobID else mr_snapshot_name cfg) in
      if slot = [] then Inl (Text (errorf [''snapshot slot is empty: set snapshot_name or job_id'']))
      else (case groupDir env slot of Inl err \<Rightarrow> Inl err | Inr dir \<Rightarrow> Inr slot))"

subsection \<open>Commands\<close>

text \<open>The product of a duration in 64 bits wraps around.\<close>

definition opTimeout :: "(string \<Rightarrow> string) \<Rightarrow> int" where
  "opTimeout env =
     (let v = env ''GPU_CR_OP_TIMEOUT_SEC'' in
      if v \<noteq> [] then
        (case Atoi v of
           Inr n \<Rightarrow> if 0 < n then signed_take_bit 63 (n * 1000000000) else 120 * 1000000000
         | Inl err \<Rightarrow> 120 * 1000000000)
      else 120 * 1000000000)"

text \<open>Every command runs under the deadline \<open>opTimeout\<close>.\<close>

definition mr_runCommand :: "mr_host \<Rightarrow> string list \<Rightarrow> mr_action list \<Rightarrow> go_error option \<times> mr_action list" where
  "mr_runCommand h args log =
     (case mh_exec h log (opTimeout (mh_env h)) args of
        (out, Some err) \<Rightarrow> (Some (Wrap (errorf [''command failed, output: '', out]) err), log @ [CrClient args])
      | (out, None) \<Rightarrow> (None, log @ [CrClient args]))"

definition checkpointRegions :: "mr_host \<Rightarrow> int \<Rightarrow> string \<Rightarrow> string \<Rightarrow> mr_action list \<Rightarrow> go_error option \<times> mr_action list" where
  "checkpointRegions h pid spec dest log =
     (case mr_runCommand h [''-c'', ''-p'', Itoa pid, ''-s'', spec, ''-o'', dest] log of
        (Some err, log1) \<Rightarrow> (Some (Wrap (errorf [''cr_client checkpoint'']) err), log1)
      | (None, log1) \<Rightarrow> (None, log1))"

definition restoreRegions :: "mr_host \<Rightarrow> int \<Rightarrow> string \<Rightarrow> string \<Rightarrow> mr_action list \<Rightarrow> go_error option \<times> mr_action list" where
  "restoreRegions h pid spec dest log =
     (case mr_runCommand h [''-r'', ''-p'', Itoa pid, ''-s'', spec, ''-o'', dest] log of
        (Some err, log1) \<Rightarrow> (Some (Wrap (errorf [''cr_client restore'']) err), log1)
      | (None, log1) \<Rightarrow> (None, log1))"

definition isAllDigits :: "string \<Rightarrow> bool" where
  "isAllDigits s \<longleftrightarrow> s \<noteq> [] \<and> list_all is_digit s"

definition TrimRight0 :: "string \<Rightarrow> string" where
  "TrimRight0 s = rev (dropWhile (\<lambda>c. c = char_of (0 :: nat)) (rev s))"

fun maps_id :: "string list \<Rightarrow> string option" where
  "maps_id [] = None"
| "maps_id (line # rest) =
     (let path = dropWhile (\<lambda>c. c \<noteq> slash) line in
      if path = [] then maps_id rest
      else if \<not> Contains path ''huge-ckpt/'' then maps_id rest
      else if isAllDigits (Base path) then Some (Base path)
      else maps_id rest)"

definition idFromProcMaps :: "mr_host \<Rightarrow> mr_action list \<Rightarrow> string \<Rightarrow> go_error + string" where
  "idFromProcMaps h log pid =
     (case mh_ReadFile h log (path_Join [''/proc'', pid, ''maps'']) of
        Inl err \<Rightarrow> Inl err
      | Inr data \<Rightarrow>
          (case maps_id (Split (char_of (10 :: nat)) data) of
             Some i \<Rightarrow> Inr i
           | None \<Rightarrow> Inl (Text (errorf [''no huge-ckpt/<id> mapping found in /proc/'', pid, ''/maps'']))))"

definition resolvePidToID :: "mr_host \<Rightarrow> mr_action list \<Rightarrow> string \<Rightarrow> go_error + string" where
  "resolvePidToID h log pid =
     (let mapPath = path_Join [ctlFilesDir (mh_env h), ''pid_map_'' @ pid];
          read = mh_ReadFile h log mapPath;
          mapped = (case read of Inl err \<Rightarrow> None | Inr data \<Rightarrow>
                      let i = TrimSpace (TrimRight0 data) in if isAllDigits i then Some i else None) in
      case mapped of
        Some i \<Rightarrow> Inr i
      | None \<Rightarrow>
          (case idFromProcMaps h log pid of
             Inl ferr \<Rightarrow>
               Inl (Wrap (errorf [''pid map for '', pid, '' unusable ('',
                                  (case read of Inl err \<Rightarrow> ''read error'' | Inr data \<Rightarrow> ''contents are not a numeric id''),
                                  '') and /proc fallback failed'']) ferr)
           | Inr i \<Rightarrow> Inr i))"

definition ensureIDForPid :: "mr_host \<Rightarrow> string \<Rightarrow> mr_action list \<Rightarrow> (go_error + string) \<times> mr_action list" where
  "ensureIDForPid h pid log =
     (case resolvePidToID h log pid of
        Inr i \<Rightarrow> (Inr i, log)
      | Inl err \<Rightarrow>
          (case mr_runCommand h [''-i'', ''-p'', pid] log of
             (Some ierr, log1) \<Rightarrow> (Inl (Wrap (errorf [''preloader init failed'']) ierr), log1)
           | (None, log1) \<Rightarrow> (resolvePidToID h log1 pid, log1)))"

subsection \<open>Snapshot and restore\<close>

fun snapshot_loop ::
  "mr_host \<Rightarrow> (int \<Rightarrow> string list) \<Rightarrow> string \<Rightarrow> int list \<Rightarrow> mr_action list \<Rightarrow> go_error option \<times> mr_action list" where
  "snapshot_loop h specs targetDir [] log = (None, log)"
| "snapshot_loop h specs targetDir (pid # pids) log =
     (case ensureIDForPid h (Itoa pid) log of
        (Inl err, log1) \<Rightarrow> (Some (Wrap (errorf [''failed to resolve PID '', Itoa pid, '' to ID'']) err), log1)
      | (Inr i, log1) \<Rightarrow>
          (case ownerDir h log1 targetDir (Itoa pid) of
             Inl err \<Rightarrow> (Some err, log1)
           | Inr ownDir \<Rightarrow>
               (case mkdir h ownDir log1 of
                  (Some err, log2) \<Rightarrow> (Some (Wrap (errorf [''failed to create owner dir '', ownDir]) err), log2)
                | (None, log2) \<Rightarrow>
                    (case checkpointRegions h pid (strings_join '','' (specs pid)) (path_Join [ownDir, i]) log2 of
                       (Some err, log3) \<Rightarrow>
                         (Some (Wrap (errorf [''cr_client checkpoint failed for PID '', Itoa pid, '' with specs '',
                                              strings_join '','' (specs pid)]) err), log3)
                     | (None, log3) \<Rightarrow> snapshot_loop h specs targetDir pids log3))))"

fun restore_loop ::
  "mr_host \<Rightarrow> (int \<Rightarrow> string list) \<Rightarrow> string \<Rightarrow> string \<Rightarrow> int list \<Rightarrow> mr_action list \<Rightarrow> go_error option \<times> mr_action list" where
  "restore_loop h specs slot targetDir [] log = (None, log)"
| "restore_loop h specs slot targetDir (pid # pids) log =
     (case ensureIDForPid h (Itoa pid) log of
        (Inl err, log1) \<Rightarrow> (Some (Wrap (errorf [''failed to resolve PID '', Itoa pid, '' to ID'']) err), log1)
      | (Inr i, log1) \<Rightarrow>
          (case ownerDir h log1 targetDir (Itoa pid) of
             Inl err \<Rightarrow> (Some err, log1)
           | Inr ownDir \<Rightarrow>
               (case mh_Stat h log1 (path_Join [ownDir, i]) of
                  Some err \<Rightarrow>
                    (Some (Wrap (errorf [''slot '', slot, '' holds no parked state for PID '', Itoa pid, '' (owner dir '',
                                         Base ownDir, '')'']) err), log1)
                | None \<Rightarrow>
                    (case restoreRegions h pid (strings_join '','' (specs pid)) (path_Join [ownDir, i]) log1 of
                       (Some err, log2) \<Rightarrow>
                         (Some (Wrap (errorf [''cr_client restore failed for PID '', Itoa pid, '' with specs '',
                                              strings_join '','' (specs pid)]) err), log2)
                     | (None, log2) \<Rightarrow> restore_loop h specs slot targetDir pids log2))))"

text \<open>\<^verbatim>\<open>GetMemoryRegions\<close>: the configuration, when it is one of this backend.\<close>

definition GetMemoryRegions :: "BackendConfig option \<Rightarrow> MemoryRegionsBackendConfig option" where
  "GetMemoryRegions config = (case config of Some (MemoryRegions cfg) \<Rightarrow> Some cfg | _ \<Rightarrow> None)"

definition mr_Snapshot :: "mr_host \<Rightarrow> Request \<Rightarrow> mr_action list \<Rightarrow> go_error option \<times> mr_action list" where
  "mr_Snapshot h req log =
     (case GetMemoryRegions (rq_Config req) of
        None \<Rightarrow> (Some (Text (errorf [''memory-regions backend requires BackendConfig.memory_regions''])), log)
      | Some cfg \<Rightarrow>
          (case regionSpecs cfg of
             Inl err \<Rightarrow> (Some err, log)
           | Inr specs \<Rightarrow>
               (case snapshotSlot (mh_env h) cfg (rq_JobID req) of
                  Inl err \<Rightarrow> (Some err, log)
                | Inr slot \<Rightarrow>
                    (case groupDir (mh_env h) slot of
                       Inl err \<Rightarrow> (Some err, log)
                     | Inr targetDir \<Rightarrow>
                         (case mkdir h targetDir log of
                            (Some err, log1) \<Rightarrow> (Some (Wrap (errorf [''failed to create slot dir '', targetDir]) err), log1)
                          | (None, log1) \<Rightarrow>
                              (case snapshot_loop h specs targetDir (regionPIDs cfg) log1 of
                                 (Some err, log2) \<Rightarrow> (Some err, log2)
                               | (None, log2) \<Rightarrow> (None, touchGroup targetDir log2)))))))"

definition mr_Restore :: "mr_host \<Rightarrow> Request \<Rightarrow> mr_action list \<Rightarrow> go_error option \<times> mr_action list" where
  "mr_Restore h req log =
     (case GetMemoryRegions (rq_Config req) of
        None \<Rightarrow> (Some (Text (errorf [''memory-regions backend requires BackendConfig.memory_regions''])), log)
      | Some cfg \<Rightarrow>
          (case regionSpecs cfg of
             Inl err \<Rightarrow> (Some err, log)
           | Inr specs \<Rightarrow>
               (case snapshotSlot (mh_env h) cfg (rq_JobID req) of
                  Inl err \<Rightarrow> (Some err, log)
                | Inr slot \<Rightarrow>
                    (case groupDir (mh_env h) slot of
                       Inl err \<Rightarrow> (Some err, log)
                     | Inr targetDir \<Rightarrow>
                         (case mh_Stat h log targetDir of
                            Some err \<Rightarrow>
                              (Some (Wrap (errorf [''snapshot slot '', slot, '' not found in group store '',
                                                   GroupStoreDir (mh_env h)]) err), log)
                          | None \<Rightarrow>
                              (case restore_loop h specs slot targetDir (regionPIDs cfg) log of
                                 (Some err, log1) \<Rightarrow> (Some err, log1)
                               | (None, log1) \<Rightarrow> (None, touchGroup targetDir log1)))))))"

definition mr_HealthCheck :: "mr_host \<Rightarrow> mr_action list \<Rightarrow> go_error option" where
  "mr_HealthCheck h log =
     (case mh_Stat h log crClientPath of
        Some err \<Rightarrow> Some (Wrap (errorf [''cr_client not found at '', crClientPath]) err)
      | None \<Rightarrow> None)"

definition NewMemoryRegions :: "mr_host \<Rightarrow> mr_action list Backend" where
  "NewMemoryRegions h =
     \<lparr>be_Snapshot = mr_Snapshot h, be_Restore = mr_Restore h, be_HealthCheck = (\<lambda>log. (mr_HealthCheck h log, log))\<rparr>"

subsection \<open>Slots\<close>

lemma Clean_not_Nil: "Clean p \<noteq> []"
  using strings_join_not_Nil[OF elems_kept[of p]] by (simp add: Clean_def)

lemma GroupStoreDir_not_Nil: "GroupStoreDir env \<noteq> []"
  by (simp add: GroupStoreDir_def DataDir_def path_Join_def Clean_not_Nil)

lemma Clean_plain: "plain_elem n \<Longrightarrow> Clean n = n"
proof -
  assume n: "plain_elem n"
  then have r: "\<not> rooted n" by (auto simp: plain_elem_def rooted_def split: list.splits)
  have "elems n = [n]" using n by (simp add: elems_def Split_no_sep clean_elems_plain plain_elem_def)
  with r show ?thesis by (simp add: Clean_def)
qed

lemma groupDir_child:
  "groupDir env slot = Inr dir \<Longrightarrow> \<exists>n. plain_elem n \<and> dir = path_Join [GroupStoreDir env, n]"
  using Rel_single[OF GroupStoreDir_not_Nil, of env "Clean slot"]
  by (auto simp: groupDir_def Let_def split: option.splits if_splits)

lemma groupDir_plain:
  "plain_elem n \<Longrightarrow> \<not> HasPrefix n ''..'' \<Longrightarrow> groupDir env n = Inr (path_Join [GroupStoreDir env, n])"
  using Rel_child[OF GroupStoreDir_not_Nil, of n env]
  by (simp add: groupDir_def Clean_plain Let_def plain_elem_def)

text \<open>C13:
  A slot name that is accepted, whatever dots and slashes it has, names a direct child of the
  store, so that no snapshot is written outside of the store or deeper than the sweeper looks; and
  every plain name that does not begin with two dots is accepted as it stands.
\<close>

theorem slot_is_a_child_of_the_store:
  "(groupDir env slot = Inr dir \<longrightarrow> (\<exists>n. plain_elem n \<and> dir = path_Join [GroupStoreDir env, n])) \<and>
   (plain_elem slot \<and> \<not> HasPrefix slot ''..'' \<longrightarrow> groupDir env slot = Inr (path_Join [GroupStoreDir env, slot]))"
  using groupDir_child groupDir_plain by blast

theorem slot_is_a_child_of_the_store_witness:
  "groupDir (\<lambda>_. []) ''a/../job-1/.'' = Inr ''/mnt/huge-ckpt/groups/job-1'' \<and>
   (\<exists>n. plain_elem n \<and> ''/mnt/huge-ckpt/groups/job-1'' = path_Join [GroupStoreDir (\<lambda>_. []), n]) \<and>
   groupDir (\<lambda>_. []) ''job-1'' = Inr (path_Join [GroupStoreDir (\<lambda>_. []), ''job-1''])"
proof -
  have "groupDir (\<lambda>_. []) ''a/../job-1/.'' = Inr ''/mnt/huge-ckpt/groups/job-1''" by code_simp
  moreover have "plain_elem ''job-1'' \<and> \<not> HasPrefix ''job-1'' ''..''" by (simp add: plain_elem_def HasPrefix_def)
  ultimately show ?thesis
    using slot_is_a_child_of_the_store[of "\<lambda>_. []" "''a/../job-1/.''" "''/mnt/huge-ckpt/groups/job-1''"]
      slot_is_a_child_of_the_store[of "\<lambda>_. []" "''job-1''"] by blast
qed

subsection \<open>Regions\<close>

lemma specs_loop_exact:
  "specs_loop rs seen specs = Inr specs' \<longleftrightarrow>
     list_all (\<lambda>r. 0 < mr_pid r \<and> 0 < mr_size_bytes r) rs \<and> distinct (map (\<lambda>r. (mr_pid r, mr_address r)) rs) \<and>
     set (map (\<lambda>r. (mr_pid r, mr_address r)) rs) \<inter> set seen = {} \<and>
     specs' = (\<lambda>p. specs p @ map region_spec (filter (\<lambda>r. mr_pid r = p) rs))"
proof (induction rs seen specs rule: specs_loop.induct)
  case (2 r rs seen specs)
  show ?case
  proof (cases "mr_pid r \<le> 0 \<or> mr_size_bytes r = 0 \<or> (mr_pid r, mr_address r) \<in> set seen")
    case True
    then show ?thesis by auto
  next
    case False
    have step: "specs_loop (r # rs) seen specs =
        specs_loop rs ((mr_pid r, mr_address r) # seen) (specs(mr_pid r := specs (mr_pid r) @ [region_spec r]))"
      using False by (simp only: specs_loop.simps if_False de_Morgan_disj)
    have eq: "(\<lambda>p. (specs(mr_pid r := specs (mr_pid r) @ [region_spec r])) p @ map region_spec (filter (\<lambda>x. mr_pid x = p) rs)) =
        (\<lambda>p. specs p @ map region_spec (filter (\<lambda>x. mr_pid x = p) (r # rs)))" by (rule ext) simp
    have IH: "specs_loop rs ((mr_pid r, mr_address r) # seen) (specs(mr_pid r := specs (mr_pid r) @ [region_spec r])) = Inr specs' \<longleftrightarrow>
        list_all (\<lambda>r. 0 < mr_pid r \<and> 0 < mr_size_bytes r) rs \<and> distinct (map (\<lambda>r. (mr_pid r, mr_address r)) rs) \<and>
        set (map (\<lambda>r. (mr_pid r, mr_address r)) rs) \<inter> set ((mr_pid r, mr_address r) # seen) = {} \<and>
        specs' = (\<lambda>p. specs p @ map region_spec (filter (\<lambda>x. mr_pid x = p) (r # rs)))"
      using 2 False unfolding eq by (simp only: de_Morgan_disj not_False_eq_True simp_thms)
    show ?thesis
      unfolding step IH using False by (simp only: list.map list.set distinct.simps list.pred_inject(2) not_le neq0_conv) auto
  qed
qed auto

lemma pids_loop_props:
  "set seen = set pids \<Longrightarrow> distinct pids \<Longrightarrow>
     set (pids_loop rs seen pids) = set pids \<union> mr_pid ` set rs \<and> distinct (pids_loop rs seen pids)"
proof (induction rs seen pids rule: pids_loop.induct)
  case (2 r rs seen pids)
  show ?case
  proof (cases "mr_pid r \<in> set seen")
    case True
    then show ?thesis using 2 by auto
  next
    case False
    then show ?thesis using 2(1)[OF False] 2(3,4) by auto
  qed
qed simp

lemma regionPIDs_props: "set (regionPIDs cfg) = mr_pid ` set (mr_regions cfg)" "distinct (regionPIDs cfg)"
  using pids_loop_props[of "[]" "[]" "mr_regions cfg"] by (simp_all add: regionPIDs_def)

text \<open>
  The regions of a request pass validation exactly when there is at least one, every process number
  and every size is positive and no two regions of a process start at the same address; then the
  backend runs one command for every process named, each once, with the regions of that process
  and no others, in the order of the request.
\<close>

theorem region_specs_exact:
  "(regionSpecs cfg = Inr specs \<longleftrightarrow>
     mr_regions cfg \<noteq> [] \<and> list_all (\<lambda>r. 0 < mr_pid r \<and> 0 < mr_size_bytes r) (mr_regions cfg) \<and>
     distinct (map (\<lambda>r. (mr_pid r, mr_address r)) (mr_regions cfg)) \<and>
     specs = (\<lambda>p. map region_spec (filter (\<lambda>r. mr_pid r = p) (mr_regions cfg)))) \<and>
   set (regionPIDs cfg) = mr_pid ` set (mr_regions cfg) \<and> distinct (regionPIDs cfg)"
  using specs_loop_exact[of "mr_regions cfg" "[]" "\<lambda>_. []" specs] regionPIDs_props[of cfg]
  by (simp add: regionSpecs_def)

subsection \<open>Transfers\<close>

text \<open>The transfers of a log, \<^verbatim>\<open>-c\<close> to or \<^verbatim>\<open>-r\<close> from a file: process, regions and file.\<close>

definition transfer :: "string \<Rightarrow> mr_action \<Rightarrow> (string \<times> string \<times> string) option" where
  "transfer flag a =
     (case a of
        CrClient [f, _, pid, _, spec, _, dest] \<Rightarrow> if f = flag then Some (pid, spec, dest) else None
      | _ \<Rightarrow> None)"

definition transfers :: "string \<Rightarrow> mr_action list \<Rightarrow> (string \<times> string \<times> string) list" where
  "transfers flag log = List.map_filter (transfer flag) log"

definition dump_path :: "string \<Rightarrow> string \<Rightarrow> int \<Rightarrow> string \<Rightarrow> string" where
  "dump_path dir pid st i = path_Join [path_Join [dir, owner_name pid st], i]"

lemma transfers_append [simp]: "transfers flag (a @ b) = transfers flag a @ transfers flag b"
  by (simp add: transfers_def map_filter_def)

lemma transfers_single [simp]:
  "transfers flag [] = []"
  "transfers flag [MkdirAll d] = []"
  "transfers flag [Chtimes d] = []"
  "transfers flag [CrClient [a, b, c]] = []"
  "transfers flag [CrClient [f, a, pid, b, spec, c, dest]] = (if f = flag then [(pid, spec, dest)] else [])"
  by (simp_all add: transfers_def transfer_def List.map_filter_simps)

lemma transfers_two [simp]: "transfers flag [a, b] = transfers flag [a] @ transfers flag [b]"
  using transfers_append[of flag "[a]" "[b]"] by simp

text \<open>What every call of the loops does to the log.\<close>

lemma mr_runCommand_log: "mr_runCommand h args log = (e, log') \<Longrightarrow> log' = log @ [CrClient args]"
  by (auto simp: mr_runCommand_def split: prod.splits option.splits)

lemma checkpointRegions_log:
  "checkpointRegions h pid spec dest log = (e, log') \<Longrightarrow> log' = log @ [CrClient [''-c'', ''-p'', Itoa pid, ''-s'', spec, ''-o'', dest]]"
  by (auto simp: checkpointRegions_def dest: mr_runCommand_log split: prod.splits option.splits)

lemma restoreRegions_log:
  "restoreRegions h pid spec dest log = (e, log') \<Longrightarrow> log' = log @ [CrClient [''-r'', ''-p'', Itoa pid, ''-s'', spec, ''-o'', dest]]"
  by (auto simp: restoreRegions_def dest: mr_runCommand_log split: prod.splits option.splits)

lemma ensureIDForPid_log:
  "ensureIDForPid h pid log = (r, log') \<Longrightarrow>
     (log' = log \<or> log' = log @ [CrClient [''-i'', ''-p'', pid]]) \<and> (r = Inr i \<longrightarrow> resolvePidToID h log' pid = Inr i)"
  by (auto simp: ensureIDForPid_def dest: mr_runCommand_log split: prod.splits option.splits sum.splits)

lemma ownerDir_Inr: "ownerDir h log dir pid = Inr own \<longleftrightarrow> (\<exists>st. mh_starttime h log pid = Inr st \<and> own = path_Join [dir, owner_name pid st])"
  by (auto simp: ownerDir_def split: sum.splits)

definition checkpoint_cmd :: "(int \<Rightarrow> string list) \<Rightarrow> string \<Rightarrow> int \<Rightarrow> int \<Rightarrow> string \<Rightarrow> mr_action" where
  "checkpoint_cmd specs dir pid st i =
     CrClient [''-c'', ''-p'', Itoa pid, ''-s'', strings_join '','' (specs pid), ''-o'', dump_path dir (Itoa pid) st i]"

definition restore_cmd :: "(int \<Rightarrow> string list) \<Rightarrow> string \<Rightarrow> int \<Rightarrow> int \<Rightarrow> string \<Rightarrow> mr_action" where
  "restore_cmd specs dir pid st i =
     CrClient [''-r'', ''-p'', Itoa pid, ''-s'', strings_join '','' (specs pid), ''-o'', dump_path dir (Itoa pid) st i]"

text \<open>One turn of each loop: it may drive the preloader, then stops or moves on.\<close>

lemma snapshot_loop_step:
  assumes "snapshot_loop h specs dir (pid # pids) log = (e, log')"
  obtains (stop) pre where "e \<noteq> None" "log' = log @ pre" "pre \<in> {[], [CrClient [''-i'', ''-p'', Itoa pid]]}"
    | (made) pre own where "e \<noteq> None" "log' = log @ pre @ [MkdirAll own]" "pre \<in> {[], [CrClient [''-i'', ''-p'', Itoa pid]]}"
    | (ran) pre st i where "pre \<in> {[], [CrClient [''-i'', ''-p'', Itoa pid]]}"
        "mh_starttime h (log @ pre) (Itoa pid) = Inr st" "resolvePidToID h (log @ pre) (Itoa pid) = Inr i"
        "(e \<noteq> None \<and> log' = log @ pre @ [MkdirAll (path_Join [dir, owner_name (Itoa pid) st]), checkpoint_cmd specs dir pid st i]) \<or>
         snapshot_loop h specs dir pids
           (log @ pre @ [MkdirAll (path_Join [dir, owner_name (Itoa pid) st]), checkpoint_cmd specs dir pid st i]) = (e, log')"
proof -
  obtain r log1 where en: "ensureIDForPid h (Itoa pid) log = (r, log1)" by fastforce
  obtain pre where pre: "log1 = log @ pre" "pre \<in> {[], [CrClient [''-i'', ''-p'', Itoa pid]]}"
    using ensureIDForPid_log[OF en] by auto
  show thesis
  proof (cases r)
    case (Inl err)
    then show thesis using assms en pre stop by auto
  next
    case (Inr i)
    have id: "resolvePidToID h (log @ pre) (Itoa pid) = Inr i" using ensureIDForPid_log[OF en, of i] Inr pre by simp
    show thesis
    proof (cases "ownerDir h log1 dir (Itoa pid)")
      case (Inl err)
      then show thesis using assms en pre stop Inr by auto
    next
      case own: (Inr own)
      then obtain st where st: "mh_starttime h (log @ pre) (Itoa pid) = Inr st" "own = path_Join [dir, owner_name (Itoa pid) st]"
        using pre(1) by (auto simp: ownerDir_Inr)
      show thesis
      proof (cases "mh_MkdirAll h log1 own")
        case (Some err)
        then show thesis using assms en pre made Inr own by (auto simp: mkdir_def)
      next
        case None
        let ?log2 = "log @ pre @ [MkdirAll own]"
        obtain e3 log3 where ck: "checkpointRegions h pid (strings_join '','' (specs pid)) (path_Join [own, i]) ?log2 = (e3, log3)" by fastforce
        have log3: "log3 = log @ pre @ [MkdirAll own, checkpoint_cmd specs dir pid st i]"
          using checkpointRegions_log[OF ck] st(2) by (simp add: checkpoint_cmd_def dump_path_def)
        have "e \<noteq> None \<and> log' = log3 \<or> snapshot_loop h specs dir pids log3 = (e, log')"
          using assms en pre(1) Inr own None ck by (cases e3) (auto simp: mkdir_def)
        then show thesis using ran[OF pre(2) st(1) id] log3 st(2) by simp
      qed
    qed
  qed
qed

lemma restore_loop_step:
  assumes "restore_loop h specs slot dir (pid # pids) log = (e, log')"
  obtains (stop) pre where "e \<noteq> None" "log' = log @ pre" "pre \<in> {[], [CrClient [''-i'', ''-p'', Itoa pid]]}"
    | (ran) pre st i where "pre \<in> {[], [CrClient [''-i'', ''-p'', Itoa pid]]}"
        "mh_starttime h (log @ pre) (Itoa pid) = Inr st" "resolvePidToID h (log @ pre) (Itoa pid) = Inr i"
        "(e \<noteq> None \<and> log' = log @ pre @ [restore_cmd specs dir pid st i]) \<or>
         restore_loop h specs slot dir pids (log @ pre @ [restore_cmd specs dir pid st i]) = (e, log')"
proof -
  obtain r log1 where en: "ensureIDForPid h (Itoa pid) log = (r, log1)" by fastforce
  obtain pre where pre: "log1 = log @ pre" "pre \<in> {[], [CrClient [''-i'', ''-p'', Itoa pid]]}"
    using ensureIDForPid_log[OF en] by auto
  show thesis
  proof (cases r)
    case (Inl err)
    then show thesis using assms en pre stop by auto
  next
    case (Inr i)
    have id: "resolvePidToID h (log @ pre) (Itoa pid) = Inr i" using ensureIDForPid_log[OF en, of i] Inr pre by simp
    show thesis
    proof (cases "ownerDir h log1 dir (Itoa pid)")
      case (Inl err)
      then show thesis using assms en pre stop Inr by auto
    next
      case own: (Inr own)
      then obtain st where st: "mh_starttime h (log @ pre) (Itoa pid) = Inr st" "own = path_Join [dir, owner_name (Itoa pid) st]"
        using pre(1) by (auto simp: ownerDir_Inr)
      show thesis
      proof (cases "mh_Stat h log1 (path_Join [own, i])")
        case (Some err)
        then show thesis using assms en pre stop Inr own by auto
      next
        case None
        obtain e3 log3 where ck: "restoreRegions h pid (strings_join '','' (specs pid)) (path_Join [own, i]) log1 = (e3, log3)" by fastforce
        have log3: "log3 = log @ pre @ [restore_cmd specs dir pid st i]"
          using restoreRegions_log[OF ck] st(2) pre(1) by (simp add: restore_cmd_def dump_path_def)
        have "e \<noteq> None \<and> log' = log3 \<or> restore_loop h specs slot dir pids log3 = (e, log')"
          using assms en pre(1) Inr own None ck by (cases e3) auto
        then show thesis using ran[OF pre(2) st(1) id] log3 by simp
      qed
    qed
  qed
qed

text \<open>The transfers of a request for processes with given start times and dump ids.\<close>

definition planned :: "(int \<Rightarrow> string list) \<Rightarrow> string \<Rightarrow> (string \<Rightarrow> int) \<Rightarrow> (string \<Rightarrow> string) \<Rightarrow> int list \<Rightarrow> (string \<times> string \<times> string) list" where
  "planned specs dir st ids pids =
     map (\<lambda>pid. (Itoa pid, strings_join '','' (specs pid), dump_path dir (Itoa pid) (st (Itoa pid)) (ids (Itoa pid)))) pids"

lemma snapshot_loop_transfers:
  assumes st: "\<forall>l pid s. mh_starttime h l pid = Inr s \<longrightarrow> s = st pid"
    and ids: "\<forall>l pid i. resolvePidToID h l pid = Inr i \<longrightarrow> i = ids pid"
  shows "snapshot_loop h specs dir pids log = (None, log') \<Longrightarrow>
    transfers ''-c'' log' = transfers ''-c'' log @ planned specs dir st ids pids"
proof (induction pids arbitrary: log)
  case (Cons pid pids)
  from Cons.prems show ?case
  proof (cases rule: snapshot_loop_step)
    case (ran pre s i)
    have run: "snapshot_loop h specs dir pids (log @ pre @ [MkdirAll (path_Join [dir, owner_name (Itoa pid) s]), checkpoint_cmd specs dir pid s i]) = (None, log')"
      using ran(4) by simp
    have "s = st (Itoa pid)" "i = ids (Itoa pid)" using ran st ids by blast+
    moreover have "transfers ''-c'' pre = []" using ran(1) by auto
    ultimately show ?thesis using Cons.IH[OF run] by (simp add: checkpoint_cmd_def planned_def)
  qed auto
qed (simp add: planned_def)

lemma restore_loop_transfers:
  assumes st: "\<forall>l pid s. mh_starttime h l pid = Inr s \<longrightarrow> s = st pid"
    and ids: "\<forall>l pid i. resolvePidToID h l pid = Inr i \<longrightarrow> i = ids pid"
  shows "restore_loop h specs slot dir pids log = (None, log') \<Longrightarrow>
    transfers ''-r'' log' = transfers ''-r'' log @ planned specs dir st ids pids"
proof (induction pids arbitrary: log)
  case (Cons pid pids)
  from Cons.prems show ?case
  proof (cases rule: restore_loop_step)
    case (ran pre s i)
    have run: "restore_loop h specs slot dir pids (log @ pre @ [restore_cmd specs dir pid s i]) = (None, log')"
      using ran(4) by simp
    have "s = st (Itoa pid)" "i = ids (Itoa pid)" using ran st ids by blast+
    moreover have "transfers ''-r'' pre = []" using ran(1) by auto
    ultimately show ?thesis using Cons.IH[OF run] by (simp add: restore_cmd_def planned_def)
  qed auto
qed (simp add: planned_def)

lemma mr_Snapshot_runs:
  assumes "mr_Snapshot h req log = (e, log')" and "GetMemoryRegions (rq_Config req) = Some cfg"
    and "snapshotSlot (mh_env h) cfg (rq_JobID req) = Inr slot" and "groupDir (mh_env h) slot = Inr dir" and "regionSpecs cfg = Inr specs"
  shows "(e \<noteq> None \<and> log' = log @ [MkdirAll dir]) \<or>
    (\<exists>log1. snapshot_loop h specs dir (regionPIDs cfg) (log @ [MkdirAll dir]) = (e, log1) \<and>
       log' = (if e = None then log1 @ [Chtimes dir] else log1))"
  using assms by (auto simp: mr_Snapshot_def mkdir_def touchGroup_def split: option.splits prod.splits)

lemma mr_Restore_runs:
  assumes "mr_Restore h req log = (None, log')" and "GetMemoryRegions (rq_Config req) = Some cfg"
    and "snapshotSlot (mh_env h) cfg (rq_JobID req) = Inr slot" and "groupDir (mh_env h) slot = Inr dir" and "regionSpecs cfg = Inr specs"
  shows "\<exists>log1. restore_loop h specs slot dir (regionPIDs cfg) log = (None, log1) \<and> log' = log1 @ [Chtimes dir]"
  using assms by (auto simp: mr_Restore_def touchGroup_def split: option.splits prod.splits)

lemma mr_Snapshot_accepts:
  "mr_Snapshot h req log = (e, log') \<Longrightarrow> log' \<noteq> log \<or> e = None \<Longrightarrow>
     \<exists>cfg specs slot dir. GetMemoryRegions (rq_Config req) = Some cfg \<and> regionSpecs cfg = Inr specs \<and>
       snapshotSlot (mh_env h) cfg (rq_JobID req) = Inr slot \<and> groupDir (mh_env h) slot = Inr dir"
  by (auto simp: mr_Snapshot_def split: option.splits prod.splits sum.splits)

text \<open>C10:
  A restore reads exactly the files a snapshot of the same request wrote, one for every process, with
  the same regions: for processes that are still the same (the start time that procfs reports does
  not change) and keep their dump id, the transfers of a successful restore are, in order, those of a
  successful snapshot. Whatever happens in between, the path is recomputed, not remembered.
\<close>

theorem restore_reads_what_snapshot_wrote:
  assumes "\<forall>l pid s. mh_starttime h l pid = Inr s \<longrightarrow> s = st pid"
    and "\<forall>l pid i. resolvePidToID h l pid = Inr i \<longrightarrow> i = ids pid"
    and "mr_Snapshot h req log = (None, log1)" and "mr_Restore h req log2 = (None, log3)"
  shows "\<exists>ts. ts \<noteq> [] \<and> transfers ''-c'' log1 = transfers ''-c'' log @ ts \<and> transfers ''-r'' log3 = transfers ''-r'' log2 @ ts"
proof -
  obtain cfg specs slot dir where c: "GetMemoryRegions (rq_Config req) = Some cfg"
      "snapshotSlot (mh_env h) cfg (rq_JobID req) = Inr slot" "groupDir (mh_env h) slot = Inr dir" "regionSpecs cfg = Inr specs"
    using mr_Snapshot_accepts[OF assms(3)] by blast
  have "regionPIDs cfg \<noteq> []"
    using c(4) regionPIDs_props(1)[of cfg] by (auto simp: regionSpecs_def split: if_splits)
  then have "planned specs dir st ids (regionPIDs cfg) \<noteq> []" by (simp add: planned_def)
  moreover have "transfers ''-c'' log1 = transfers ''-c'' log @ planned specs dir st ids (regionPIDs cfg)"
    using mr_Snapshot_runs[OF assms(3) c] snapshot_loop_transfers[OF assms(1,2)] by fastforce
  moreover have "transfers ''-r'' log3 = transfers ''-r'' log2 @ planned specs dir st ids (regionPIDs cfg)"
    using mr_Restore_runs[OF assms(4) c] restore_loop_transfers[OF assms(1,2)] by fastforce
  ultimately show ?thesis by blast
qed

definition demo_host :: mr_host where
  "demo_host =
     \<lparr>mh_exec = (\<lambda>log t args. ([], None)), mh_Stat = (\<lambda>log p. None), mh_MkdirAll = (\<lambda>log p. None),
      mh_ReadFile = (\<lambda>log p. Inr ''7''), mh_starttime = (\<lambda>log pid. Inr 900), mh_env = (\<lambda>_. [])\<rparr>"

definition demo_request :: Request where
  "demo_request =
     \<lparr>rq_JobID = ''job-1'',
      rq_Config = Some (MemoryRegions
        \<lparr>mr_regions = [\<lparr>mr_pid = 12, mr_address = 4096, mr_size_bytes = 64\<rparr>], mr_snapshot_name = ''base''\<rparr>)\<rparr>"

lemma demo_id: "resolvePidToID demo_host l pid = Inr ''7''"
proof -
  have "TrimSpace (TrimRight0 ''7'') = ''7''" "isAllDigits ''7''" by code_simp+
  then show ?thesis by (simp add: resolvePidToID_def demo_host_def Let_def)
qed

lemma demo_dir: "groupDir (mh_env demo_host) ''base'' = Inr (path_Join [GroupStoreDir (mh_env demo_host), ''base''])"
  by (rule groupDir_plain) (simp_all add: plain_elem_def HasPrefix_def)

lemma demo_ensure: "ensureIDForPid demo_host pid log = (Inr ''7'', log)"
  by (simp add: ensureIDForPid_def demo_id)

lemma demo_answers:
  "mh_exec demo_host log t args = ([], None)" "mh_Stat demo_host log p = None" "mh_MkdirAll demo_host log p = None"
  "mh_starttime demo_host log pid = Inr 900"
  by (simp_all add: demo_host_def)

lemmas demo_eval = demo_request_def GetMemoryRegions_def regionSpecs_def regionPIDs_def snapshotSlot_def demo_dir demo_ensure
  demo_answers ownerDir_def mkdir_def checkpointRegions_def restoreRegions_def mr_runCommand_def

lemma demo_runs: "fst (mr_Snapshot demo_host demo_request []) = None" "fst (mr_Restore demo_host demo_request []) = None"
  by (simp_all add: mr_Snapshot_def mr_Restore_def demo_eval)

lemma demo_pairs:
  "mr_Snapshot demo_host demo_request [] = (None, snd (mr_Snapshot demo_host demo_request []))"
  "mr_Restore demo_host demo_request [] = (None, snd (mr_Restore demo_host demo_request []))"
  using demo_runs surjective_pairing by metis+

theorem restore_reads_what_snapshot_wrote_witness:
  "\<exists>ts. ts \<noteq> [] \<and> transfers ''-c'' (snd (mr_Snapshot demo_host demo_request [])) = transfers ''-c'' [] @ ts \<and>
     transfers ''-r'' (snd (mr_Restore demo_host demo_request [])) = transfers ''-r'' [] @ ts"
  by (rule restore_reads_what_snapshot_wrote[OF _ _ demo_pairs, where st = "\<lambda>_. 900" and ids = "\<lambda>_. ''7''"])
    (simp_all add: demo_id demo_answers)

subsection \<open>Owners\<close>

text \<open>Every checkpoint of a list of actions comes after the creation of its owner directory.\<close>

definition owners_first :: "mr_host \<Rightarrow> string \<Rightarrow> int list \<Rightarrow> mr_action list \<Rightarrow> bool" where
  "owners_first h dir pids as \<longleftrightarrow>
     (\<forall>pre post p spec dest. as = pre @ CrClient [''-c'', ''-p'', p, ''-s'', spec, ''-o'', dest] # post \<longrightarrow>
        (\<exists>pid st i l. pid \<in> set pids \<and> p = Itoa pid \<and> mh_starttime h l p = Inr st \<and> dest = dump_path dir p st i \<and>
           MkdirAll (path_Join [dir, owner_name p st]) \<in> set pre))"

lemma owners_first_append:
  assumes "owners_first h dir pids as" and "owners_first h dir pids bs"
  shows "owners_first h dir pids (as @ bs)"
  unfolding owners_first_def
proof (intro allI impI)
  fix pre post p spec dest
  let ?c = "CrClient [''-c'', ''-p'', p, ''-s'', spec, ''-o'', dest]"
  assume "as @ bs = pre @ ?c # post"
  then consider us where "as = pre @ ?c # us" | us where "pre = as @ us" "bs = us @ ?c # post"
    by (auto simp: append_eq_append_conv2 append_eq_Cons_conv)
  then show "\<exists>pid st i l. pid \<in> set pids \<and> p = Itoa pid \<and> mh_starttime h l p = Inr st \<and> dest = dump_path dir p st i \<and>
      MkdirAll (path_Join [dir, owner_name p st]) \<in> set pre"
  proof cases
    case 1
    then show ?thesis using assms(1) unfolding owners_first_def by blast
  next
    case 2
    then show ?thesis using assms(2) unfolding owners_first_def by (metis UnCI set_append)
  qed
qed

lemma owners_first_other:
  "owners_first h dir pids []" "owners_first h dir pids [MkdirAll d]" "owners_first h dir pids [Chtimes d]"
  "owners_first h dir pids [CrClient [a, b, c]]"
  by (auto simp: owners_first_def Cons_eq_append_conv)

lemma owners_first_checkpoint:
  assumes "pid \<in> set pids" and "mh_starttime h l (Itoa pid) = Inr st"
  shows "owners_first h dir pids [MkdirAll (path_Join [dir, owner_name (Itoa pid) st]), checkpoint_cmd specs dir pid st i]"
  using assms by (auto simp: owners_first_def checkpoint_cmd_def Cons_eq_append_conv)

lemma owners_first_init: "pre \<in> {[], [CrClient [''-i'', ''-p'', p]]} \<Longrightarrow> owners_first h dir pids pre"
  using owners_first_other by auto

lemma snapshot_loop_owners:
  "snapshot_loop h specs dir qs log = (e, log') \<Longrightarrow> set qs \<subseteq> set pids \<Longrightarrow> \<exists>as. log' = log @ as \<and> owners_first h dir pids as"
proof (induction qs arbitrary: log)
  case Nil
  then show ?case using owners_first_other(1) by auto
next
  case (Cons q qs)
  from Cons.prems(1) show ?case
  proof (cases rule: snapshot_loop_step)
    case (stop pre)
    then show ?thesis using owners_first_init by blast
  next
    case (made pre own)
    then show ?thesis using owners_first_append[OF owners_first_init owners_first_other(2)] by blast
  next
    case (ran pre st i)
    let ?new = "pre @ [MkdirAll (path_Join [dir, owner_name (Itoa q) st]), checkpoint_cmd specs dir q st i]"
    have new: "owners_first h dir pids ?new"
      using owners_first_append[OF owners_first_init[OF ran(1)] owners_first_checkpoint[OF _ ran(2)]] Cons.prems(2) by simp
    show ?thesis
      using ran(4)
    proof
      assume "e \<noteq> None \<and> log' = log @ ?new"
      with new show ?thesis by blast
    next
      assume "snapshot_loop h specs dir qs (log @ ?new) = (e, log')"
      then obtain as where "log' = log @ ?new @ as" "owners_first h dir pids as" using Cons.IH Cons.prems(2) by fastforce
      with owners_first_append[OF new] show ?thesis by blast
    qed
  qed
qed

lemma mr_Snapshot_owners:
  assumes "mr_Snapshot h req log = (e, log')" and "log' \<noteq> log"
  shows "\<exists>cfg specs slot dir as. GetMemoryRegions (rq_Config req) = Some cfg \<and> regionSpecs cfg = Inr specs \<and>
    groupDir (mh_env h) slot = Inr dir \<and> log' = log @ as \<and> owners_first h dir (regionPIDs cfg) as"
proof -
  obtain cfg specs slot dir where c: "GetMemoryRegions (rq_Config req) = Some cfg"
      "snapshotSlot (mh_env h) cfg (rq_JobID req) = Inr slot" "groupDir (mh_env h) slot = Inr dir" "regionSpecs cfg = Inr specs"
    using mr_Snapshot_accepts[OF assms(1)] assms(2) by blast
  have "\<exists>as. log' = log @ as \<and> owners_first h dir (regionPIDs cfg) as"
    using mr_Snapshot_runs[OF assms(1) c]
  proof
    assume "e \<noteq> None \<and> log' = log @ [MkdirAll dir]"
    then show ?thesis using owners_first_other(2) by blast
  next
    assume "\<exists>log1. snapshot_loop h specs dir (regionPIDs cfg) (log @ [MkdirAll dir]) = (e, log1) \<and>
       log' = (if e = None then log1 @ [Chtimes dir] else log1)"
    then obtain log1 where l: "snapshot_loop h specs dir (regionPIDs cfg) (log @ [MkdirAll dir]) = (e, log1)"
        "log' = (if e = None then log1 @ [Chtimes dir] else log1)" by blast
    obtain as where as: "log1 = (log @ [MkdirAll dir]) @ as" "owners_first h dir (regionPIDs cfg) as"
      using snapshot_loop_owners[OF l(1) subset_refl] by blast
    have "log' = log @ [MkdirAll dir] @ as @ (if e = None then [Chtimes dir] else [])" using l(2) as(1) by simp
    moreover note as(2)
    moreover have "owners_first h dir (regionPIDs cfg) (if e = None then [Chtimes dir] else [])"
      using owners_first_other by auto
    ultimately show ?thesis by (metis owners_first_append owners_first_other(2))
  qed
  with c show ?thesis by blast
qed

lemma digits_Itoa: "0 \<le> i \<Longrightarrow> digits (Itoa i)"
  using nat_digits_digits nat_digits_not_Nil by (simp add: Itoa_def digits_def)

lemma regionPIDs_positive:
  assumes "regionSpecs cfg = Inr specs" and "pid \<in> set (regionPIDs cfg)"
  shows "0 < pid"
proof -
  have "specs_loop (mr_regions cfg) [] (\<lambda>_. []) = Inr specs" using assms(1) by (simp add: regionSpecs_def split: if_splits)
  then have "list_all (\<lambda>r. 0 < mr_pid r \<and> 0 < mr_size_bytes r) (mr_regions cfg)" using specs_loop_exact by blast
  then show ?thesis using assms(2) regionPIDs_props(1)[of cfg] by (auto simp: list_all_iff)
qed

text \<open>C9:
  State that is parked is safe from the sweeper while its process lives. Before any checkpoint of a
  snapshot, whether the call succeeds or fails later, the directory that names process and start
  time was created in the slot, which is a child of the store, and the dump goes below it; and as
  long as that directory is listed in the slot and procfs shows the process with that start time,
  no sweep of the store removes the slot, whatever its age.
\<close>

theorem parked_slot_survives_sweep:
  assumes "mr_Snapshot h req log = (e, log @ pre @ CrClient [''-c'', ''-p'', p, ''-s'', spec, ''-o'', dest] # post)"
    and "\<forall>l pid s. mh_starttime h l pid = Inr s \<longrightarrow> 0 \<le> s \<and> s < 2 ^ 63"
  shows "\<exists>dir n st i l. plain_elem n \<and> dir = path_Join [GroupStoreDir (mh_env h), n] \<and> mh_starttime h l p = Inr st \<and>
    dest = dump_path dir p st i \<and> MkdirAll (path_Join [dir, owner_name p st]) \<in> set pre \<and>
    (\<forall>f es oe. fs_ReadDir f dir = Inr es \<and> oe \<in> set es \<and> de_IsDir oe \<and> de_Name oe = owner_name p st \<and>
       ProcStarttime f p = Inr st \<longrightarrow> dir \<notin> set (sweepGroupStore parseDuration f env now))"
proof -
  obtain cfg specs slot dir where c: "regionSpecs cfg = Inr specs" "groupDir (mh_env h) slot = Inr dir"
      "owners_first h dir (regionPIDs cfg) (pre @ CrClient [''-c'', ''-p'', p, ''-s'', spec, ''-o'', dest] # post)"
    using mr_Snapshot_owners[OF assms(1)] by auto
  obtain pid st i l where o: "pid \<in> set (regionPIDs cfg)" "p = Itoa pid" "mh_starttime h l p = Inr st" "dest = dump_path dir p st i"
      "MkdirAll (path_Join [dir, owner_name p st]) \<in> set pre"
    using c(3) unfolding owners_first_def by blast
  have "digits p" using regionPIDs_positive[OF c(1) o(1)] o(2) digits_Itoa by simp
  moreover have "0 \<le> st \<and> st < 2 ^ 63" using assms(2) o(3) by blast
  ultimately have "dir \<notin> set (sweepGroupStore parseDuration f env now)"
    if "fs_ReadDir f dir = Inr es" "oe \<in> set es" "de_IsDir oe" "de_Name oe = owner_name p st" "ProcStarttime f p = Inr st" for f es oe
    using live_owner_keeps_slot[OF that(1-3)] that(4,5) by (simp add: owner_name_def ownerGone_def)
  then show ?thesis using groupDir_child[OF c(2)] o(3-5) by blast
qed

definition owner_fs :: fs where
  "owner_fs =
     \<lparr>fs_ReadDir = (\<lambda>p. Inr [\<lparr>de_Name = ''12-900'', de_IsDir = True, de_ModTime = Inr 0\<rparr>]),
      fs_ReadFile = (\<lambda>p. Inr ''12 (x y) S 1 2 3 4 5 6 7 8 9 10 11 12 13 14 15 16 17 18 900 0''),
      fs_Stat = (\<lambda>p. None), fs_DevIno = (\<lambda>p. None)\<rparr>"

lemma owner_fs_starttime: "ProcStarttime owner_fs ''12'' = Inr 900"
  by code_simp

lemma demo_names: "Itoa 12 = ''12''" "owner_name ''12'' 900 = ''12-900''"
  by code_simp+

lemma demo_snapshot_log:
  "\<exists>pre spec dest post. mr_Snapshot demo_host demo_request [] = (None, [] @ pre @ CrClient [''-c'', ''-p'', ''12'', ''-s'', spec, ''-o'', dest] # post)"
  by (simp add: mr_Snapshot_def demo_eval touchGroup_def demo_names Cons_eq_append_conv)

theorem parked_slot_survives_sweep_witness:
  "\<exists>dir n. plain_elem n \<and> dir = path_Join [GroupStoreDir (mh_env demo_host), n] \<and>
     dir \<notin> set (sweepGroupStore (\<lambda>_. None) owner_fs (mh_env demo_host) 99999999999999)"
proof -
  obtain pre spec dest post where
    s: "mr_Snapshot demo_host demo_request [] = (None, [] @ pre @ CrClient [''-c'', ''-p'', ''12'', ''-s'', spec, ''-o'', dest] # post)"
    using demo_snapshot_log by blast
  show ?thesis
    using parked_slot_survives_sweep[OF s, of "\<lambda>_. None" "mh_env demo_host" 99999999999999] owner_fs_starttime demo_names(2)
    by (fastforce simp: demo_answers owner_fs_def)
qed

end
