(* ===== verification/Backend_Contract.thy ===== *)
theory Backend_Contract
  imports Agent_Main App_Endpoint Memory_Regions
begin

text \<open>
  What the agent relies on in a backend (\<^verbatim>\<open>Backend\<close> of \<^verbatim>\<open>backends/checkpoint.go\<close>), over the
  log of what a backend does to the node: a health check does nothing, a snapshot or a restore only adds
  to the log, and a request that names nothing the backend could act on is refused and does nothing.
  The interpretations show it of every backend whose effects are a log; the server is
  the client of the contract.
\<close>

subsection \<open>The contract\<close>

locale log_backend =
  fixes be :: "'e list Backend"
    and acts_on :: "BackendConfig option \<Rightarrow> bool"
  assumes snapshot_log: "prefix log (snd (be_Snapshot be rq log))"
    and restore_log: "prefix log (snd (be_Restore be rq log))"
    and health_log: "snd (be_HealthCheck be log) = log"
    and snapshot_refused: "\<not> acts_on (rq_Config rq) \<Longrightarrow> \<exists>err. be_Snapshot be rq log = (Some err, log)"
    and restore_refused: "\<not> acts_on (rq_Config rq) \<Longrightarrow> \<exists>err. be_Restore be rq log = (Some err, log)"
begin

text \<open>The worker of an operation only adds to the log, whichever way the server builds it.\<close>

lemma call_snapshot: "prefix (snd st) (snd (snd (call_backend (be_Snapshot be) j c st)))"
  using snapshot_log[of "snd st" "\<lparr>rq_JobID = j, rq_Config = c\<rparr>"] by (auto simp: call_backend_def split: prod.splits)

lemma call_restore: "prefix (snd st) (snd (snd (call_backend (be_Restore be) j c st)))"
  using restore_log[of "snd st" "\<lparr>rq_JobID = j, rq_Config = c\<rparr>"] by (auto simp: call_backend_def split: prod.splits)

lemma snapshot_pids_log: "prefix (snd st) (snd (snd (snapshot_pids be j c ps st)))"
  using call_snapshot[of st j "Some c"] by (auto simp: snapshot_pids_def split: prod.splits option.splits)

lemma snapshot_worker_log:
  assumes "buildSnapshotFn s env j t be c = Inr fn"
  shows "prefix (snd st) (snd (snd (fn st)))"
  using assms call_snapshot[of st j c] snapshot_pids_log[of st j] unfolding buildSnapshotFn_def Let_def
  by (auto split: if_splits sum.splits prod.splits option.splits)

lemma restore_worker_log:
  assumes "buildRestoreFn s j t be c = Inr fn"
  shows "prefix (snd st) (snd (snd (fn st)))"
  using assms call_restore[of st j] unfolding buildRestoreFn_def by (auto split: if_splits sum.splits)

text \<open>In standalone mode a request that names nothing to act on fails without effect.\<close>

lemma standalone_refused:
  assumes "deploymentMode s = ''standalone''" and "\<not> acts_on c" and "buildSnapshotFn s env j t be c = Inr fn"
  shows "\<exists>err. fn st = (Some err, st)"
  using assms snapshot_refused[of "\<lparr>rq_JobID = j, rq_Config = c\<rparr>" "snd st"]
  by (auto simp: buildSnapshotFn_def call_backend_def)

end

subsection \<open>Growing logs\<close>

text \<open>Rules for code that threads a log through calls: every step starts from a log the first one is a prefix of.\<close>

named_theorems grows

lemma grows_case:
  assumes "prefix log (snd p)" and "\<And>l. prefix log l \<Longrightarrow> prefix log (snd (B l))"
    and "\<And>e l. prefix log l \<Longrightarrow> prefix log (snd (A e l))"
  shows "prefix log (snd (case p of (x, l) \<Rightarrow> (case x of None \<Rightarrow> B l | Some e \<Rightarrow> A e l)))"
  using assms by (cases p; cases "fst p") auto

lemma grows_case_sum:
  assumes "prefix log (snd p)" and "\<And>e l. prefix log l \<Longrightarrow> prefix log (snd (A e l))"
    and "\<And>i l. prefix log l \<Longrightarrow> prefix log (snd (B i l))"
  shows "prefix log (snd (case p of (x, l) \<Rightarrow> (case x of Inl e \<Rightarrow> A e l | Inr i \<Rightarrow> B i l)))"
  using assms by (cases p; cases "fst p") auto

lemma grows_pure_sum:
  assumes "\<And>e. prefix log (snd (A e))" and "\<And>i. prefix log (snd (B i))"
  shows "prefix log (snd (case x of Inl e \<Rightarrow> A e | Inr i \<Rightarrow> B i))"
  using assms by (cases x) auto

lemma grows_pure_option:
  assumes "prefix log (snd B)" and "\<And>e. prefix log (snd (A e))"
  shows "prefix log (snd (case x of None \<Rightarrow> B | Some e \<Rightarrow> A e))"
  using assms by (cases x) auto

lemma grows_if: "prefix log (snd A) \<Longrightarrow> prefix log (snd B) \<Longrightarrow> prefix log (snd (if b then A else B))"
  by simp

lemma grows_return [grows]: "prefix log l \<Longrightarrow> prefix log (snd (r, l))"
  by simp

lemmas grows_rules = grows_case grows_case_sum grows_pure_sum grows_pure_option grows_if

subsection \<open>The backends\<close>

interpretation noop_backend: log_backend NewNoopBackend "\<lambda>_. True"
  by unfold_locales (simp_all add: NewNoopBackend_def)

lemma runSudoCommand_log [grows]: "prefix log l \<Longrightarrow> prefix log (snd (runSudoCommand h n a l))"
  by (cases rule: runSudoCommand_cases[of h l n a]) auto

lemma checkpointPIDs_log [grows]: "prefix log l \<Longrightarrow> prefix log (snd (checkpointPIDs h pids l))"
  unfolding checkpointPIDs_def Let_def by (intro grows_rules grows)

lemma restorePIDs_log [grows]: "prefix log l \<Longrightarrow> prefix log (snd (restorePIDs h pids l))"
  unfolding restorePIDs_def by (intro grows_rules grows)

interpretation cuda_backend: log_backend "NewCudaCheckpoint h" "\<lambda>c. ExtractPIDStrings c \<noteq> []" for h
proof unfold_locales
  fix rq log
  show "prefix log (snd (be_Snapshot (NewCudaCheckpoint h) rq log))"
    unfolding NewCudaCheckpoint_def Backend.select_convs cuda_Snapshot_def Let_def
    by (intro grows_rules grows prefix_order.refl)
  show "prefix log (snd (be_Restore (NewCudaCheckpoint h) rq log))"
    unfolding NewCudaCheckpoint_def Backend.select_convs cuda_Restore_def Let_def
    by (intro grows_rules grows prefix_order.refl)
qed (simp_all add: NewCudaCheckpoint_def cuda_HealthCheck_def cuda_Snapshot_def cuda_Restore_def)

lemma runCommand_log [grows]: "prefix log l \<Longrightarrow> prefix log (snd (runCommand h n a l))"
  by (auto simp: runCommand_def run_cmd_def prefix_def split: prod.splits option.splits)

lemma each_pid_log:
  assumes "\<And>pid l. prefix log l \<Longrightarrow> prefix log (snd (act pid l))" and "prefix log l"
  shows "prefix log (snd (each_pid act what pids l))"
  using assms(2) by (induction pids arbitrary: l) (auto intro!: grows_rules grows assms(1))

lemma checkpointPID_log [grows]: "prefix log l \<Longrightarrow> prefix log (snd (checkpointPID h pid l))"
  unfolding checkpointPID_def by (intro grows_rules grows)

lemma restorePID_log [grows]: "prefix log l \<Longrightarrow> prefix log (snd (restorePID h pid l))"
  unfolding restorePID_def by (intro grows_rules grows)

interpretation dm_backend: log_backend "NewDirectMemory h" "\<lambda>c. ExtractDirectMemoryPIDStrings c \<noteq> []" for h
proof unfold_locales
  fix rq log
  show "prefix log (snd (be_Snapshot (NewDirectMemory h) rq log))"
    unfolding NewDirectMemory_def Backend.select_convs dm_Snapshot_def Let_def
    by (intro grows_rules each_pid_log grows prefix_order.refl)
  show "prefix log (snd (be_Restore (NewDirectMemory h) rq log))"
    unfolding NewDirectMemory_def Backend.select_convs dm_Restore_def Let_def
    by (intro grows_rules each_pid_log grows prefix_order.refl)
qed (simp_all add: NewDirectMemory_def dm_HealthCheck_def dm_Snapshot_def dm_Restore_def)

lemma grows_case_out:
  assumes "prefix log (snd p)" and "\<And>out l. prefix log l \<Longrightarrow> prefix log (snd (B out l))"
    and "\<And>out e l. prefix log l \<Longrightarrow> prefix log (snd (A out e l))"
  shows "prefix log (snd (case p of (y, l) \<Rightarrow> (case y of (out, x) \<Rightarrow> (case x of None \<Rightarrow> B out l | Some e \<Rightarrow> A out e l))))"
  using assms by (cases p; cases "fst p"; cases "snd (fst p)") auto

lemma runBatch_log [grows]: "prefix log l \<Longrightarrow> prefix log (snd (runBatch h act pids t l))"
  by (cases rule: runBatch_cases[of h l act pids t]) auto

lemma ClearLockfiles_log [grows]: "prefix log l \<Longrightarrow> prefix log (ClearLockfiles h pids seen l)"
  by (induction h pids seen l rule: ClearLockfiles.induct) (auto simp: Let_def split: option.splits)

lemma checkpointWithRetry_log [grows]: "prefix log l \<Longrightarrow> prefix log (snd (checkpointWithRetry h pids l))"
  unfolding checkpointWithRetry_def Let_def by (intro grows_case_out grows_rules grows)

interpretation tpu_backend: log_backend "NewTpuCheckpoint h" "\<lambda>c. ExtractTpuPIDStrings c \<noteq> []" for h
proof unfold_locales
  fix rq log
  show "prefix log (snd (be_Snapshot (NewTpuCheckpoint h) rq log))"
    unfolding NewTpuCheckpoint_def Backend.select_convs tpu_Snapshot_def Let_def
    by (intro grows_rules grows prefix_order.refl)
  show "prefix log (snd (be_Restore (NewTpuCheckpoint h) rq log))"
    unfolding NewTpuCheckpoint_def Backend.select_convs tpu_Restore_def Let_def
    by (intro grows_case_out grows_rules grows prefix_order.refl)
qed (simp_all add: NewTpuCheckpoint_def tpu_HealthCheck_def tpu_Snapshot_def tpu_Restore_def)

lemma doRequest_log [grows]: "prefix log l \<Longrightarrow> prefix log (snd (doRequest h rq l))"
  unfolding doRequest_def by (auto simp: prefix_def split: sum.splits prod.splits)

lemma endpoint_loop_log [grows]: "prefix log l \<Longrightarrow> prefix log (snd (endpoint_loop h what build eps l))"
  by (induction eps arbitrary: l) (auto intro!: grows_rules grows)

interpretation endpoint_backend: log_backend "NewAppEndpointBackend h" "\<lambda>c. GetAppEndpoint c \<noteq> None" for h
proof unfold_locales
  fix rq log
  show "prefix log (snd (be_Snapshot (NewAppEndpointBackend h) rq log))"
    by (auto simp: NewAppEndpointBackend_def endpoint_Snapshot_def intro: grows split: sum.splits)
  show "prefix log (snd (be_Restore (NewAppEndpointBackend h) rq log))"
    by (auto simp: NewAppEndpointBackend_def endpoint_Restore_def intro: grows split: sum.splits)
qed (simp_all add: NewAppEndpointBackend_def endpoint_Snapshot_def endpoint_Restore_def resolve_def)

lemma mr_runCommand_grows [grows]: "prefix log l \<Longrightarrow> prefix log (snd (mr_runCommand h args l))"
  by (auto simp: mr_runCommand_def prefix_def split: sum.splits prod.splits option.splits)

lemma mkdir_log [grows]: "prefix log l \<Longrightarrow> prefix log (snd (mkdir h dir l))"
  by (auto simp: mkdir_def prefix_def)

lemma touchGroup_log [grows]: "prefix log l \<Longrightarrow> prefix log (touchGroup dir l)"
  by (auto simp: touchGroup_def prefix_def)

lemma transfer_log [grows]:
  "prefix log l \<Longrightarrow> prefix log (snd (checkpointRegions h pid spec dest l))"
  "prefix log l \<Longrightarrow> prefix log (snd (restoreRegions h pid spec dest l))"
  unfolding checkpointRegions_def restoreRegions_def by (intro grows_rules grows; assumption)+

lemma ensureIDForPid_grows [grows]: "prefix log l \<Longrightarrow> prefix log (snd (ensureIDForPid h pid l))"
  unfolding ensureIDForPid_def by (intro grows_rules grows)

lemma snapshot_loop_log [grows]: "prefix log l \<Longrightarrow> prefix log (snd (snapshot_loop h specs dir pids l))"
  by (induction pids arbitrary: l) (auto intro!: grows_rules grows)

lemma restore_loop_log [grows]: "prefix log l \<Longrightarrow> prefix log (snd (restore_loop h specs slot dir pids l))"
  by (induction pids arbitrary: l) (auto intro!: grows_rules grows)

interpretation mr_backend: log_backend "NewMemoryRegions h" "\<lambda>c. GetMemoryRegions c \<noteq> None" for h
proof unfold_locales
  fix rq log
  show "prefix log (snd (be_Snapshot (NewMemoryRegions h) rq log))"
    unfolding NewMemoryRegions_def Backend.select_convs mr_Snapshot_def
    by (intro grows_rules grows prefix_order.refl)
  show "prefix log (snd (be_Restore (NewMemoryRegions h) rq log))"
    unfolding NewMemoryRegions_def Backend.select_convs mr_Restore_def
    by (intro grows_rules grows prefix_order.refl)
qed (simp_all add: NewMemoryRegions_def mr_Snapshot_def mr_Restore_def)

subsection \<open>The server as a client of the contract\<close>

text \<open>What happens to an agent: requests, health checks and the goroutines of operations, in any order.\<close>

datatype agent_event =
    OnSnapshot string int agent_request
  | OnRestore string int agent_request
  | OnCheck string
  | OnRun int Goroutine

fun on_event :: "'w server_cfg \<Rightarrow> pod_env \<Rightarrow> (go_error \<Rightarrow> string) \<Rightarrow> agent_event \<Rightarrow> 'w Server \<Rightarrow> 'w Server" where
  "on_event s env errText (OnSnapshot i now req) srv = snd (agent_Snapshot s env i now req srv)"
| "on_event s env errText (OnRestore i now req) srv = snd (agent_Restore s i now req srv)"
| "on_event s env errText (OnCheck service) srv =
     srv\<lparr>srv_world := snd (Check (backendMap s) (defaultBackend s) service (srv_world srv))\<rparr>"
| "on_event s env errText (OnRun now g) srv = run_operation now errText g srv"

definition log_backends :: "('e list) server_cfg \<Rightarrow> bool" where
  "log_backends s \<longleftrightarrow> (\<forall>(t, be) \<in> set (backendMap s). \<exists>acts_on. log_backend be acts_on)"

definition workers_grow :: "('e list) Server \<Rightarrow> bool" where
  "workers_grow srv \<longleftrightarrow> (\<forall>i fn. map_of (srv_workers srv) i = Some fn \<longrightarrow> (\<forall>st. prefix (snd st) (snd (snd (fn st)))))"

lemma keep_worker_grows:
  assumes "workers_grow srv" and "\<And>st. prefix (snd st) (snd (snd (fn st)))"
  shows "workers_grow (snd (keep_worker i fn r srv)) \<and> srv_world (snd (keep_worker i fn r srv)) = srv_world srv"
  using assms by (auto simp: workers_grow_def keep_worker_def)

lemma request_keeps_log:
  assumes "log_backends s" and "workers_grow srv"
  shows "workers_grow (snd (agent_Snapshot s env i now req srv)) \<and> srv_world (snd (agent_Snapshot s env i now req srv)) = srv_world srv"
    and "workers_grow (snd (agent_Restore s i now req srv)) \<and> srv_world (snd (agent_Restore s i now req srv)) = srv_world srv"
proof -
  have g: "\<exists>acts_on. log_backend be acts_on" if "map_of (backendMap s) t = Some be" for t be
    using assms(1) map_of_SomeD[OF that] by (auto simp: log_backends_def)
  have w: "workers_grow (srv\<lparr>srv_state := sm\<rparr>)" for sm using assms(2) by (simp add: workers_grow_def)
  let ?t = "getSnapshotBackendType s (ar_backend_config req)" and ?c = "ar_backend_config req"
  show "workers_grow (snd (agent_Snapshot s env i now req srv)) \<and> srv_world (snd (agent_Snapshot s env i now req srv)) = srv_world srv"
  proof (cases "checkFeatureGates s ?c = None \<and> map_of (backendMap s) ?t \<noteq> None")
    case True
    then obtain be where be: "checkFeatureGates s ?c = None" "map_of (backendMap s) ?t = Some be" by blast
    then obtain acts_on where l: "log_backend be acts_on" using g by blast
    show ?thesis
    proof (cases "buildSnapshotFn s env (ar_job_id req) ?t be ?c")
      case (Inr fn)
      note k = keep_worker_grows[OF w, of fn, OF log_backend.snapshot_worker_log[OF l Inr]]
      from be Inr show ?thesis by (simp add: agent_Snapshot_def Let_def k)
    qed (use be w in \<open>simp add: agent_Snapshot_def Let_def\<close>)
  qed (use assms(2) in \<open>auto simp: agent_Snapshot_def Let_def split: option.splits\<close>)
  show "workers_grow (snd (agent_Restore s i now req srv)) \<and> srv_world (snd (agent_Restore s i now req srv)) = srv_world srv"
  proof (cases "checkFeatureGates s ?c = None \<and> map_of (backendMap s) ?t \<noteq> None")
    case True
    then obtain be where be: "checkFeatureGates s ?c = None" "map_of (backendMap s) ?t = Some be" by blast
    then obtain acts_on where l: "log_backend be acts_on" using g by blast
    show ?thesis
    proof (cases "buildRestoreFn s (ar_job_id req) ?t be ?c")
      case (Inr fn)
      note k = keep_worker_grows[OF assms(2), of fn, OF log_backend.restore_worker_log[OF l Inr]]
      from be Inr show ?thesis by (simp add: agent_Restore_def Let_def k)
    qed (use be assms(2) in \<open>simp add: agent_Restore_def Let_def\<close>)
  qed (use assms(2) in \<open>auto simp: agent_Restore_def Let_def split: option.splits\<close>)
qed

lemma check_keeps_log:
  assumes "log_backends s"
  shows "snd (Check (backendMap s) d service log) = log"
proof (cases "map_of (backendMap s) (if service = [] then d else service)")
  case (Some be)
  then obtain acts_on where "log_backend be acts_on" using assms map_of_SomeD[OF Some] by (auto simp: log_backends_def)
  then have "snd (be_HealthCheck be log) = log" by (rule log_backend.health_log)
  with Some show ?thesis by (auto simp: Check_def Let_def split: prod.splits option.splits)
qed (simp add: Check_def Let_def)

lemma event_grows:
  assumes "log_backends s" and "workers_grow srv"
  shows "workers_grow (on_event s env errText ev srv) \<and> prefix (srv_world srv) (srv_world (on_event s env errText ev srv)) \<and>
    ((\<forall>now g. ev \<noteq> OnRun now g) \<longrightarrow> srv_world (on_event s env errText ev srv) = srv_world srv)"
proof (cases ev)
  case (OnRun now g)
  show ?thesis
  proof (cases "map_of (srv_workers srv) (go_op g)")
    case (Some fn)
    obtain r sm l where fn: "fn (srv_state srv, srv_world srv) = (r, sm, l)" by (metis prod.exhaust)
    have "\<forall>st. prefix (snd st) (snd (snd (fn st)))" using Some assms(2) by (simp add: workers_grow_def)
    from this[rule_format, of "(srv_state srv, srv_world srv)"] have "prefix (srv_world srv) l" by (simp add: fn)
    with OnRun Some assms(2) fn show ?thesis by (simp add: run_operation_def workers_grow_def)
  qed (use OnRun assms(2) in \<open>simp add: run_operation_def\<close>)
qed (use assms request_keeps_log[OF assms] check_keeps_log[OF assms(1)] in \<open>simp_all add: workers_grow_def\<close>)

lemma events_grow:
  assumes "log_backends s" and "workers_grow srv"
  shows "workers_grow (fold (on_event s env errText) evs srv) \<and>
    prefix (srv_world srv) (srv_world (fold (on_event s env errText) evs srv))"
  using assms(2)
proof (induction evs arbitrary: srv)
  case (Cons ev evs)
  from event_grows[OF assms(1) Cons.prems, of env errText ev] Cons.IH[of "on_event s env errText ev srv"]
  show ?case by (auto intro: prefix_order.trans)
qed simp



text \<open>
  A default backend that cannot be used is accepted. An agent in k8s mode starts with the no-op backend as its
  default; every snapshot and restore without a configuration, which is what an orchestrator sends for a job
  without one, is then refused as an invalid argument and has no effect.
\<close>

theorem noop_default_is_unusable_in_k8s:
  assumes "agent_main env fl = Inr c" and "ag_deploymentMode c = ''k8s''" and "ag_defaultBackend c = BackendNoop"
    and "ar_backend_config req = None"
  shows "(\<exists>err. agent_Snapshot (agent_server_cfg mk c) pods i now req srv = (Inl (Status Code_InvalidArgument err), srv)) \<and>
    (\<exists>err. agent_Restore (agent_server_cfg mk c) i now req srv = (Inl (Status Code_InvalidArgument err), srv))"
proof -
  let ?s = "agent_server_cfg mk c"
  have m: "map_of (backendMap ?s) BackendNoop = Some (mk BackendNoop)"
    using assms(1) by (rule agent_mainE) (simp add: registered_lookup assms(3)[symmetric])
  have s: "deploymentMode ?s = ''k8s''" "getSnapshotBackendType ?s None = BackendNoop" "defaultBackend ?s = BackendNoop"
    by (simp_all add: agent_server_cfg_def getSnapshotBackendType_def assms(2,3))
  have d: "BackendNoop \<noteq> BackendCuda" "BackendNoop \<noteq> BackendDirectMemory" "BackendNoop \<noteq> BackendTpu"
    "BackendNoop \<noteq> BackendAppEndpoint" "BackendNoop \<noteq> BackendAppChannel" "BackendNoop \<noteq> BackendMemoryRegions"
    using backend_names_distinct by auto
  have "ensureJobRunningIfOccupied ?s pods j g sm = sm" for j g sm by (simp add: ensureJobRunningIfOccupied_def s(1))
  then show ?thesis
    using s d m by (simp add: agent_Snapshot_def agent_Restore_def checkFeatureGates_def assms(4) buildSnapshotFn_def buildRestoreFn_def)
qed

theorem noop_default_is_unusable_in_k8s_witness:
  "\<exists>c err. agent_main (bare_env(''DEPLOYMENT_MODE'' := ''k8s'', ''DEFAULT_BACKEND'' := BackendNoop)) agent_flag_defaults = Inr c \<and>
     agent_Restore (agent_server_cfg (\<lambda>_. NewNoopBackend) c) ''op'' 5
       \<lparr>ar_job_id = ''j'', ar_group = ''g'', ar_backend_config = None\<rparr> (NewServer ()) =
     (Inl (Status Code_InvalidArgument err), NewServer ())"
proof -
  let ?env = "bare_env(''DEPLOYMENT_MODE'' := ''k8s'', ''DEFAULT_BACKEND'' := BackendNoop)"
  let ?c = "bare_config\<lparr>ag_deploymentMode := ''k8s'', ag_defaultBackend := BackendNoop\<rparr>"
  have m: "agent_main ?env agent_flag_defaults = Inr ?c" by code_simp
  have k: "ag_deploymentMode ?c = ''k8s''" "ag_defaultBackend ?c = BackendNoop" by simp_all
  let ?req = "\<lparr>ar_job_id = ''j'', ar_group = ''g'', ar_backend_config = None\<rparr>"
  have r: "ar_backend_config ?req = None" by simp
  from noop_default_is_unusable_in_k8s[OF m k r, of "\<lambda>_. NewNoopBackend", THEN conjunct2, of "''op''" 5 "NewServer ()"] m
  show ?thesis by blast
qed

end
