(* ===== verification/Rlts.thy ===== *)
theory Rlts
  imports Orch_Server Well_Formed
begin

text \<open>
  The command line client: \<^verbatim>\<open>cmd/rlts/cmd/inspect.go\<close> (the checks of a deployment) and
  \<^verbatim>\<open>cmd/rlts/cmd/orchestrator.go\<close> (list, status, acquire, yield),
  \<^verbatim>\<open>cmd/rlts/cmd/test_e2e.go\<close> (the end-to-end test command, whose scenarios are arguments) and the exit
  code of \<^verbatim>\<open>cmd/rlts/main.go\<close>. A command is a function from
  what the cluster or the orchestrator answers to the lines it prints and its error. A Go map is
  the list of its entries in the order in which the loop meets them; the order of the map a command builds itself
  is the argument \<open>ord\<close>; the quoting of \<^verbatim>\<open>%q\<close> is \<open>quote\<close>.
\<close>

subsection \<open>Deployment and daemon set\<close>

text \<open>The parts of a Deployment or DaemonSet the command looks at.\<close>

record workload =
  wl_name :: string
  wl_ready :: int
  wl_replicas :: "int option"
  wl_images :: "string list"

text \<open>
  By label, else the first whose name contains \<open>part\<close>. The error of the second listing is lost: it is assigned to
  a variable of the inner block.
\<close>

definition find_workload :: "string \<Rightarrow> go_error + workload list \<Rightarrow> go_error + workload list \<Rightarrow> go_error + workload option" where
  "find_workload part labelled everything =
     (case labelled of
        Inl err \<Rightarrow> Inl err
      | Inr (d # _) \<Rightarrow> Inr (Some d)
      | Inr [] \<Rightarrow>
          (case everything of
             Inl err \<Rightarrow> Inr None
           | Inr ds \<Rightarrow> Inr (List.find (\<lambda>d. Contains (wl_name d) part) ds)))"

definition first_image :: "workload \<Rightarrow> string" where
  "first_image d = (case wl_images d of [] \<Rightarrow> [] | i # _ \<Rightarrow> i)"

definition check_deployment :: "(go_error \<Rightarrow> string) \<Rightarrow> go_error + workload option \<Rightarrow> bool \<times> string list" where
  "check_deployment errText found =
     (case found of
        Inl err \<Rightarrow> (False, [errorf [''Error listing deployments: '', errText err]])
      | Inr None \<Rightarrow> (False, [''Deployment not found in namespace timeslice-system''])
      | Inr (Some d) \<Rightarrow>
          let desired = (case wl_replicas d of None \<Rightarrow> 1 | Some n \<Rightarrow> n);
              counts = errorf [Itoa (wl_ready d), ''/'', Itoa desired, '' ready replicas)'']
          in if wl_ready d > 0
             then (True, [errorf [''Status: Running ('', counts], errorf [''Image: '', first_image d]])
             else (False, [errorf [''Status: Not Ready ('', counts]]))"

definition check_daemonset :: "(go_error \<Rightarrow> string) \<Rightarrow> go_error + workload option \<Rightarrow> bool \<times> string list" where
  "check_daemonset errText found =
     (case found of
        Inl err \<Rightarrow> (False, [errorf [''Error listing daemonsets: '', errText err]])
      | Inr None \<Rightarrow> (False, [''DaemonSet not found in namespace timeslice-system''])
      | Inr (Some d) \<Rightarrow>
          let counts = errorf [Itoa (wl_ready d), '' ready replicas, at least 1 required)'']
          in if wl_ready d > 0
             then (True, [errorf [''Status: Running ('', counts], errorf [''Image: '', first_image d]])
             else (False, [errorf [''Status: Not Ready ('', counts]]))"

subsection \<open>Node labels\<close>

text \<open>The first group label of a node that is set to true, in the order of the loop.\<close>

definition group_label :: "string \<times> string \<Rightarrow> bool" where
  "group_label kv \<longleftrightarrow> HasPrefix (fst kv) NodeLabelPrefix \<and> snd kv = ''true''"

definition first_group :: "k8s_node \<Rightarrow> string option" where
  "first_group n = map_option (\<lambda>kv. TrimPrefix (fst kv) NodeLabelPrefix) (List.find group_label (node_labels n))"

fun labeledNodes :: "k8s_node list \<Rightarrow> (string \<times> string) list" where
  "labeledNodes [] = []"
| "labeledNodes (n # ns) =
     (case first_group n of Some g \<Rightarrow> (node_name n, g) # labeledNodes ns | None \<Rightarrow> labeledNodes ns)"

fun groupToNodes :: "(string \<times> string) list \<Rightarrow> (string \<times> string list) list \<Rightarrow> (string \<times> string list) list" where
  "groupToNodes [] m = m"
| "groupToNodes ((n, g) # ls) m =
     groupToNodes ls (AList.update g ((case map_of m g of None \<Rightarrow> [] | Some ns \<Rightarrow> ns) @ [n]) m)"

definition violation :: "(string \<Rightarrow> string) \<Rightarrow> string \<times> string list \<Rightarrow> string" where
  "violation quote gn = errorf [''Violation: Group '', quote (fst gn), '' has '', Itoa (int (length (snd gn))), '' nodes: '',
     strings_join '', '' (snd gn), '' (max 1 node per group supported due to DRA)'']"

definition node_line :: "string \<times> string \<Rightarrow> string" where
  "node_line ng = errorf [''Node: '', fst ng, '' (group: '', snd ng, '')'']"

definition verifyNodeLabels ::
  "(go_error \<Rightarrow> string) \<Rightarrow> (string \<Rightarrow> string) \<Rightarrow> ((string \<times> string list) list \<Rightarrow> (string \<times> string list) list) \<Rightarrow>
     go_error + k8s_node list \<Rightarrow> bool \<times> string list" where
  "verifyNodeLabels errText quote ord listed =
     (case listed of
        Inl err \<Rightarrow> (False, [errorf [''Error listing nodes: '', errText err]])
      | Inr items \<Rightarrow>
          let ls = labeledNodes items;
              violations = map (violation quote) (filter (\<lambda>gn. length (snd gn) > 1) (ord (groupToNodes ls [])))
          in if length ls = 0
             then (False, [''Status: Found 0 labeled nodes'',
                   ''No nodes found with timeslice group label (group.timeslice.io/<group>=true)''])
             else if length violations > 0
             then (False, [errorf [''Status: Found '', Itoa (int (length ls)), '' labeled nodes with group violations'']] @
                   map node_line ls @ violations)
             else (True, [errorf [''Status: Found '', Itoa (int (length ls)), '' labeled nodes'']] @ map node_line ls))"

subsection \<open>The command inspect\<close>

record cluster_view =
  cv_orchestrator :: "go_error + workload list"
  cv_deployments :: "go_error + workload list"
  cv_agents :: "go_error + workload list"
  cv_daemonsets :: "go_error + workload list"
  cv_nodes :: "go_error + k8s_node list"

definition print_result :: "string \<Rightarrow> bool \<times> string list \<Rightarrow> string list" where
  "print_result name r =
     errorf [if fst r then ''[PASS] '' else ''[FAIL] '', name] # map (\<lambda>d. errorf [''       - '', d]) (snd r) @ [[]]"

definition verifyCluster ::
  "(go_error \<Rightarrow> string) \<Rightarrow> (string \<Rightarrow> string) \<Rightarrow> ((string \<times> string list) list \<Rightarrow> (string \<times> string list) list) \<Rightarrow>
     cluster_view \<Rightarrow> bool \<times> string list" where
  "verifyCluster errText quote ord v =
     (let orch = check_deployment errText (find_workload ''timesliceorchestrator'' (cv_orchestrator v) (cv_deployments v));
          agent = check_daemonset errText (find_workload ''snapshot-agent'' (cv_agents v) (cv_daemonsets v));
          node = verifyNodeLabels errText quote ord (cv_nodes v)
      in (fst orch \<and> fst agent \<and> fst node,
          print_result ''TimeSlice Orchestrator Deployment'' orch @ print_result ''Snapshot Agent DaemonSet'' agent @
          print_result ''Labeled GPU Nodes'' node))"

definition inspectCmd ::
  "(go_error \<Rightarrow> string) \<Rightarrow> (string \<Rightarrow> string) \<Rightarrow> ((string \<times> string list) list \<Rightarrow> (string \<times> string list) list) \<Rightarrow>
     go_error option \<Rightarrow> go_error + string \<Rightarrow> go_error option \<Rightarrow> cluster_view \<Rightarrow> go_error option \<times> string list" where
  "inspectCmd errText quote ord config rawConfig client v =
     (case config of
        Some err \<Rightarrow> (Some (Wrap ''failed to load kubeconfig'' err), [])
      | None \<Rightarrow>
          let checking = [errorf [''Checking cluster: '', case rawConfig of Inr name \<Rightarrow> name | Inl err \<Rightarrow> ''unknown''], []] in
          (case client of
             Some err \<Rightarrow> (Some (Wrap ''failed to create kubernetes client'' err), checking)
           | None \<Rightarrow>
               (case verifyCluster errText quote ord v of
                  (True, out) \<Rightarrow> (None, checking @ out @ [''Inspection Result: PASSED''])
                | (False, out) \<Rightarrow> (Some (Text ''inspection failed''), checking @ out @ [''Inspection Result: FAILED'']))))"

subsection \<open>The commands of the orchestrator\<close>

text \<open>
  \<open>conn\<close> is the error of making a connection, \<open>ans\<close> what the orchestrator answers, an error of the
  transport included. Enumerations and times are printed by \<open>showState\<close>, \<open>showJobState\<close> and \<open>showTime\<close>.
\<close>

definition Bool_text :: "bool \<Rightarrow> string" where
  "Bool_text b = (if b then ''true'' else ''false'')"

definition cli_call ::
  "go_error option \<Rightarrow> go_error + 'a \<Rightarrow> string \<Rightarrow> ('a \<Rightarrow> go_error option \<times> string list) \<Rightarrow> go_error option \<times> string list" where
  "cli_call conn ans failed print =
     (case conn of
        Some err \<Rightarrow> (Some (Wrap ''did not connect'' err), [])
      | None \<Rightarrow>
          (case ans of
             Inl err \<Rightarrow> (Some (Wrap failed err), [])
           | Inr resp \<Rightarrow> print resp))"

definition listGroupsCmd :: "go_error option \<Rightarrow> go_error + string list \<Rightarrow> go_error option \<times> string list" where
  "listGroupsCmd conn ans =
     cli_call conn ans ''failed to list groups'' (\<lambda>ids.
       (None, if length ids = 0 then [''No active groups found.''] else ''Active Groups:'' # map (\<lambda>i. errorf [''- '', i]) ids))"

text \<open>In the answer to a status request the group and its timestamp are pointers.\<close>

record status_answer =
  sa_Group :: "GroupStatusMsg option"
  sa_StateTimestamp :: "int option"
  sa_AgentJobStates :: "SnapshotAgentJobState list"

definition statusCmd ::
  "(GroupState \<Rightarrow> string) \<Rightarrow> (ContextState \<Rightarrow> string) \<Rightarrow> (int \<Rightarrow> string) \<Rightarrow> go_error option \<Rightarrow>
     go_error + status_answer \<Rightarrow> go_error option \<times> string list" where
  "statusCmd showState showJobState showTime conn ans =
     cli_call conn ans ''failed to get status'' (\<lambda>resp.
       case sa_Group resp of
         None \<Rightarrow> (Some (Text ''server returned success but group status is missing''), [])
       | Some gm \<Rightarrow>
           (None,
            [errorf [''Group: '', gm_group_id gm], errorf [''  State: '', showState (gm_state gm)]] @
            (case sa_StateTimestamp resp of
               None \<Rightarrow> []
             | Some t \<Rightarrow> [errorf [''  State Timestamp: '', showTime t]]) @
            [errorf [''  Locking Job: '', gm_locking_job gm], errorf [''  Active Job: '', gm_active_job gm],
             errorf [''  Waiter Queue Depth: '', Itoa (gm_waiter_queue_depth gm)]] @
            (if length (sa_AgentJobStates resp) > 0
             then ''  Agent Job States:'' #
               map (\<lambda>a. errorf [''    - Agent: '', aj_agent a, '', State: '', showJobState (aj_job_state a)]) (sa_AgentJobStates resp)
             else [])))"

text \<open>\<^verbatim>\<open>acquire\<close> announces itself before it calls, so that line is printed even when the call fails.\<close>

definition acquireCmd :: "go_error option \<Rightarrow> string \<Rightarrow> string \<Rightarrow> go_error + AcquireResponse \<Rightarrow> go_error option \<times> string list" where
  "acquireCmd conn groupID jobID ans =
     (case conn of
        Some err \<Rightarrow> (Some (Wrap ''did not connect'' err), [])
      | None \<Rightarrow>
          let asking = errorf [''Requesting access to group '', groupID, '' for job '', jobID, '' (blocking)...''] in
          (case cli_call None ans ''failed to acquire'' (\<lambda>resp.
             (None, [errorf [''Acquire result: Success='', Bool_text (ar_success resp), '', Waited='', Itoa (ar_waited_ms resp),
                ''ms, ContextRestored='', Bool_text (ar_context_restored resp)]])) of
             (err, out) \<Rightarrow> (err, asking # out)))"

definition yieldCmd :: "go_error option \<Rightarrow> go_error + YieldResponse \<Rightarrow> go_error option \<times> string list" where
  "yieldCmd conn ans =
     cli_call conn ans ''failed to yield'' (\<lambda>resp.
       (None, [errorf [''Yield result: Success='', Bool_text (yr_success resp), '', PendingWaiters='', Itoa (yr_pending_waiters resp),
          '', SnapshotDeferred='', Bool_text (yr_snapshot_deferred resp)]]))"

subsection \<open>The verdict on the node labels\<close>

lemma labeledNodes_groups: "map snd (labeledNodes ns) = List.map_filter first_group ns"
  by (induction ns) (auto simp: List.map_filter_def split: option.splits)

text \<open>The nodes recorded for a group are those seen before and the labelled nodes of the group.\<close>

lemma groupToNodes_lookup:
  "map_of (groupToNodes ls m) g =
     (let new = map fst (filter (\<lambda>x. snd x = g) ls) in
      case map_of m g of None \<Rightarrow> if new = [] then None else Some new | Some ns \<Rightarrow> Some (ns @ new))"
  by (induction ls m rule: groupToNodes.induct) (auto simp: Let_def split: option.splits)

lemma groupToNodes_distinct: "distinct (map fst m) \<Longrightarrow> distinct (map fst (groupToNodes ls m))"
  by (induction ls m rule: groupToNodes.induct) (auto simp: distinct_update)

lemma groupToNodes_entry:
  "(g, ns) \<in> set (groupToNodes ls []) \<longleftrightarrow> ns = map fst (filter (\<lambda>x. snd x = g) ls) \<and> ns \<noteq> []"
proof -
  have "distinct (map fst (groupToNodes ls []))" by (rule groupToNodes_distinct) simp
  then have "(g, ns) \<in> set (groupToNodes ls []) \<longleftrightarrow> map_of (groupToNodes ls []) g = Some ns" by simp
  then show ?thesis unfolding groupToNodes_lookup Let_def by (simp add: if_split_asm eq_commute[of ns]) blast
qed

lemma distinct_counts: "distinct xs \<longleftrightarrow> (\<forall>a. count (mset xs) a \<le> 1)"
proof
  assume c: "\<forall>a. count (mset xs) a \<le> 1"
  have "count (mset xs) a = (if a \<in> set xs then 1 else 0)" for a
    using c[rule_format, of a] count_mset_0_iff[of xs a] by (cases "count (mset xs) a") auto
  then show "distinct xs" by (simp add: distinct_count_atmost_1)
qed (simp add: distinct_count_atmost_1)

lemma length_of_group: "length (filter (\<lambda>x. snd x = g) ls) = count (mset (map snd ls)) g"
  by (induction ls) auto

lemma node_check_verdict:
  assumes "set (ord (groupToNodes (labeledNodes items) [])) = set (groupToNodes (labeledNodes items) [])"
  shows "fst (verifyNodeLabels errText quote ord (Inr items)) \<longleftrightarrow>
    List.map_filter first_group items \<noteq> [] \<and> distinct (List.map_filter first_group items)"
proof -
  let ?ls = "labeledNodes items"
  have "filter (\<lambda>gn. length (snd gn) > 1) (ord (groupToNodes ?ls [])) = [] \<longleftrightarrow>
      (\<forall>gn \<in> set (groupToNodes ?ls []). \<not> length (snd gn) > 1)"
    by (simp add: filter_empty_conv assms)
  also have "\<dots> \<longleftrightarrow> (\<forall>g ns. (g, ns) \<in> set (groupToNodes ?ls []) \<longrightarrow> length ns \<le> 1)"
    by (auto simp: not_less)
  also have "\<dots> \<longleftrightarrow> (\<forall>g. length (filter (\<lambda>x. snd x = g) ?ls) \<le> 1)"
    unfolding groupToNodes_entry by (metis length_map list.size(3) zero_le)
  also have "\<dots> \<longleftrightarrow> distinct (map snd ?ls)" by (simp only: length_of_group distinct_counts)
  finally show ?thesis
    using labeledNodes_groups[of items] by (auto simp: verifyNodeLabels_def Let_def)
qed

text \<open>The groups a node is labelled with, as the orchestrator sees them.\<close>

definition groups_of :: "k8s_node \<Rightarrow> string list" where
  "groups_of n = map (\<lambda>kv. TrimPrefix (fst kv) NodeLabelPrefix) (filter group_label (node_labels n))"

lemma first_group_groups_of: "first_group n = (case groups_of n of [] \<Rightarrow> None | g # _ \<Rightarrow> Some g)"
proof -
  have "List.find P xs = (case filter P xs of [] \<Rightarrow> None | x # _ \<Rightarrow> Some x)" for P and xs :: "(string \<times> string) list"
    by (induction xs) auto
  then show ?thesis by (simp add: first_group_def groups_of_def split: list.splits)
qed

lemma map_filter_first_group:
  "\<forall>n \<in> set items. length (groups_of n) \<le> 1 \<Longrightarrow> List.map_filter first_group items = concat (map groups_of items)"
  by (induction items) (auto simp: List.map_filter_def first_group_groups_of le_Suc_eq length_Suc_conv split: list.splits)

lemma count_groups:
  "\<forall>n \<in> set items. length (groups_of n) \<le> 1 \<Longrightarrow>
     count (mset (concat (map groups_of items))) g = length (filter (\<lambda>n. g \<in> set (groups_of n)) items)"
  by (induction items) (auto simp: le_Suc_eq length_Suc_conv)

text \<open>
  The node check of \<^verbatim>\<open>rlts inspect\<close>. If no node is labelled with two groups, the check passes
  exactly if some node is labelled with a group and no group is the label of two nodes, in whatever order
  labels and groups are met.
\<close>

theorem node_check_exact:
  assumes "\<forall>n \<in> set items. length (groups_of n) \<le> 1" and "\<forall>xs. mset (ord xs) = mset xs"
  shows "fst (verifyNodeLabels errText quote ord (Inr items)) \<longleftrightarrow>
    (\<exists>n \<in> set items. groups_of n \<noteq> []) \<and> (\<forall>g. length (filter (\<lambda>n. g \<in> set (groups_of n)) items) \<le> 1)"
proof -
  have "set (ord (groupToNodes (labeledNodes items) [])) = set (groupToNodes (labeledNodes items) [])"
    using assms(2) mset_eq_setD by blast
  from node_check_verdict[of ord items, OF this] show ?thesis
    using count_groups[OF assms(1)] by (simp add: map_filter_first_group[OF assms(1)] distinct_counts)
qed

definition labelled :: "string \<Rightarrow> string list \<Rightarrow> k8s_node" where
  "labelled name gs = \<lparr>node_name = name, node_labels = map (\<lambda>g. (NodeLabelPrefix @ g, ''true'')) gs\<rparr>"

theorem node_check_exact_witness:
  "\<not> fst (verifyNodeLabels (\<lambda>_. []) id rev (Inr [labelled ''n1'' [''a''], labelled ''n2'' [''a'']]))"
proof -
  have g: "groups_of (labelled ''n1'' [''a'']) = [''a'']" "groups_of (labelled ''n2'' [''a'']) = [''a'']" by code_simp+
  then show ?thesis using node_check_exact[of "[labelled ''n1'' [''a''], labelled ''n2'' [''a'']]" rev "\<lambda>_. []" id]
    by auto
qed

text \<open>
  The node check depends on the order of a map. For nodes labelled with two groups, only the label that the loop over
  the labels happens to meet first counts: there are nodes, with a group that two of them are labelled
  with, for which the check passes or fails depending on the order of the labels of a node.
\<close>

theorem node_check_depends_on_label_order:
  "\<exists>items items' g. list_all2 (\<lambda>n n'. node_name n = node_name n' \<and> mset (node_labels n) = mset (node_labels n')) items items' \<and>
     length (filter (\<lambda>n. g \<in> set (groups_of n)) items) > 1 \<and>
     fst (verifyNodeLabels errText quote (\<lambda>xs. xs) (Inr items)) \<and> \<not> fst (verifyNodeLabels errText quote (\<lambda>xs. xs) (Inr items'))"
proof -
  let ?n1 = "labelled ''n1'' [''b'', ''a'']" and ?m1 = "labelled ''n1'' [''a'', ''b'']" and ?n2 = "labelled ''n2'' [''a'']"
  have "List.map_filter first_group [?n1, ?n2] = [''b'', ''a'']" "List.map_filter first_group [?m1, ?n2] = [''a'', ''a'']"
    by code_simp+
  then have "fst (verifyNodeLabels errText quote (\<lambda>xs. xs) (Inr [?n1, ?n2]))"
    "\<not> fst (verifyNodeLabels errText quote (\<lambda>xs. xs) (Inr [?m1, ?n2]))"
    by (simp_all add: node_check_verdict)
  moreover have "list_all2 (\<lambda>n n'. node_name n = node_name n' \<and> mset (node_labels n) = mset (node_labels n')) [?n1, ?n2] [?m1, ?n2]"
    by (simp add: labelled_def)
  moreover have "length (filter (\<lambda>n. ''a'' \<in> set (groups_of n)) [?n1, ?n2]) > 1" by code_simp
  ultimately show ?thesis by blast
qed

text \<open>The command ends without an error exactly if all three checks pass, and says so in its last line.\<close>

lemma inspectCmd_result:
  assumes "inspectCmd errText quote ord None raw None v = (r, out)"
  shows "r = None \<longleftrightarrow> fst (verifyCluster errText quote ord v)"
    and "last out = (if r = None then ''Inspection Result: PASSED'' else ''Inspection Result: FAILED'')"
  using assms by (auto simp: inspectCmd_def Let_def split: prod.splits bool.splits)

text \<open>A list of all deployments that cannot be read is reported as a deployment that does not exist.\<close>

lemma lost_listing_error:
  "check_deployment errText (find_workload part (Inr []) (Inl err)) = check_deployment errText (find_workload part (Inr []) (Inr []))"
  by (simp add: find_workload_def)

subsection \<open>The end-to-end test command\<close>

text \<open>The nodes the test runs on: for each of its two groups the first node that carries the label.\<close>

definition e2e_node :: "string \<Rightarrow> k8s_node list \<Rightarrow> string" where
  "e2e_node grp items =
     (case List.find (\<lambda>n. (NodeLabelPrefix @ grp, ''true'') \<in> set (node_labels n) \<and> node_name n \<noteq> []) items of
        None \<Rightarrow> []
      | Some n \<Rightarrow> node_name n)"

definition node_requirement :: "string \<Rightarrow> string \<Rightarrow> string" where
  "node_requirement grp node =
     (if node \<noteq> [] then errorf [''[PASS] Group \"'', grp, ''\" has labeled nodes (Found: '', node, '')'']
      else errorf [''[FAIL] Group \"'', grp, ''\" has no labeled nodes (required label: group.timeslice.io/'', grp, ''=true)''])"

text \<open>
  The locks of earlier runs are given back, whoever of the test jobs holds them. Errors are ignored, so that a request
  may also be lost on the way: \<open>arrives\<close> says which reach the orchestrator.
\<close>

definition testJobs :: "string list" where
  "testJobs = [''my-rl-job'', ''job-a'', ''job-b'']"

definition testGroups :: "string list" where
  "testGroups = [''samplers'', ''trainers'']"

definition preclean :: "('s, 'w) env \<Rightarrow> (string \<times> string \<Rightarrow> bool) \<Rightarrow> ('s, 'w) orch \<Rightarrow> ('s, 'w) orch" where
  "preclean E arrives st =
     fold (\<lambda>(g, j) st. if arrives (g, j) then snd (Yield E g j None st) else st) (List.product testGroups testJobs) st"

text \<open>The logger the command hands to its scenarios; the formatted variants take the formatted text.\<close>

definition cli_Log :: "string list \<Rightarrow> string" where
  "cli_Log args = errorf [''  [INFO] '', strings_join '' '' args]"

definition cli_Logf :: "string \<Rightarrow> string" where
  "cli_Logf formatted = errorf [''  [INFO] '', formatted]"

definition cli_Error :: "string list \<Rightarrow> string" where
  "cli_Error args = errorf [''  [ERROR] '', strings_join '' '' args]"

definition cli_Errorf :: "string \<Rightarrow> string" where
  "cli_Errorf formatted = errorf [''  [ERROR] '', formatted]"

text \<open>
  A scenario of the test harness is an argument: from the orchestrator it meets to its error, the lines it
  logs and the orchestrator it leaves.
\<close>

type_synonym 'o scenario = "'o \<Rightarrow> go_error option \<times> string list \<times> 'o"

definition run_scenario :: "(go_error \<Rightarrow> string) \<Rightarrow> string \<Rightarrow> 'o scenario \<Rightarrow> 'o \<Rightarrow> bool \<times> string list \<times> 'o" where
  "run_scenario errText name sc st =
     (case sc st of
        (err, out, st') \<Rightarrow>
          (err = None,
           errorf [''--- Running Scenario: '', name, '' ---''] # out @
           [case err of
              Some e \<Rightarrow> errorf [''[FAIL] '', name, '' Scenario failed: '', errText e]
            | None \<Rightarrow> errorf [''[PASS] '', name, '' Scenario completed successfully''], []],
           st'))"

definition e2e_summary :: "bool \<Rightarrow> bool \<Rightarrow> go_error option \<times> string list" where
  "e2e_summary scenario1Passed scenario2Passed =
     (let verdict = (\<lambda>passed name. errorf [if passed then ''[PASS] '' else ''[FAIL] '', name, '' Scenario'']);
          out = [''=== E2E Test Final Summary ==='', verdict scenario1Passed ''Single RL Job'',
                 verdict scenario2Passed ''Queued RL Jobs'', []]
      in if scenario1Passed \<and> scenario2Passed then (None, out @ [''E2E Test Result: PASSED''])
         else (Some (Text ''one or more E2E scenarios failed''), out @ [''E2E Test Result: FAILED'']))"

definition run_scenarios ::
  "(go_error \<Rightarrow> string) \<Rightarrow> 'o scenario \<Rightarrow> 'o scenario \<Rightarrow> 'o \<Rightarrow> go_error option \<times> string list \<times> 'o" where
  "run_scenarios errText single queued st =
     (case run_scenario errText ''Single RL Job'' single st of
        (passed1, out1, st1) \<Rightarrow>
          (case run_scenario errText ''Queued RL Jobs'' queued st1 of
             (passed2, out2, st2) \<Rightarrow>
               (case e2e_summary passed1 passed2 of
                  (err, out3) \<Rightarrow> (err, ''=== Step 4: Running E2E Scenarios ==='' # out1 @ out2 @ out3, st2))))"

text \<open>
  What the command meets outside: the errors of loading a configuration, of making the two clients and of the first call
  to the orchestrator (\<open>ee_ping\<close>), the cluster, and a second listing of the nodes.
\<close>

record e2e_outside =
  ee_config :: "go_error option"
  ee_rawConfig :: "go_error + string"
  ee_client :: "go_error option"
  ee_cluster :: cluster_view
  ee_nodes :: "go_error + k8s_node list"
  ee_conn :: "go_error option"
  ee_ping :: "go_error option"
  ee_arrives :: "string \<times> string \<Rightarrow> bool"

text \<open>Step 3, the clean-up and the scenarios, on a cluster that passed the checks.\<close>

definition e2e_connected ::
  "(go_error \<Rightarrow> string) \<Rightarrow> ('s, 'w) env \<Rightarrow> string \<Rightarrow> e2e_outside \<Rightarrow> ('s, 'w) orch scenario \<Rightarrow> ('s, 'w) orch scenario \<Rightarrow>
     ('s, 'w) orch \<Rightarrow> go_error option \<times> string list \<times> ('s, 'w) orch" where
  "e2e_connected errText E orchestratorAddr net single queued st =
     (let out = [errorf [''=== Step 3: Connecting to Orchestrator at '', orchestratorAddr, '' ==='']] in
      case ee_conn net of
        Some err \<Rightarrow> (Some (Wrap ''failed to create orchestrator client'' err), out, st)
      | None \<Rightarrow>
     (case ee_ping net of
        Some err \<Rightarrow> (Some (Wrap (errorf [''failed to connect to orchestrator at '', orchestratorAddr]) err), out, st)
      | None \<Rightarrow>
          (case run_scenarios errText single queued (preclean E (ee_arrives net) st) of
             (err, out', st') \<Rightarrow>
               (err, out @ [''Connected successfully.'', [], ''=== Pre-cleaning leaked locks from previous runs ==='',
                            ''Pre-clean complete.'', []] @ out', st'))))"

definition orchestratorTestCmd ::
  "(go_error \<Rightarrow> string) \<Rightarrow> (string \<Rightarrow> string) \<Rightarrow> ((string \<times> string list) list \<Rightarrow> (string \<times> string list) list) \<Rightarrow>
     ('s, 'w) env \<Rightarrow> string \<Rightarrow> e2e_outside \<Rightarrow> ('s, 'w) orch scenario \<Rightarrow> ('s, 'w) orch scenario \<Rightarrow>
     ('s, 'w) orch \<Rightarrow> go_error option \<times> string list \<times> ('s, 'w) orch" where
  "orchestratorTestCmd errText quote ord E orchestratorAddr net single queued st =
     (case ee_config net of
        Some err \<Rightarrow> (Some (Wrap ''failed to load kubeconfig'' err), [], st)
      | None \<Rightarrow>
          let out1 = [errorf [''Target Cluster: '', case ee_rawConfig net of Inr name \<Rightarrow> name | Inl err \<Rightarrow> ''unknown''], []] in
     (case ee_client net of
        Some err \<Rightarrow> (Some (Wrap ''failed to create kubernetes client'' err), out1, st)
      | None \<Rightarrow>
     (case verifyCluster errText quote ord (ee_cluster net) of
        (overallPassed, checks) \<Rightarrow>
          let out2 = out1 @ ''=== Step 1: Running Prerequisite Verification ==='' # checks in
          if \<not> overallPassed
          then (Some (Text ''prerequisite check failed: orchestrator/agents are not ready or no labeled nodes found. Aborting E2E tests''),
                out2, st)
          else
            let out3 = out2 @ [''Prerequisite Verification: PASSED'', [], ''=== Step 2: Checking E2E Specific Node Requirements ===''] in
     (case ee_nodes net of
        Inl err \<Rightarrow> (Some (Wrap ''failed to list nodes'' err), out3, st)
      | Inr items \<Rightarrow>
          let samplerNode = e2e_node ''samplers'' items; trainerNode = e2e_node ''trainers'' items;
              out4 = out3 @ [node_requirement ''samplers'' samplerNode, node_requirement ''trainers'' trainerNode, []] in
          if samplerNode = [] \<or> trainerNode = []
          then (Some (Text ''E2E node requirements check failed. Aborting E2E tests''), out4, st)
          else
            (case e2e_connected errText E orchestratorAddr net single queued st of
               (err, out, st') \<Rightarrow> (err, out4 @ out, st'))))))"

text \<open>The process: an error goes to the standard error output, and the exit code is 1.\<close>

definition rlts_main :: "(go_error \<Rightarrow> string) \<Rightarrow> go_error option \<Rightarrow> int \<times> string list" where
  "rlts_main errText err = (case err of None \<Rightarrow> (0, []) | Some e \<Rightarrow> (1, [errorf [''Error: '', errText e]]))"

text \<open>What the command needs before it touches the orchestrator.\<close>

definition e2e_ready :: "(go_error \<Rightarrow> string) \<Rightarrow> (string \<Rightarrow> string) \<Rightarrow>
  ((string \<times> string list) list \<Rightarrow> (string \<times> string list) list) \<Rightarrow> e2e_outside \<Rightarrow> bool" where
  "e2e_ready errText quote ord net \<longleftrightarrow>
     ee_config net = None \<and> ee_client net = None \<and> fst (verifyCluster errText quote ord (ee_cluster net)) \<and>
     (\<exists>items. ee_nodes net = Inr items \<and> e2e_node ''samplers'' items \<noteq> [] \<and> e2e_node ''trainers'' items \<noteq> []) \<and>
     ee_conn net = None \<and> ee_ping net = None"

lemma e2e_not_ready:
  assumes "\<not> e2e_ready errText quote ord net"
    and "orchestratorTestCmd errText quote ord E addr net single queued st = (r, out, st')"
  shows "r \<noteq> None \<and> st' = st"
  using assms
  by (auto simp: e2e_ready_def orchestratorTestCmd_def e2e_connected_def Let_def
      split: option.splits prod.splits sum.splits if_splits)

lemma e2e_ready_runs:
  assumes "e2e_ready errText quote ord net"
  shows "\<exists>pre. orchestratorTestCmd errText quote ord E addr net single queued st =
    (case run_scenarios errText single queued (preclean E (ee_arrives net) st) of (r, out, st') \<Rightarrow> (r, pre @ out, st'))"
  using assms
  by (auto simp: e2e_ready_def orchestratorTestCmd_def e2e_connected_def Let_def split: prod.splits)

lemma e2e_summary_verdict:
  assumes "e2e_summary a b = (r, out)"
  shows "r = None \<longleftrightarrow> a \<and> b" and "out \<noteq> []"
    and "last out = (if r = None then ''E2E Test Result: PASSED'' else ''E2E Test Result: FAILED'')"
  using assms by (auto simp: e2e_summary_def Let_def split: if_splits)

lemma run_scenarios_verdict:
  assumes "run_scenarios errText single queued st = (r, out, st')" and "single st = (e1, out1, st1)" and "queued st1 = (e2, out2, st2)"
  shows "st' = st2" and "r = None \<longleftrightarrow> e1 = None \<and> e2 = None"
    and "last out = (if r = None then ''E2E Test Result: PASSED'' else ''E2E Test Result: FAILED'')"
proof -
  obtain r' out' where e: "e2e_summary (e1 = None) (e2 = None) = (r', out')" by fastforce
  note verdict = e2e_summary_verdict[OF e]
  show "st' = st2" "r = None \<longleftrightarrow> e1 = None \<and> e2 = None"
    "last out = (if r = None then ''E2E Test Result: PASSED'' else ''E2E Test Result: FAILED'')"
    using assms e verdict by (auto simp: run_scenarios_def run_scenario_def last_append simp del: not_None_eq)
qed

text \<open>
  The verdict of the test command as its exit code: 0 exactly if the cluster passed every check and both scenarios
  ended without an error. A command that stops before leaves the orchestrator as it is.
\<close>

lemma e2e_exit_code:
  assumes "orchestratorTestCmd errText quote ord E addr net single queued st = (r, out, st')"
    and "single (preclean E (ee_arrives net) st) = (e1, out1, st1)" and "queued st1 = (e2, out2, st2)"
  shows "fst (rlts_main errText r) = 0 \<longleftrightarrow> e2e_ready errText quote ord net \<and> e1 = None \<and> e2 = None"
proof (cases "e2e_ready errText quote ord net")
  case True
  obtain r' out' st'' where run: "run_scenarios errText single queued (preclean E (ee_arrives net) st) = (r', out', st'')"
    using prod_cases3 by blast
  from run_scenarios_verdict(2)[OF this assms(2,3)] e2e_ready_runs[OF True, of E addr single queued st] assms(1) run True
  show ?thesis by (auto simp: rlts_main_def split: option.splits)
next
  case False
  then show ?thesis using e2e_not_ready[OF False assms(1)] by (auto simp: rlts_main_def)
qed

text \<open>The clean-up takes no lock from a job that is not one of the test jobs.\<close>

lemma yield_keeps_other_lock:
  assumes ls: "lock_store ops holder" and E: "lockStore E = Some ops" and st: "orch_inv st"
    and k: "holder (locks st) g = k" "k \<noteq> []" "k \<noteq> j"
  shows "holder (locks (snd (Yield E h j cfg st))) g = k"
proof (cases "ValidateJobBackendConfig cfg = None \<and> (\<exists>grp. gs_Get h (groups st) = Inr grp)")
  case True
  then obtain grp where v: "ValidateJobBackendConfig cfg = None" "gs_Get h (groups st) = Inr grp" by blast
  then have id: "gid grp = h" using st gs_inv_group by (auto simp: gs_Get_Inr_iff orch_inv_def)
  obtain a js where a: "applyBackendConfig h j cfg (jobs st) = (a, js)" by fastforce
  obtain r s where u: "ls_Unlock ops h j (locks st) = (r, s)" by fastforce
  have "holder s g = k"
    using lock_store.unlock_refused[OF ls k(1), of j r s] lock_store.unlock_other[OF ls u, of g] k u by (cases "h = g") auto
  then show ?thesis
    using v a u id E k(1) by (auto simp: Yield_def spec_Yield_def spec_unlock_def Let_def EnqueueWork_def split: sum.splits option.splits)
qed (use k in \<open>auto simp: Yield_def split: option.splits sum.splits\<close>)

lemma preclean_keeps_other_locks:
  assumes "lock_store ops holder" and "lockStore E = Some ops" and "orch_inv st"
    and "holder (locks st) g = k" and "k \<noteq> []" and "k \<notin> set testJobs"
  shows "holder (locks (preclean E arrives st)) g = k"
proof -
  have "holder (locks (fold (\<lambda>(g, j) st. if arrives (g, j) then snd (Yield E g j None st) else st) xs st)) g = k"
    if "orch_inv st" "holder (locks st) g = k" "\<forall>x \<in> set xs. snd x \<in> set testJobs" for xs and st :: "('a, 'b) orch"
    using that
  proof (induction xs arbitrary: st)
    case (Cons x xs)
    have "k \<noteq> snd x" using Cons.prems(3) assms(6) by auto
    from yield_keeps_other_lock[OF assms(1,2) Cons.prems(1,2) assms(5) this]
    have "holder (locks (snd (Yield E (fst x) (snd x) None st))) g = k" .
    from Cons.IH[OF wf_yield[OF Cons.prems(1)] this] Cons.IH[OF Cons.prems(1,2)] Cons.prems(3)
    show ?case by (simp add: case_prod_beta)
  qed simp
  note run = this
  have "\<forall>x \<in> set (List.product testGroups testJobs). snd x \<in> set testJobs" by auto
  from run[OF assms(3,4) this] show ?thesis by (simp add: preclean_def)
qed

end
