(* ===== verification/Logging.thy ===== *)
theory Logging
  imports Go_Text
begin

text \<open>
  The logging handler (\<^verbatim>\<open>pkg/logging/handler.go\<close>): values a context carries, and the attributes
  the handler adds to a record before it passes it on. A context is the list of its values, the innermost
  first, as \<^verbatim>\<open>context.WithValue\<close> nests them.
\<close>

datatype log_key = ServerMethodKey | JobIDKey | GroupIDKey | WorkerIDKey | NodeNameKey | OperationIDKey

datatype log_value = StringValue string | IntValue int

type_synonym log_context = "(log_key \<times> log_value) list"

definition WithServerMethod :: "log_context \<Rightarrow> string \<Rightarrow> log_context" where
  "WithServerMethod ctx method = (ServerMethodKey, StringValue method) # ctx"

definition WithJobID :: "log_context \<Rightarrow> string \<Rightarrow> log_context" where
  "WithJobID ctx jobID = (JobIDKey, StringValue jobID) # ctx"

definition WithGroupID :: "log_context \<Rightarrow> string \<Rightarrow> log_context" where
  "WithGroupID ctx groupID = (GroupIDKey, StringValue groupID) # ctx"

definition WithWorkerID :: "log_context \<Rightarrow> int \<Rightarrow> log_context" where
  "WithWorkerID ctx workerID = (WorkerIDKey, IntValue workerID) # ctx"

definition WithNodeName :: "log_context \<Rightarrow> string \<Rightarrow> log_context" where
  "WithNodeName ctx nodeName = (NodeNameKey, StringValue nodeName) # ctx"

definition WithOperationID :: "log_context \<Rightarrow> string \<Rightarrow> log_context" where
  "WithOperationID ctx operationID = (OperationIDKey, StringValue operationID) # ctx"

lemmas with_defs = WithServerMethod_def WithJobID_def WithGroupID_def WithWorkerID_def WithNodeName_def WithOperationID_def

text \<open>A string that is not empty, and a number, become an attribute.\<close>

definition string_attr :: "log_context \<Rightarrow> log_key \<Rightarrow> string \<Rightarrow> (string \<times> log_value) list" where
  "string_attr ctx key name =
     (case map_of ctx key of
        Some (StringValue v) \<Rightarrow> if v \<noteq> [] then [(name, StringValue v)] else []
      | _ \<Rightarrow> [])"

definition int_attr :: "log_context \<Rightarrow> log_key \<Rightarrow> string \<Rightarrow> (string \<times> log_value) list" where
  "int_attr ctx key name = (case map_of ctx key of Some (IntValue v) \<Rightarrow> [(name, IntValue v)] | _ \<Rightarrow> [])"

text \<open>The wrapped handler is \<open>h\<close>; a record is its attributes.\<close>

definition Handle :: "((string \<times> log_value) list \<Rightarrow> 'r) \<Rightarrow> log_context \<Rightarrow> (string \<times> log_value) list \<Rightarrow> 'r" where
  "Handle h ctx r =
     h (r @ string_attr ctx ServerMethodKey ''ServerMethod'' @ string_attr ctx JobIDKey ''JobID'' @
        string_attr ctx GroupIDKey ''GroupID'' @ int_attr ctx WorkerIDKey ''WorkerID'' @
        string_attr ctx NodeNameKey ''NodeName'' @ string_attr ctx OperationIDKey ''OperationID'')"

text \<open>Each name is added at most once, so a record without these names has none twice afterwards.\<close>

lemma handle_names_distinct:
  assumes "distinct (map fst r)"
    and "set (map fst r) \<inter> {''ServerMethod'', ''JobID'', ''GroupID'', ''WorkerID'', ''NodeName'', ''OperationID''} = {}"
  shows "distinct (Handle (map fst) ctx r)"
proof -
  have s: "map fst (string_attr ctx k n) \<in> {[], [n]}" for k n by (auto simp: string_attr_def split: option.splits log_value.splits)
  have i: "map fst (int_attr ctx k n) \<in> {[], [n]}" for k n by (auto simp: int_attr_def split: option.splits log_value.splits)
  show ?thesis
    using assms s[of ServerMethodKey "''ServerMethod''"] s[of JobIDKey "''JobID''"] s[of GroupIDKey "''GroupID''"]
      i[of WorkerIDKey "''WorkerID''"] s[of NodeNameKey "''NodeName''"] s[of OperationIDKey "''OperationID''"]
    unfolding Handle_def map_append by (elim insertE emptyE) simp_all
qed

text \<open>The innermost value wins, and the identifier 0 of the first worker is logged.\<close>

lemma innermost_value_is_logged:
  "v \<noteq> [] \<Longrightarrow> string_attr (WithGroupID ctx v) GroupIDKey n = [(n, StringValue v)]"
  "int_attr (WithWorkerID ctx 0) WorkerIDKey n = [(n, IntValue 0)]"
  by (simp_all add: string_attr_def int_attr_def with_defs)

end
