(* ===== verification/Spec2Isabelle.thy ===== *)
theory Spec2Isabelle
  imports Fifo_Lock Well_Formed Stale_Load Lost_Status Agent_Poll Workload_Channel Tpu_Discovery Orch_Main Backend_Contract Rlts Logging
begin

text \<open>
  \<^bold>\<open>Time slicing of accelerators between jobs.\<close>

  Several reinforcement-learning jobs share the accelerators of a group of nodes, one job at a time.
  A job asks the orchestrator for its group (\<^verbatim>\<open>Acquire\<close>), works, and gives the group back
  (\<^verbatim>\<open>Yield\<close>). The orchestrator keeps who holds each group and who waits, observes the nodes
  through Kubernetes and through the snapshot agent of each node, and reconciles the nodes with the
  holder: it has the agents save the contexts of other jobs and restore the context of the holder. An
  agent runs these operations through a backend (CUDA, TPU, direct memory, memory regions, HTTP
  endpoints of inference servers, a channel the workload opened) and keeps the state of each job on
  its node. Paths below are relative to \<^verbatim>\<open>src/pkg/\<close>.

  \<^bold>\<open>The orchestrator\<close> (\<^verbatim>\<open>timeslice-orchestrator/\<close>)

  \<^item> \<open>Waiting_Job_Queue\<close> (\<^verbatim>\<open>store/waiting_job_queue.go\<close>): the queue with its index; the locale
    \<open>waiting_queue\<close> is what a group relies on: first in, first out, no duplicates.
  \<^item> \<open>Lock_Store\<close> (\<^verbatim>\<open>store/lock_memstore.go\<close>, \<^verbatim>\<open>store/configmap_lockstore.go\<close>): the record of
    lock holders that survives a restart. The locale \<open>lock_store\<close> is its contract; the memory store
    interprets it, and the ConfigMap store keeps it under the stated behaviour of the Kubernetes API,
    of optimistic updates and of the retry helpers.
  \<^item> \<open>Group\<close> (\<^verbatim>\<open>store/group.go\<close>): desired and observed state of a group; its invariant over all
    sequences of operations, and that every waiting job gets its turn.
  \<^item> \<open>Group_Store\<close>, \<open>Job_Store\<close> (\<^verbatim>\<open>store/group_store.go\<close>, \<^verbatim>\<open>store/job.go\<close>,
    \<^verbatim>\<open>store/job_store.go\<close>, \<^verbatim>\<open>metrics/metrics.go\<close>): the keyed stores, with recovery of a
    recorded lock when a group is created.
  \<^item> \<open>Orch_State\<close>: the state of the process as one record, and its parameters: the lock store, the
    interface to the agents, the listers of Kubernetes, the clock.
  \<^item> \<open>Agent_Store\<close> (\<^verbatim>\<open>store/snapshot_agent_store.go\<close>): the gRPC implementation of the interface
    to the agents, with its caches.
  \<^item> \<open>Infrastructure\<close> (\<^verbatim>\<open>infrastructure/kubernetes.go\<close>): nodes, pods and jobs of a group,
    removal of a group, informer events.
  \<^item> \<open>Controller\<close>, \<open>Node_Pass\<close>, \<open>Reconcile\<close> (\<^verbatim>\<open>controller/controller.go\<close>): observation, deduction
    of the active job, settlement, status; the pass over one node as a program of calls; a whole
    reconciliation, in which the passes over the nodes run concurrently under an explicit schedule.
  \<^item> \<open>Orch_Server\<close> (\<^verbatim>\<open>server/server.go\<close>, \<^verbatim>\<open>server/backend_config.go\<close>): the handlers.
  \<^item> \<open>Lock_Safety\<close>: the system of handlers, reconciliation steps and crashes, and mutual exclusion.
  \<^item> \<open>Fifo_Lock\<close>: the abstract specification of a group, a lock with a first-come, first-served line; every
    sequence of calls on a group refines it, and no job overtakes another.
  \<^item> \<open>Well_Formed\<close>: the type invariant of the state of the process, over every sequence of operations.
  \<^item> \<open>Controller_Loop\<close> (\<^verbatim>\<open>Run\<close>, \<^verbatim>\<open>until\<close>, \<^verbatim>\<open>runWorker\<close> of \<^verbatim>\<open>controller/controller.go\<close>):
    workers, resync, start, shutdown and recovered panics as interleaved state machines. The locale
    \<open>work_queue_contract\<close> is what the work queue of client-go documents; a group has one worker at
    a time, the workers return after a shutdown, and a panic does not lose a group.
  \<^item> \<open>Orch_Main\<close> (\<^verbatim>\<open>src/cmd/timesliceorchestrator/main.go\<close>, \<^verbatim>\<open>StartServer\<close>): start and graceful
    shutdown of the process, which a waiting Acquire blocks.
  \<^item> \<open>Stale_Load\<close>: an execution in which a job is granted the group before its context is loaded.

  \<^bold>\<open>The snapshot agent\<close> (\<^verbatim>\<open>snapshot-agent/\<close>)

  \<^item> \<open>Go_Text\<close>, \<open>Go_Path\<close>: the functions of \<^verbatim>\<open>strconv\<close>, \<^verbatim>\<open>strings\<close> and
    \<^verbatim>\<open>path/filepath\<close> the code uses, with round trips of printing and parsing and the algebra of
    cleaned paths.
  \<^item> \<open>Agent_State\<close> (\<^verbatim>\<open>state-machine/state-manager.go\<close>): jobs, operations and their goroutines as a
    step relation; life cycle of a job, one operation per job, results are final.
  \<^item> \<open>Features\<close> (\<^verbatim>\<open>features/features.go\<close>): feature gates.
  \<^item> \<open>Backends\<close> (\<^verbatim>\<open>backends/checkpoint.go\<close>, \<^verbatim>\<open>noop.go\<close>, \<^verbatim>\<open>cuda-checkpoint.go\<close>,
    \<^verbatim>\<open>direct_memory.go\<close>, \<^verbatim>\<open>tpu.go\<close>): the interface and the backends that run a program on
    processes; the locale \<open>pid_config\<close> is the round trip of process numbers through a configuration.
  \<^item> \<open>Memory_Regions\<close> (\<^verbatim>\<open>backends/memory_regions.go\<close>) and \<open>Gpu_Cr\<close> (\<^verbatim>\<open>gpucr/gpucr.go\<close>):
    dumps of memory regions in a store of files, and the sweeper of that store. The sweeper decides on
    the names the backend gives, so the main properties span both: a restore finds what a snapshot
    wrote, and what is parked survives the sweeper while its process lives.
  \<^item> \<open>App_Endpoint\<close> (\<^verbatim>\<open>backends/app_endpoint.go\<close>): requests to inference servers.
  \<^item> \<open>Workload_Channel\<close> (\<^verbatim>\<open>backends/app_channel.go\<close>, \<^verbatim>\<open>server/workload_channel.go\<close>): sessions
    of workloads, commands and results as interleaved steps.
  \<^item> \<open>Pod_Utils\<close> (\<^verbatim>\<open>utils/pod-utils.go\<close>), \<open>Tpu_Discovery\<close> (\<^verbatim>\<open>tpu/tpu.go\<close>): which processes
    of a pod use GPUs or TPUs, and the gate a TPU restore waits at.
  \<^item> \<open>Agent_Server\<close> (\<^verbatim>\<open>server/server.go\<close>), \<open>Watcher\<close> (\<^verbatim>\<open>server/watcher.go\<close>): the handlers, the
    workers they start, and the detection of what idle jobs do.
  \<^item> \<open>Agent_Main\<close> (\<^verbatim>\<open>src/cmd/snapshot-agent/main.go\<close>, \<^verbatim>\<open>StartServer\<close>, \<^verbatim>\<open>StartSweeper\<close>): which
    configurations an agent starts with and what it then serves.
  \<^item> \<open>Backend_Contract\<close>: the locale \<open>log_backend\<close>, what the server relies on in a backend, its interpretations
    for the no-op, CUDA, direct memory, TPU, endpoint and memory-regions backends, and the server as its client.
  \<^item> \<open>Agent_Poll\<close>: the wait of the orchestrator against the operations of the agent.

  \<^bold>\<open>Orchestrator and agents together\<close>

  \<^item> \<open>Fleet\<close>: the agent servers of all nodes as the world the gRPC store of the orchestrator calls. A call is a
    call of the handler of one agent, over a connection that may fail before or after the handler ran; workers and
    watchers of the agents move between the calls (\<open>fleet_step\<close>). Moves of the servers are moves of their
    state managers, and calls of the gRPC store are moves of the fleet.
  \<^item> \<open>Handover\<close>: the main composition. A reconciliation run over the fleet: when the orchestrator is about to have
    an agent restore a job, every other job of the group that was listed as SAVED or RUNNING on the node is SAVED as the
    agent itself has it, not only as the orchestrator read it, or its snapshot found no live process.
  \<^item> \<open>Lost_Status\<close>: what the hypothesis on status requests is needed for, an execution in which lost status requests
    let two jobs run on one node.

  \<^bold>\<open>Around the services\<close>

  \<^item> \<open>Rlts\<close> (\<^verbatim>\<open>src/cmd/rlts/cmd/\<close>): the checks of \<^verbatim>\<open>rlts inspect\<close>, the commands that call the
    orchestrator, and the end-to-end test command, whose scenarios are arguments.
  \<^item> \<open>Logging\<close> (\<^verbatim>\<open>logging/handler.go\<close>): the attributes added to a log record.

  \<open>Prelude\<close> holds the error values, the sentinel errors and shared lemmas on lists, maps and
  association lists; \<open>Api\<close> the messages of the two gRPC services.

  \<^bold>\<open>How the code is modelled.\<close> A struct is a record, an enum a datatype (open enums that are
  validated by number stay numbers), an error a value of \<open>go_error\<close> with its chain of wrapped errors.
  A method is a function from the state to its result and the new state. What is shared through
  pointers is reached through its key. A method that runs under a mutex is one step; where a handler
  gives the mutex up, the parts are separate steps and interleave with everything else (\<open>sys_step\<close>,
  \<open>sm_step\<close>, \<open>fleet_step\<close>, \<open>ch_step\<close>, \<open>gr_step\<close>, \<open>ctl_work\<close> and \<open>ctl_rest\<close>, the schedules of \<open>Reconcile\<close>). A panic is an outcome
  of a reconciliation or an event of the schedule of a node pass. What the program does to the outside,
  agents called, commands run, files made, requests sent, is a log or a state of an arbitrary type;
  what the outside answers is a parameter that may depend on everything that happened before.
  Machine words are words where the code computes with them (memory sums, device numbers), otherwise
  integers; parsed numbers are checked against their range.

  \<^bold>\<open>Bounds.\<close> Loops over data are structural recursion. \<^verbatim>\<open>waitForOperation\<close> polls without bound:
  it takes a number of polls as fuel, and \<open>wait_ends_with_operation\<close> shows that a number that reaches
  the end of the operation, or the cancellation, gives the result. \<^verbatim>\<open>Acquire\<close> takes the turns it
  waits for as a list. The number of moves of the workers after a shutdown is bounded by the groups still
  queued and the number of workers. The vfio gate is a partial function, whose termination is
  \<open>vfio_gate_returns\<close>.

  \<^bold>\<open>What the theorems assume.\<close> Mutual exclusion is shown for a lock store whose failed release has no
  effect (\<open>strict_lock_store\<close>); a remote store can lose the answer of a release that took place.
  Fresh identifiers and command identifiers are distinct, as version-4 UUIDs are taken to be.
  The handover on the agents is shown for agents that answer status requests and have not forgotten a job that was seen
  as SAVED (they keep their jobs in memory only), while no other client asks for the restore of a job of the
  group. \<open>Lost_Status\<close> shows that the first of these is needed.

  The work queue keeps its contract, and the rest of the process changes it only by adding groups. Observed
  group names have no colon, as label names and values cannot have one.

  \<^bold>\<open>Not modelled.\<close> Panics in the handlers of the two servers, which end the process; the text of log records; exact texts of
  errors where they print durations, quoted strings or maps; sockets, the metrics server and the informers,
  whose answers are arguments; the scenarios of the end-to-end test command, which belong to
  the test harness; generated protocol code; \<^verbatim>\<open>time.ParseDuration\<close>, \<^verbatim>\<open>url.Parse\<close> and regular
  expressions other than the fixed ones, which are written out. The Python client, the deployment files and
  the tests are outside of the development.
\<close>

end
